(* ===== verification/ELMS_Prelude.thy ===== *)
theory ELMS_Prelude
  imports Main "HOL-Library.AList"
begin

text \<open>
  Shared vocabulary of the development: Python dictionaries (insertion-ordered, modelled as
  association lists with at most one entry per key), the exceptions the services raise, the
  sum type their operations return, and the generic lemmas on dictionaries and sums that the
  component theories share.
\<close>

named_theorems wf_intros \<open>introduction rules for the well-formedness invariants\<close>

named_theorems dict_simps \<open>rewrite rules for dictionary lookups, updates and value lists\<close>

section \<open>Python dictionaries\<close>

text \<open>
  A \<open>dict\<close> keeps its keys in insertion order; storing under a present key replaces the value
  in place, storing under a new key appends. \<^term>\<open>AList.update\<close> does exactly this.
\<close>

type_synonym ('k, 'v) dict = "('k \<times> 'v) list"

definition dict_get :: "('k, 'v) dict \<Rightarrow> 'k \<Rightarrow> 'v option" where
  "dict_get d k = map_of d k"

definition dict_put :: "('k, 'v) dict \<Rightarrow> 'k \<Rightarrow> 'v \<Rightarrow> ('k, 'v) dict" where
  "dict_put d k v = AList.update k v d"

definition dict_del :: "('k, 'v) dict \<Rightarrow> 'k \<Rightarrow> ('k, 'v) dict" where
  "dict_del d k = AList.delete k d"

definition dict_has :: "('k, 'v) dict \<Rightarrow> 'k \<Rightarrow> bool" where
  "dict_has d k \<longleftrightarrow> dict_get d k \<noteq> None"

definition dict_get_or :: "('k, 'v) dict \<Rightarrow> 'k \<Rightarrow> 'v \<Rightarrow> 'v" where
  "dict_get_or d k v = (case dict_get d k of None \<Rightarrow> v | Some w \<Rightarrow> w)"

definition dict_values :: "('k, 'v) dict \<Rightarrow> 'v list" where
  "dict_values d = map snd d"

definition wf_dict :: "('k, 'v) dict \<Rightarrow> bool" where
  "wf_dict d \<longleftrightarrow> distinct (map fst d)"

text \<open>\<open>dict(...)\<close> from a sequence of pairs, and \<open>{**d, **e}\<close>: later entries win.\<close>

definition dict_merge :: "('k, 'v) dict \<Rightarrow> ('k \<times> 'v) list \<Rightarrow> ('k, 'v) dict" where
  "dict_merge d kvs = fold (\<lambda>(k, v) d. dict_put d k v) kvs d"

lemma dict_get_Nil [simp]: "dict_get [] k = None"
  by (simp add: dict_get_def)

lemma dict_get_put [simp]: "dict_get (dict_put d k v) k' = (if k' = k then Some v else dict_get d k')"
  by (simp add: dict_get_def dict_put_def update_conv')

lemma dict_get_del [simp]: "dict_get (dict_del d k) k' = (if k' = k then None else dict_get d k')"
  by (simp add: dict_get_def dict_del_def delete_conv')

lemma dict_has_put [simp]: "dict_has (dict_put d k v) k' \<longleftrightarrow> k' = k \<or> dict_has d k'"
  by (simp add: dict_has_def)

lemma dict_get_or_put [simp]:
  "dict_get_or (dict_put d k v) k' w = (if k' = k then v else dict_get_or d k' w)"
  by (simp add: dict_get_or_def)

lemma wf_dict_Nil [simp]: "wf_dict []"
  by (simp add: wf_dict_def)

lemma wf_dict_put [simp, wf_intros]: "wf_dict d \<Longrightarrow> wf_dict (dict_put d k v)"
  by (simp add: wf_dict_def dict_put_def distinct_update)

lemma wf_dict_del [simp, wf_intros]: "wf_dict d \<Longrightarrow> wf_dict (dict_del d k)"
  by (simp add: wf_dict_def dict_del_def distinct_delete)

lemma dict_values_Nil [simp]: "dict_values [] = []"
  by (simp add: dict_values_def)

lemma dict_put_new: "dict_get d k = None \<Longrightarrow> dict_put d k v = d @ [(k, v)]"
  by (induction d) (auto simp: dict_get_def dict_put_def split: if_splits)

lemma dict_values_put_new [dict_simps]:
  "dict_get d k = None \<Longrightarrow> dict_values (dict_put d k v) = dict_values d @ [v]"
  by (simp add: dict_put_new dict_values_def)

lemma dict_get_Some_iff: "wf_dict d \<Longrightarrow> dict_get d k = Some v \<longleftrightarrow> (k, v) \<in> set d"
  by (simp add: wf_dict_def dict_get_def)

lemma in_dict_values_iff: "wf_dict d \<Longrightarrow> v \<in> set (dict_values d) \<longleftrightarrow> (\<exists>k. dict_get d k = Some v)"
  by (force simp: dict_get_Some_iff dict_values_def)

lemma dict_values_put_present:
  assumes "wf_dict d" and "dict_get d k = Some old"
  shows "dict_values (dict_put d k v) = map (\<lambda>(k', w). if k' = k then v else w) d"
  using assms
proof (induction d)
  case Nil
  then show ?case by simp
next
  case (Cons kv d)
  obtain k' w where kv: "kv = (k', w)" by (cases kv)
  have fresh: "k \<notin> fst ` set d" if "k' = k"
    using Cons.prems(1) kv that by (auto simp: wf_dict_def)
  show ?case
  proof (cases "k' = k")
    case True
    have "map (\<lambda>(k', w). if k' = k then v else w) d = map snd d"
      using fresh [OF True] by (induction d) (auto simp: rev_image_eqI)
    with True kv show ?thesis by (simp add: dict_values_def dict_put_def)
  next
    case False
    from Cons.prems False kv have "wf_dict d" and "dict_get d k = Some old"
      by (auto simp: wf_dict_def dict_get_def)
    from Cons.IH [OF this] False kv show ?thesis
      by (simp add: dict_values_def dict_put_def)
  qed
qed

text \<open>A value list maps and filters through an in-place update that preserves the projection.\<close>

lemma map_dict_values_put:
  assumes "wf_dict d" and "dict_get d k = Some old" and "f new = f old"
  shows "map f (dict_values (dict_put d k new)) = map f (dict_values d)"
proof -
  have "f (case kw of (k', w) \<Rightarrow> if k' = k then new else w) = f (snd kw)" if "kw \<in> set d" for kw
    using assms that by (cases kw) (auto simp: dict_get_Some_iff wf_dict_def dest: eq_key_imp_eq_value)
  then show ?thesis
    unfolding dict_values_put_present [OF assms(1,2)]
    unfolding dict_values_def
    by (simp add: comp_def)
qed

lemma filter_map_dict_values_put:
  assumes "wf_dict d" and "dict_get d k = Some old" and "P new = P old" and "f new = f old"
  shows "map f (filter P (dict_values (dict_put d k new))) = map f (filter P (dict_values d))"
proof -
  let ?g = "\<lambda>(k', w). if k' = k then new else w"
  have old: "w = old" if "(k, w) \<in> set d" for w
    using assms(1,2) that by (auto simp: dict_get_Some_iff wf_dict_def dest: eq_key_imp_eq_value)
  have "map f (filter P (map ?g xs)) = map f (filter P (map snd xs))" if "set xs \<subseteq> set d" for xs
    using that
  proof (induction xs)
    case (Cons kw xs)
    then show ?case using old assms(3,4) by (cases kw) auto
  qed simp
  from this [of d] show ?thesis
    unfolding dict_values_put_present [OF assms(1,2)] unfolding dict_values_def by simp
qed

lemma filter_values_by_key:
  assumes "wf_dict d" and "\<And>k v. dict_get d k = Some v \<Longrightarrow> f v = k"
  shows "filter (\<lambda>v. f v = k) (dict_values d) = (case dict_get d k of None \<Rightarrow> [] | Some v \<Rightarrow> [v])"
  using assms
proof (induction d)
  case Nil
  then show ?case by simp
next
  case (Cons kv d)
  obtain k' v where kv: "kv = (k', v)" by (cases kv)
  have new: "dict_get d k' = None" and wf: "wf_dict d"
    using Cons.prems(1) kv by (auto simp: wf_dict_def dict_get_def map_of_eq_None_iff)
  have keys: "f w = j" if "dict_get d j = Some w" for j w
    using Cons.prems(2) [of j w] that new kv by (cases "j = k'") (auto simp: dict_get_def)
  have "f v = k'" using Cons.prems(2) [of k' v] kv by (simp add: dict_get_def)
  then show ?case
    using Cons.IH [OF wf keys] new kv by (auto simp: dict_values_def dict_get_def)
qed

section \<open>Sums over the values of a dictionary\<close>

definition dict_sum :: "('v \<Rightarrow> int) \<Rightarrow> ('k, 'v) dict \<Rightarrow> int" where
  "dict_sum f d = sum_list (map f (dict_values d))"

lemma dict_sum_Nil [simp]: "dict_sum f [] = 0"
  by (simp add: dict_sum_def)

lemma dict_sum_put_new [dict_simps]:
  "dict_get d k = None \<Longrightarrow> dict_sum f (dict_put d k v) = dict_sum f d + f v"
  by (simp add: dict_sum_def dict_values_put_new)

lemma dict_sum_put [dict_simps]:
  assumes "dict_get d k = Some old"
  shows "dict_sum f (dict_put d k new) = dict_sum f d - f old + f new"
  using assms
  by (induction d) (auto simp: dict_sum_def dict_values_def dict_put_def dict_get_def split: if_splits)

lemma dict_del_absent: "dict_get d k = None \<Longrightarrow> dict_del d k = d"
  by (induction d) (auto simp: dict_get_def dict_del_def split: if_splits)

lemma del_put_absent: "dict_get d k = None \<Longrightarrow> dict_del (dict_put d k v) k = d"
  by (induction d) (auto simp: dict_get_def dict_del_def dict_put_def split: if_splits)

lemma dict_sum_del [dict_simps]:
  assumes "wf_dict d" and "dict_get d k = Some old"
  shows "dict_sum f (dict_del d k) = dict_sum f d - f old"
  using assms
proof (induction d)
  case Nil
  then show ?case by simp
next
  case (Cons kv d)
  obtain k' w where kv: "kv = (k', w)" by (cases kv)
  show ?case
  proof (cases "k' = k")
    case True
    with Cons.prems kv have "dict_get d k = None"
      by (auto simp: wf_dict_def dict_get_def map_of_eq_None_iff)
    then have "dict_del d k = d" by (rule dict_del_absent)
    with True kv Cons.prems show ?thesis
      by (simp add: dict_sum_def dict_values_def dict_del_def dict_get_def)
  next
    case False
    with Cons kv show ?thesis
      by (simp add: dict_sum_def dict_values_def dict_del_def dict_get_def wf_dict_def)
  qed
qed

lemma dict_sum_nonneg:
  assumes "wf_dict d" and "\<And>k v. dict_get d k = Some v \<Longrightarrow> 0 \<le> f v"
  shows "0 \<le> dict_sum f d"
  using assms unfolding dict_sum_def
  by (intro sum_list_nonneg) (auto simp: in_dict_values_iff)

section \<open>The dictionary interface\<close>

text \<open>
  What the stores rely on when they load a sequence of entries: lookups after a run of
  \<open>put\<close>s answer the last entry stored under the key.
\<close>

locale dict_interface =
  fixes get :: "'d \<Rightarrow> 'k \<Rightarrow> 'v option"
    and put :: "'d \<Rightarrow> 'k \<Rightarrow> 'v \<Rightarrow> 'd"
  assumes get_put: "get (put d k v) k' = (if k' = k then Some v else get d k')"
begin

lemma get_fold_put:
  "get (fold (\<lambda>(k, v) d. put d k v) kvs d) k =
     (case map_of (rev kvs) k of None \<Rightarrow> get d k | Some v \<Rightarrow> Some v)"
  by (induction kvs arbitrary: d) (auto simp: get_put map_add_def split: option.splits)

lemma get_fold_put_notin:
  "k \<notin> fst ` set kvs \<Longrightarrow> get (fold (\<lambda>(k, v) d. put d k v) kvs d) k = get d k"
  by (induction kvs arbitrary: d) (auto simp: get_put)

end

interpretation pydict: dict_interface dict_get dict_put
  by unfold_locales simp

lemma dict_get_merge [simp]:
  "dict_get (dict_merge d kvs) k = (case map_of (rev kvs) k of None \<Rightarrow> dict_get d k | Some v \<Rightarrow> Some v)"
  unfolding dict_merge_def by (rule pydict.get_fold_put)

lemma map_of_rev_None [simp]: "map_of (rev kvs) k = None \<longleftrightarrow> dict_get kvs k = None"
  by (simp add: dict_get_def map_of_eq_None_iff)

lemma map_of_rev_wf: "wf_dict d \<Longrightarrow> map_of (rev d) k = dict_get d k"
proof (cases "dict_get d k")
  case (Some v)
  assume "wf_dict d"
  with Some have "(k, v) \<in> set (rev d)" and "distinct (map fst (rev d))"
    by (simp_all add: dict_get_Some_iff) (simp add: wf_dict_def rev_map [symmetric])
  with Some show ?thesis by (simp only: map_of_is_SomeI)
qed simp

lemma wf_dict_merge [simp, wf_intros]: "wf_dict d \<Longrightarrow> wf_dict (dict_merge d kvs)"
  unfolding dict_merge_def by (induction kvs arbitrary: d) auto

section \<open>Pages of a list\<close>

lemma concat_pages: "concat (map (\<lambda>n. take k (drop (n * k) xs)) [0..<m]) = take (m * k) xs"
proof (induction m)
  case (Suc m)
  have "take (m * k) xs @ take k (drop (m * k) xs) = take (m * k + k) xs"
    by (simp add: take_add)
  with Suc show ?case by (simp add: add.commute)
qed simp

lemma ceil_div_covers:
  fixes n k :: nat
  assumes "0 < k"
  shows "n \<le> ((n + k - 1) div k) * k"
proof -
  have "n + k - 1 < ((n + k - 1) div k) * k + k"
    using assms div_mult_mod_eq [of "n + k - 1" k] mod_less_divisor [of k "n + k - 1"] by linarith
  then show ?thesis by linarith
qed

section \<open>Exceptions and results\<close>

text \<open>
  The failures of the outbound HTTP client that the source tells apart: a timeout, any other
  failure to send or receive (\<open>httpx.RequestError\<close>), and a non-2xx status turned into an
  exception by \<open>raise_for_status\<close>. All three are subclasses of \<open>httpx.HTTPError\<close>.
\<close>

datatype httpx_error = TimeoutException | ConnectError | HTTPStatusError int

text \<open>
  The \<open>detail\<close> of an \<open>HTTPException\<close>: a message of the code, or the error list of the request
  validation layer, whose text is not the program's.
\<close>

datatype detail = Msg string | ValidationErrors

datatype exn =
    HTTPException int detail
  | HTTPXError httpx_error
  | CircuitBreakerError string
  | KeyError string
  | LookupError string
  | ValueError string
  | RuntimeError string
  | AttributeError string
  | TypeError string

type_synonym 'a result = "exn + 'a"

fun is_ok :: "'a result \<Rightarrow> bool" where
  "is_ok (Inl e) = False"
| "is_ok (Inr a) = True"

text \<open>A call inside a \<open>try\<close>-less body: an exception of the first part skips the rest.\<close>

fun and_then :: "'a result \<Rightarrow> ('a \<Rightarrow> 'b result) \<Rightarrow> 'b result" where
  "and_then (Inl e) f = Inl e"
| "and_then (Inr a) f = f a"

lemma and_then_Inr_iff: "and_then r f = Inr b \<longleftrightarrow> (\<exists>a. r = Inr a \<and> f a = Inr b)"
  by (cases r) auto

lemma and_then_Inl_iff: "and_then r f = Inl e \<longleftrightarrow> r = Inl e \<or> (\<exists>a. r = Inr a \<and> f a = Inl e)"
  by (cases r) auto

lemma is_ok_iff: "is_ok r \<longleftrightarrow> (\<exists>a. r = Inr a)"
  by (cases r) auto

section \<open>Step systems\<close>

text \<open>
  Several components are state machines whose steps are handler runs. The invariant rule is
  proved once for every start predicate, step relation and invariant.
\<close>

locale invariant_system =
  fixes init :: "'s \<Rightarrow> bool"
    and step :: "'s \<Rightarrow> 's \<Rightarrow> bool"
    and inv :: "'s \<Rightarrow> bool"
  assumes inv_init: "init s \<Longrightarrow> inv s"
    and inv_step: "inv s \<Longrightarrow> step s t \<Longrightarrow> inv t"
begin

lemma inv_steps: "step\<^sup>*\<^sup>* s t \<Longrightarrow> inv s \<Longrightarrow> inv t"
  by (induction rule: rtranclp_induct) (auto intro: inv_step)

lemma inv_reachable: "init s \<Longrightarrow> step\<^sup>*\<^sup>* s t \<Longrightarrow> inv t"
  by (blast intro: inv_steps inv_init)

end

end
