(* ===== verification/Enums.thy ===== *)
theory Enums
  imports ELMS_Prelude
begin

text \<open>
  The string enumerations of \<open>shared/enums.py\<close>: members, their values, the lookup of a member by
  value that \<open>Role(x)\<close>, \<open>LeaveStatus(x)\<close> and their kin perform, and the default allocations.
\<close>

section \<open>Members and values\<close>

datatype Role = EMPLOYEE | MANAGER

datatype LeaveType = CASUAL | SICK | PRIVILEGE

datatype LeaveStatus = PENDING | APPROVED | REJECTED | CANCELLED

datatype NotificationEventType = LEAVE_APPLIED | LEAVE_APPROVED | LEAVE_REJECTED | SYSTEM_ERROR

fun Role_value :: "Role \<Rightarrow> string" where
  "Role_value EMPLOYEE = ''EMPLOYEE''"
| "Role_value MANAGER = ''MANAGER''"

fun LeaveType_value :: "LeaveType \<Rightarrow> string" where
  "LeaveType_value CASUAL = ''CASUAL''"
| "LeaveType_value SICK = ''SICK''"
| "LeaveType_value PRIVILEGE = ''PRIVILEGE''"

fun LeaveStatus_value :: "LeaveStatus \<Rightarrow> string" where
  "LeaveStatus_value PENDING = ''PENDING''"
| "LeaveStatus_value APPROVED = ''APPROVED''"
| "LeaveStatus_value REJECTED = ''REJECTED''"
| "LeaveStatus_value CANCELLED = ''CANCELLED''"

fun NotificationEventType_value :: "NotificationEventType \<Rightarrow> string" where
  "NotificationEventType_value LEAVE_APPLIED = ''LEAVE_APPLIED''"
| "NotificationEventType_value LEAVE_APPROVED = ''LEAVE_APPROVED''"
| "NotificationEventType_value LEAVE_REJECTED = ''LEAVE_REJECTED''"
| "NotificationEventType_value SYSTEM_ERROR = ''SYSTEM_ERROR''"

text \<open>Calling an \<open>Enum\<close> class looks the member up by value; \<open>None\<close> is the \<open>ValueError\<close>.\<close>

definition enum_of_value :: "('a \<Rightarrow> string) \<Rightarrow> 'a list \<Rightarrow> string \<Rightarrow> 'a option" where
  "enum_of_value val members s = List.find (\<lambda>m. val m = s) members"

definition Role_of :: "string \<Rightarrow> Role option" where
  "Role_of = enum_of_value Role_value [EMPLOYEE, MANAGER]"

definition LeaveType_of :: "string \<Rightarrow> LeaveType option" where
  "LeaveType_of = enum_of_value LeaveType_value [CASUAL, SICK, PRIVILEGE]"

definition LeaveStatus_of :: "string \<Rightarrow> LeaveStatus option" where
  "LeaveStatus_of = enum_of_value LeaveStatus_value [PENDING, APPROVED, REJECTED, CANCELLED]"

definition NotificationEventType_of :: "string \<Rightarrow> NotificationEventType option" where
  "NotificationEventType_of = enum_of_value NotificationEventType_value
     [LEAVE_APPLIED, LEAVE_APPROVED, LEAVE_REJECTED, SYSTEM_ERROR]"

definition DEFAULT_LEAVE_ALLOCATIONS :: "(LeaveType, int) dict" where
  "DEFAULT_LEAVE_ALLOCATIONS = [(CASUAL, 12), (SICK, 10), (PRIVILEGE, 15)]"

section \<open>The contract of a string enumeration\<close>

text \<open>
  The services send members as their values and read them back by value; what they rely on is
  that the values tell the members apart and that the member list is complete.
\<close>

locale string_enum =
  fixes val :: "'a \<Rightarrow> string"
    and members :: "'a list"
  assumes complete: "m \<in> set members"
    and distinct_values: "distinct (map val members)"
begin

lemma val_inj: "val m = val n \<longleftrightarrow> m = n"
  using complete [of m] complete [of n] distinct_values
  by (auto simp: distinct_map inj_on_def)

lemma of_value_Some_iff: "enum_of_value val members s = Some m \<longleftrightarrow> s = val m"
proof
  assume "enum_of_value val members s = Some m"
  then show "s = val m" by (auto simp: enum_of_value_def find_Some_iff)
next
  assume s: "s = val m"
  have "enum_of_value val members (val m) \<noteq> None"
    using complete [of m] by (auto simp: enum_of_value_def find_None_iff)
  then obtain n where n: "enum_of_value val members (val m) = Some n" by auto
  then have "val n = val m" by (auto simp: enum_of_value_def find_Some_iff)
  with n s show "enum_of_value val members s = Some m" by (simp add: val_inj)
qed

lemma of_value_roundtrip: "enum_of_value val members (val m) = Some m"
  by (simp add: of_value_Some_iff)

lemma of_value_None_iff: "enum_of_value val members s = None \<longleftrightarrow> s \<notin> range val"
  by (metis not_Some_eq of_value_Some_iff rangeE rangeI)

end

interpretation role_enum: string_enum Role_value "[EMPLOYEE, MANAGER]"
proof
  show "m \<in> set [EMPLOYEE, MANAGER]" for m by (cases m) auto
qed simp

interpretation leave_type_enum: string_enum LeaveType_value "[CASUAL, SICK, PRIVILEGE]"
proof
  show "m \<in> set [CASUAL, SICK, PRIVILEGE]" for m by (cases m) auto
qed simp

interpretation leave_status_enum:
  string_enum LeaveStatus_value "[PENDING, APPROVED, REJECTED, CANCELLED]"
proof
  show "m \<in> set [PENDING, APPROVED, REJECTED, CANCELLED]" for m by (cases m) auto
qed simp

interpretation event_enum:
  string_enum NotificationEventType_value "[LEAVE_APPLIED, LEAVE_APPROVED, LEAVE_REJECTED, SYSTEM_ERROR]"
proof
  show "m \<in> set [LEAVE_APPLIED, LEAVE_APPROVED, LEAVE_REJECTED, SYSTEM_ERROR]" for m by (cases m) auto
qed simp

lemma enum_value_inj [simp]:
  "Role_value r = Role_value r' \<longleftrightarrow> r = r'"
  "LeaveType_value t = LeaveType_value t' \<longleftrightarrow> t = t'"
  "LeaveStatus_value st = LeaveStatus_value st' \<longleftrightarrow> st = st'"
  "NotificationEventType_value e = NotificationEventType_value e' \<longleftrightarrow> e = e'"
  by (fact role_enum.val_inj leave_type_enum.val_inj leave_status_enum.val_inj event_enum.val_inj)+

lemma Role_value_nonempty [simp]: "Role_value r \<noteq> []" "[] \<noteq> Role_value r"
  by (cases r; simp)+

lemmas enum_of_defs = Role_of_def LeaveType_of_def LeaveStatus_of_def NotificationEventType_of_def

lemma Role_of_value [simp]: "Role_of (Role_value r) = Some r"
  unfolding Role_of_def by (rule role_enum.of_value_roundtrip)

lemma Role_of_Some_iff: "Role_of s = Some r \<longleftrightarrow> s = Role_value r"
  unfolding Role_of_def by (rule role_enum.of_value_Some_iff)

lemma LeaveType_of_value [simp]: "LeaveType_of (LeaveType_value t) = Some t"
  unfolding LeaveType_of_def by (rule leave_type_enum.of_value_roundtrip)

lemma LeaveStatus_of_value [simp]: "LeaveStatus_of (LeaveStatus_value st) = Some st"
  unfolding LeaveStatus_of_def by (rule leave_status_enum.of_value_roundtrip)

lemma LeaveStatus_of_Some_iff: "LeaveStatus_of s = Some st \<longleftrightarrow> s = LeaveStatus_value st"
  unfolding LeaveStatus_of_def by (rule leave_status_enum.of_value_Some_iff)

lemma LeaveStatus_of_None_iff: "LeaveStatus_of s = None \<longleftrightarrow> s \<notin> range LeaveStatus_value"
  unfolding LeaveStatus_of_def by (rule leave_status_enum.of_value_None_iff)

lemma NotificationEventType_of_value [simp]:
  "NotificationEventType_of (NotificationEventType_value e) = Some e"
  unfolding NotificationEventType_of_def by (rule event_enum.of_value_roundtrip)

lemma NotificationEventType_of_Some_iff:
  "NotificationEventType_of s = Some e \<longleftrightarrow> s = NotificationEventType_value e"
  unfolding NotificationEventType_of_def by (rule event_enum.of_value_Some_iff)

lemma NotificationEventType_of_None_iff:
  "NotificationEventType_of s = None \<longleftrightarrow> s \<notin> range NotificationEventType_value"
  unfolding NotificationEventType_of_def by (rule event_enum.of_value_None_iff)

end
