(* ===== verification/Http.thy ===== *)
theory Http
  imports Enums
begin

text \<open>
  The HTTP boundary of the services: what a handler's outcome becomes on the wire
  (\<open>shared/exception_handlers.py\<close> and the framework's treatment of \<open>HTTPException\<close>), what an
  outbound call can do to the callee and the caller, and the events that
  \<open>shared/rabbitmq_publisher.py\<close> puts on the notifications queue.
\<close>

section \<open>JSON values and events\<close>

text \<open>
  The JSON values that event payloads hold. A float is carried as the text Python prints for it;
  the services never compute with one.
\<close>

datatype json =
    JNull
  | JBool bool
  | JInt int
  | JFloat string
  | JStr string
  | JList "json list"
  | JObj "(string \<times> json) list"

type_synonym payload = "(string, json) dict"

text \<open>An event handed to \<open>asyncio.create_task(publish_event(...))\<close>.\<close>

type_synonym event = "NotificationEventType \<times> payload"

definition message_body :: "NotificationEventType \<Rightarrow> payload \<Rightarrow> payload" where
  "message_body event_type payload =
     dict_merge [(''event_type'', JStr (NotificationEventType_value event_type))] payload"

text \<open>
  \<open>publish_event\<close>: a failed connection or a failed publish is logged and dropped. The two flags
  are the broker's answers.
\<close>

definition publish_event :: "bool \<Rightarrow> bool \<Rightarrow> event \<Rightarrow> payload list \<Rightarrow> payload list" where
  "publish_event connected published ev queue =
     (let body = message_body (fst ev) (snd ev)
      in if \<not> connected then queue
         else if \<not> published then queue
         else queue @ [body])"

lemma message_body_event_type:
  assumes "dict_get payload ''event_type'' = None"
  shows "dict_get (message_body e payload) ''event_type'' =
    Some (JStr (NotificationEventType_value e))"
proof -
  have "map_of (rev payload) ''event_type'' = None" using assms by (simp only: map_of_rev_None)
  then show ?thesis
    by (simp only: message_body_def dict_get_merge option.case) (simp add: dict_get_def)
qed

lemma message_body_field:
  assumes "wf_dict payload" and "k \<noteq> ''event_type''"
  shows "dict_get (message_body e payload) k = dict_get payload k"
  using assms
  by (simp add: message_body_def map_of_rev_wf split: option.splits) (simp add: dict_get_def)

section \<open>Responses\<close>

text \<open>
  A response of one of the services: a 2xx with its payload, an error with a \<open>detail\<close>; or a
  response that is not of the services' making, known by status and text.
\<close>

datatype 'a http_response =
    Ok_response int 'a
  | Error_response int detail
  | Other_response int string

fun status_code :: "'a http_response \<Rightarrow> int" where
  "status_code (Ok_response c a) = c"
| "status_code (Error_response c d) = c"
| "status_code (Other_response c t) = c"

text \<open>The text \<open>str(exc)\<close> of an exception that is not an \<open>HTTPException\<close>, as far as the code
  constructs it; the client library's own texts are its own.\<close>

fun exn_text :: "(httpx_error \<Rightarrow> string) \<Rightarrow> exn \<Rightarrow> string" where
  "exn_text httpx_text (HTTPException c d) = (case d of Msg m \<Rightarrow> m | ValidationErrors \<Rightarrow> [])"
| "exn_text httpx_text (HTTPXError e) = httpx_text e"
| "exn_text httpx_text (CircuitBreakerError m) = m"
| "exn_text httpx_text (KeyError m) = m"
| "exn_text httpx_text (LookupError m) = m"
| "exn_text httpx_text (ValueError m) = m"
| "exn_text httpx_text (RuntimeError m) = m"
| "exn_text httpx_text (AttributeError m) = m"
| "exn_text httpx_text (TypeError m) = m"

text \<open>
  \<open>unhandled_exception_handler\<close>: an \<open>HTTPException\<close> keeps its status and detail; anything else is
  a 500 with a fixed detail and a \<open>SYSTEM_ERROR\<close> event.
\<close>

definition unhandled_exception_handler ::
  "(httpx_error \<Rightarrow> string) \<Rightarrow> string \<Rightarrow> string \<Rightarrow> exn \<Rightarrow> 'a http_response \<times> event list" where
  "unhandled_exception_handler httpx_text service path exc =
     (case exc of
        HTTPException c d \<Rightarrow> (Error_response c d, [])
      | _ \<Rightarrow> (Error_response 500 (Msg ''Internal server error''),
              [(SYSTEM_ERROR,
                [(''message'', JStr (exn_text httpx_text exc)),
                 (''service'', JStr service),
                 (''path'', JStr path)])]))"

text \<open>What a handler's outcome is on the wire, given the status code its route declares.\<close>

definition respond :: "int \<Rightarrow> 'a result \<Rightarrow> 'a http_response" where
  "respond ok_status r =
     (case r of
        Inr a \<Rightarrow> Ok_response ok_status a
      | Inl (HTTPException c d) \<Rightarrow> Error_response c d
      | Inl _ \<Rightarrow> Error_response 500 (Msg ''Internal server error''))"

lemma respond_handler:
  "respond ok (Inl e) = fst (unhandled_exception_handler tx service path e)"
  by (cases e) (simp_all add: respond_def unhandled_exception_handler_def)

lemma respond_simps [simp]:
  "respond c (Inr a) = Ok_response c a"
  "respond c (Inl (HTTPException c' d)) = Error_response c' d"
  by (simp_all add: respond_def)

lemma respond_Ok_iff: "respond c r = Ok_response c' a \<longleftrightarrow> c' = c \<and> r = Inr a"
  by (auto simp: respond_def split: sum.splits exn.splits)

lemma respond_not_Other [simp]: "respond c r \<noteq> Other_response c' t"
  by (auto simp: respond_def split: sum.splits exn.splits)

text \<open>\<open>response.raise_for_status()\<close> followed by \<open>response.json()\<close>.\<close>

fun raise_for_status_json :: "'a http_response \<Rightarrow> 'a result" where
  "raise_for_status_json (Ok_response c a) = Inr a"
| "raise_for_status_json (Error_response c d) = Inl (HTTPXError (HTTPStatusError c))"
| "raise_for_status_json (Other_response c t) =
     (if 200 \<le> c \<and> c < 300 then Inl (ValueError ''response body is not the expected JSON'')
      else Inl (HTTPXError (HTTPStatusError c)))"

section \<open>Outbound calls\<close>

text \<open>
  An outbound call runs the callee's handler and returns its response, or it fails with a
  transport error. A failure may come before the callee has seen the request, or after the callee
  has carried it out (a timeout while waiting, a connection dropped before the reply): the caller
  cannot tell the two apart.
\<close>

datatype net = Delivered | RequestLost httpx_error | ReplyLost httpx_error

definition http_call :: "net \<Rightarrow> ('s \<Rightarrow> 's \<times> 'a http_response) \<Rightarrow> 's \<Rightarrow> 's \<times> 'a http_response result" where
  "http_call n handler s =
     (case n of
        Delivered \<Rightarrow> (case handler s of (s', r) \<Rightarrow> (s', Inr r))
      | RequestLost e \<Rightarrow> (s, Inl (HTTPXError e))
      | ReplyLost e \<Rightarrow> (case handler s of (s', r) \<Rightarrow> (s', Inl (HTTPXError e))))"

lemma http_call_state: "fst (http_call n h s) = s \<or> fst (http_call n h s) = fst (h s)"
  by (auto simp: http_call_def split: net.splits prod.splits)

lemma http_call_Inr_iff: "http_call n h s = (s', Inr r) \<longleftrightarrow> n = Delivered \<and> h s = (s', r)"
  by (auto simp: http_call_def split: net.splits prod.splits)

lemma http_call_Delivered [simp]: "http_call Delivered h s = (fst (h s), Inr (snd (h s)))"
  by (simp add: http_call_def split: prod.splits)

lemma http_call_preserves:
  "P s \<Longrightarrow> P (fst (h s)) \<Longrightarrow> P (fst (http_call n h s))"
  using http_call_state [of n h s] by auto

end
