(* ===== verification/Py_Text.thy ===== *)
theory Py_Text
  imports ELMS_Prelude "HOL-Library.Sublist"
begin

text \<open>
  The parts of Python's \<open>str\<close> and \<open>int\<close> that the services use: case mapping, \<open>strip\<close>,
  \<open>partition\<close>, decimal rendering and \<open>int(text)\<close>. Texts are lists of ASCII characters; the
  case mapping and the white space are Python's on that range.
\<close>

section \<open>Characters\<close>

definition is_space :: "char \<Rightarrow> bool" where
  "is_space c \<longleftrightarrow> (let n = of_char c :: nat in 9 \<le> n \<and> n \<le> 13 \<or> 28 \<le> n \<and> n \<le> 32)"

definition is_digit :: "char \<Rightarrow> bool" where
  "is_digit c \<longleftrightarrow> (let n = of_char c :: nat in 48 \<le> n \<and> n \<le> 57)"

definition digit_value :: "char \<Rightarrow> nat" where
  "digit_value c = of_char c - 48"

definition digit_char :: "nat \<Rightarrow> char" where
  "digit_char n = char_of (48 + n)"

definition upper_char :: "char \<Rightarrow> char" where
  "upper_char c = (let n = of_char c :: nat in if 97 \<le> n \<and> n \<le> 122 then char_of (n - 32) else c)"

definition lower_char :: "char \<Rightarrow> char" where
  "lower_char c = (let n = of_char c :: nat in if 65 \<le> n \<and> n \<le> 90 then char_of (n + 32) else c)"

lemma of_char_digit_char [simp]: "n < 10 \<Longrightarrow> (of_char (digit_char n) :: nat) = 48 + n"
  by (simp add: digit_char_def)

lemma is_digit_digit_char [simp]: "n < 10 \<Longrightarrow> is_digit (digit_char n)"
  by (simp add: is_digit_def Let_def)

lemma digit_value_digit_char [simp]: "n < 10 \<Longrightarrow> digit_value (digit_char n) = n"
  by (simp add: digit_value_def)

lemma digit_not_space [simp]: "is_digit c \<Longrightarrow> \<not> is_space c"
  by (auto simp: is_digit_def is_space_def Let_def)

lemma is_digit_not_sign: "is_digit c \<Longrightarrow> c \<noteq> CHR ''-'' \<and> c \<noteq> CHR ''+'' \<and> c \<noteq> CHR ''_''"
  by (auto simp: is_digit_def Let_def)

section \<open>str methods\<close>

definition str_upper :: "string \<Rightarrow> string" where
  "str_upper s = map upper_char s"

definition str_lower :: "string \<Rightarrow> string" where
  "str_lower s = map lower_char s"

definition str_strip :: "string \<Rightarrow> string" where
  "str_strip s = rev (dropWhile is_space (rev (dropWhile is_space s)))"

text \<open>\<open>s.partition(sep)\<close> for a one-character separator: the text before the first separator, the
  separator (empty when absent) and the text after it.\<close>

definition str_partition :: "char \<Rightarrow> string \<Rightarrow> string \<times> string \<times> string" where
  "str_partition c s =
     (case dropWhile (\<lambda>x. x \<noteq> c) s of
        [] \<Rightarrow> (s, [], [])
      | d # rest \<Rightarrow> (takeWhile (\<lambda>x. x \<noteq> c) s, [d], rest))"

lemma str_strip_no_space:
  assumes "s \<noteq> []" and "\<not> is_space (hd s)" and "\<not> is_space (last s)"
  shows "str_strip s = s"
proof -
  have "dropWhile is_space s = s"
    using assms(1,2) by (cases s) auto
  moreover have "dropWhile is_space (rev s) = rev s"
    using assms(1,3) by (cases s rule: rev_cases) auto
  ultimately show ?thesis by (simp add: str_strip_def)
qed

lemma str_strip_eq_Nil_iff: "str_strip s = [] \<longleftrightarrow> list_all is_space s"
proof -
  have "str_strip s = [] \<longleftrightarrow> (\<forall>x \<in> set (dropWhile is_space s). is_space x)"
    by (simp add: str_strip_def)
  also have "\<dots> \<longleftrightarrow> list_all is_space s"
    by (induction s) auto
  finally show ?thesis .
qed

lemma str_partition_absent: "c \<notin> set s \<Longrightarrow> str_partition c s = (s, [], [])"
proof -
  assume "c \<notin> set s"
  then have "dropWhile (\<lambda>x. x \<noteq> c) s = []" by auto
  then show ?thesis by (simp only: str_partition_def list.case)
qed

lemma str_partition_present:
  assumes "c \<notin> set s"
  shows "str_partition c (s @ c # t) = (s, [c], t)"
proof -
  have "dropWhile (\<lambda>x. x \<noteq> c) (s @ c # t) = c # t"
    using assms by (subst dropWhile_append2) auto
  moreover have "takeWhile (\<lambda>x. x \<noteq> c) (s @ c # t) = s"
    using assms by (subst takeWhile_append2) auto
  ultimately show ?thesis by (simp add: str_partition_def)
qed

section \<open>Decimal rendering and parsing\<close>

fun str_of_nat :: "nat \<Rightarrow> string" where
  "str_of_nat n =
     (if n < 10 then [digit_char n] else str_of_nat (n div 10) @ [digit_char (n mod 10)])"

declare str_of_nat.simps [simp del]

definition str_of_int :: "int \<Rightarrow> string" where
  "str_of_int i = (if i < 0 then CHR ''-'' # str_of_nat (nat (- i)) else str_of_nat (nat i))"

definition zero_pad :: "nat \<Rightarrow> string \<Rightarrow> string" where
  "zero_pad w s = replicate (w - length s) (CHR ''0'') @ s"

text \<open>
  \<open>int(text)\<close>: surrounding white space is dropped, one sign is allowed, then decimal digits with
  single underscores between them. \<open>None\<close> is the \<open>ValueError\<close>. The flag says whether the last
  character was a digit, so that an underscore is only taken between two digits.
\<close>

fun int_digits :: "string \<Rightarrow> bool \<Rightarrow> nat \<Rightarrow> nat option" where
  "int_digits [] after_digit acc = (if after_digit then Some acc else None)"
| "int_digits (c # cs) after_digit acc =
     (if is_digit c then int_digits cs True (10 * acc + digit_value c)
      else if c = CHR ''_'' \<and> after_digit then int_digits cs False acc
      else None)"

definition int_of_str :: "string \<Rightarrow> int option" where
  "int_of_str s =
     (case str_strip s of
        [] \<Rightarrow> None
      | c # cs \<Rightarrow>
          if c = CHR ''-'' then map_option (\<lambda>n. - int n) (int_digits cs False 0)
          else if c = CHR ''+'' then map_option int (int_digits cs False 0)
          else map_option int (int_digits (c # cs) False 0))"

lemma str_of_nat_digits: "str_of_nat n \<noteq> [] \<and> list_all is_digit (str_of_nat n)"
proof (induction n rule: str_of_nat.induct)
  case (1 n)
  show ?case
  proof (cases "n < 10")
    case True
    then show ?thesis by (simp add: str_of_nat.simps [of n])
  next
    case False
    with 1 have "list_all is_digit (str_of_nat (n div 10))" by simp
    with False show ?thesis by (simp add: str_of_nat.simps [of n])
  qed
qed

lemma int_digits_append:
  assumes "list_all is_digit xs" and "xs \<noteq> []"
  shows "int_digits (xs @ ys) b acc = int_digits ys True (fold (\<lambda>c a. 10 * a + digit_value c) xs acc)"
  using assms
proof (induction xs arbitrary: b acc)
  case Nil
  then show ?case by simp
next
  case (Cons c xs)
  then show ?case
    by (cases "xs = []") (simp_all add: Cons.IH [of True "10 * acc + digit_value c"])
qed

lemma fold_digits_str_of_nat: "fold (\<lambda>c a. 10 * a + digit_value c) (str_of_nat n) 0 = n"
proof (induction n rule: str_of_nat.induct)
  case (1 n)
  show ?case
  proof (cases "n < 10")
    case True
    then show ?thesis by (simp add: str_of_nat.simps [of n])
  next
    case False
    with 1 have "fold (\<lambda>c a. 10 * a + digit_value c) (str_of_nat (n div 10)) 0 = n div 10" by simp
    with False show ?thesis by (simp add: str_of_nat.simps [of n])
  qed
qed

lemma int_digits_str_of_nat [simp]: "int_digits (str_of_nat n) False 0 = Some n"
  using int_digits_append [of "str_of_nat n" "[]" False 0] str_of_nat_digits [of n]
  by (simp add: fold_digits_str_of_nat)

lemma str_of_nat_ends: "\<not> is_space (hd (str_of_nat n))" "\<not> is_space (last (str_of_nat n))"
  "is_digit (hd (str_of_nat n))"
  using str_of_nat_digits [of n]
  by (auto simp: list_all_iff)

lemma str_of_int_nonempty [simp]: "str_of_int i \<noteq> []"
  using str_of_nat_digits by (simp add: str_of_int_def)

lemma int_of_str_of_int: "int_of_str (str_of_int i) = Some i"
proof (cases "i < 0")
  case True
  let ?ds = "str_of_nat (nat (- i))"
  have "str_strip (CHR ''-'' # ?ds) = CHR ''-'' # ?ds"
    using str_of_nat_digits [of "nat (- i)"] str_of_nat_ends [of "nat (- i)"]
    by (intro str_strip_no_space) (auto simp: is_space_def)
  with True show ?thesis by (simp add: int_of_str_def str_of_int_def)
next
  case False
  let ?ds = "str_of_nat (nat i)"
  have strip: "str_strip ?ds = ?ds"
    using str_of_nat_digits [of "nat i"] str_of_nat_ends [of "nat i"]
    by (intro str_strip_no_space) auto
  obtain c cs where ds: "?ds = c # cs" and c: "is_digit c"
    using str_of_nat_digits [of "nat i"] by (cases ?ds) auto
  have "int_digits (c # cs) False 0 = Some (nat i)"
    using int_digits_str_of_nat [of "nat i"] ds by simp
  with False strip ds is_digit_not_sign [OF c] show ?thesis
    by (simp add: int_of_str_def str_of_int_def)
qed

lemma str_of_int_inj: "str_of_int i = str_of_int j \<longleftrightarrow> i = j"
  by (metis int_of_str_of_int option.inject)

end
