(* ===== verification/Py_Date.thy ===== *)
theory Py_Date
  imports Py_Text
begin

text \<open>
  Python's \<open>date\<close> and the UTC time stamps: the proleptic Gregorian calendar, the ordering of
  dates, \<open>toordinal\<close> (the day count that subtraction of dates uses), the ISO rendering and
  the notification time stamp. The lemmas show that the lexicographic order of
  (year, month, day) agrees with the day count and that the day count enumerates the calendar
  without gaps, so an inclusive span of dates has as many days as the count says.
\<close>

section \<open>Dates\<close>

datatype date = Date (d_year: nat) (d_month: nat) (d_day: nat)

definition is_leap :: "nat \<Rightarrow> bool" where
  "is_leap y \<longleftrightarrow> y mod 4 = 0 \<and> (y mod 100 \<noteq> 0 \<or> y mod 400 = 0)"

definition month_table :: "nat list" where
  "month_table = [31, 28, 31, 30, 31, 30, 31, 31, 30, 31, 30, 31]"

definition days_in_month :: "nat \<Rightarrow> nat \<Rightarrow> nat" where
  "days_in_month y m = (if m = 2 \<and> is_leap y then 29 else month_table ! (m - 1))"

definition days_before_year :: "nat \<Rightarrow> nat" where
  "days_before_year y = (let z = y - 1 in z * 365 + z div 4 - z div 100 + z div 400)"

definition days_before_month :: "nat \<Rightarrow> nat \<Rightarrow> nat" where
  "days_before_month y m =
     sum_list (take (m - 1) month_table) + (if 2 < m \<and> is_leap y then 1 else 0)"

fun toordinal :: "date \<Rightarrow> nat" where
  "toordinal (Date y m d) = days_before_year y + days_before_month y m + d"

fun valid_date :: "date \<Rightarrow> bool" where
  "valid_date (Date y m d) \<longleftrightarrow>
     1 \<le> y \<and> y \<le> 9999 \<and> 1 \<le> m \<and> m \<le> 12 \<and> 1 \<le> d \<and> d \<le> days_in_month y m"

text \<open>Dates compare as their (year, month, day) triples.\<close>

instantiation date :: linorder
begin

fun less_date :: "date \<Rightarrow> date \<Rightarrow> bool" where
  "less_date (Date y m d) (Date y' m' d') \<longleftrightarrow>
     y < y' \<or> y = y' \<and> (m < m' \<or> m = m' \<and> d < d')"

definition less_eq_date :: "date \<Rightarrow> date \<Rightarrow> bool" where
  "less_eq_date a b \<longleftrightarrow> a < b \<or> a = b"

instance
proof
  fix a b c :: date
  show "(a < b) = (a \<le> b \<and> \<not> b \<le> a)"
    by (cases a; cases b) (auto simp: less_eq_date_def)
  show "a \<le> a" by (simp add: less_eq_date_def)
  show "a \<le> b \<Longrightarrow> b \<le> c \<Longrightarrow> a \<le> c"
    by (cases a; cases b; cases c) (auto simp: less_eq_date_def)
  show "a \<le> b \<Longrightarrow> b \<le> a \<Longrightarrow> a = b"
    by (cases a; cases b) (auto simp: less_eq_date_def)
  show "a \<le> b \<or> b \<le> a"
    by (cases a; cases b) (auto simp: less_eq_date_def)
qed

end

text \<open>\<open>(end_date - start_date).days\<close>\<close>

definition days_between :: "date \<Rightarrow> date \<Rightarrow> int" where
  "days_between e s = int (toordinal e) - int (toordinal s)"

fun isoformat :: "date \<Rightarrow> string" where
  "isoformat (Date y m d) =
     zero_pad 4 (str_of_nat y) @ ''-'' @ zero_pad 2 (str_of_nat m) @ ''-'' @ zero_pad 2 (str_of_nat d)"

section \<open>Time stamps\<close>

record datetime =
  dt_date :: date
  dt_hour :: nat
  dt_minute :: nat
  dt_second :: nat
  dt_microsecond :: nat

text \<open>\<open>strftime("%Y-%m-%dT%H:%M:%SZ")\<close>; \<open>%Y\<close> pads to four digits on the supported years.\<close>

definition strftime_utc :: "datetime \<Rightarrow> string" where
  "strftime_utc t =
     isoformat (dt_date t) @ ''T'' @ zero_pad 2 (str_of_nat (dt_hour t)) @ '':''
       @ zero_pad 2 (str_of_nat (dt_minute t)) @ '':'' @ zero_pad 2 (str_of_nat (dt_second t)) @ ''Z''"

section \<open>The day count and the order agree\<close>

lemma month_cases:
  assumes "1 \<le> m" and "m \<le> (12::nat)"
  obtains "m = 1" | "m = 2" | "m = 3" | "m = 4" | "m = 5" | "m = 6"
    | "m = 7" | "m = 8" | "m = 9" | "m = 10" | "m = 11" | "m = 12"
  using assms by (auto simp: le_Suc_eq numeral_eq_Suc)

lemmas month_simps = days_before_month_def days_in_month_def month_table_def

lemma days_before_month_Suc:
  assumes "1 \<le> m" and "m < 12"
  shows "days_before_month y (Suc m) = days_before_month y m + days_in_month y m"
proof -
  from assms have "1 \<le> m" "m \<le> 12" by auto
  then show ?thesis
    using assms(2) by (cases rule: month_cases) (simp_all add: month_simps)
qed

lemma days_before_month_12:
  "days_before_month y 12 + days_in_month y 12 = 365 + (if is_leap y then 1 else 0)"
  by (simp add: month_simps)

lemma days_before_month_1 [simp]: "days_before_month y (Suc 0) = 0"
  by (simp add: days_before_month_def)

lemma leap_count:
  fixes a b c z :: nat
  assumes "b \<le> a" and "p100 \<Longrightarrow> p4" and "p400 \<Longrightarrow> p100"
  shows "Suc z * 365 + (a + (if p4 then 1 else 0)) - (b + (if p100 then 1 else 0))
      + (c + (if p400 then 1 else 0))
    = z * 365 + a - b + c + 365 + (if p4 \<and> (\<not> p100 \<or> p400) then 1 else 0)"
proof -
  obtain k where "a = b + k" using assms(1) le_Suc_ex by blast
  then show ?thesis
    using assms(2,3) by (cases p4; cases p100; cases p400) simp_all
qed

lemma days_before_year_Suc:
  assumes "1 \<le> y"
  shows "days_before_year (Suc y) = days_before_year y + 365 + (if is_leap y then 1 else 0)"
proof -
  obtain z where y: "y = Suc z" using assms by (cases y) auto
  have d: "Suc z div k = z div k + (if Suc z mod k = 0 then 1 else 0)" for k
    by (simp add: div_Suc)
  have hund: "n mod 100 = 0 \<Longrightarrow> n mod 4 = 0" and four: "n mod 400 = 0 \<Longrightarrow> n mod 100 = 0"
    for n :: nat
    by presburger+
  have le: "z div 100 \<le> z div 4" by (rule div_le_mono2) auto
  show ?thesis
    using leap_count [of "z div 100" "z div 4" "Suc z mod 100 = 0" "Suc z mod 4 = 0"
        "Suc z mod 400 = 0" z "z div 400"] le hund [of "Suc z"] four [of "Suc z"]
    by (simp only: days_before_year_def is_leap_def y Let_def d diff_Suc_1 simp_thms)
qed

lemma days_before_month_le:
  assumes "1 \<le> m" and "m < m'" and "m' \<le> 12"
  shows "days_before_month y m + days_in_month y m \<le> days_before_month y m'"
  using assms(2,3)
proof (induction m')
  case 0
  then show ?case by simp
next
  case (Suc n)
  show ?case
  proof (cases "m = n")
    case True
    then show ?thesis using days_before_month_Suc [of n y] assms(1) Suc.prems by simp
  next
    case False
    with Suc have "days_before_month y m + days_in_month y m \<le> days_before_month y n" by simp
    also have "\<dots> \<le> days_before_month y (Suc n)"
      using days_before_month_Suc [of n y] assms(1) Suc.prems False by simp
    finally show ?thesis .
  qed
qed

lemma day_of_year_le:
  assumes "1 \<le> m" and "m \<le> 12" and "d \<le> days_in_month y m"
  shows "days_before_month y m + d \<le> 365 + (if is_leap y then 1 else 0)"
proof (cases "m = 12")
  case True
  with assms(3) days_before_month_12 [of y] show ?thesis by simp
next
  case False
  with assms days_before_month_le [of m 12 y] days_before_month_12 [of y] show ?thesis by linarith
qed

lemma days_before_year_le:
  assumes "1 \<le> y" and "y < y'"
  shows "days_before_year y + 365 + (if is_leap y then 1 else 0) \<le> days_before_year y'"
  using assms(2)
proof (induction y')
  case 0
  then show ?case by simp
next
  case (Suc n)
  show ?case
  proof (cases "y = n")
    case True
    then show ?thesis using days_before_year_Suc [of n] assms(1) by simp
  next
    case False
    with Suc have "days_before_year y + 365 + (if is_leap y then 1 else 0) \<le> days_before_year n" by simp
    also have "\<dots> \<le> days_before_year (Suc n)"
      using days_before_year_Suc [of n] assms(1) Suc.prems by simp
    finally show ?thesis .
  qed
qed

lemma toordinal_less:
  assumes "valid_date a" and "valid_date b" and "a < b"
  shows "toordinal a < toordinal b"
proof -
  obtain y m d where a: "a = Date y m d" by (cases a)
  obtain y' m' d' where b: "b = Date y' m' d'" by (cases b)
  have m: "1 \<le> m" "m \<le> 12" "d \<le> days_in_month y m" "1 \<le> y"
    and m': "1 \<le> m'" "m' \<le> 12" "1 \<le> d'"
    using assms(1,2) a b by auto
  consider "y < y'" | "y = y'" "m < m'" | "y = y'" "m = m'" "d < d'"
    using assms(3) a b by auto
  then show ?thesis
  proof cases
    case 1
    with days_before_year_le [OF m(4) 1] day_of_year_le [OF m(1-3)] m' a b show ?thesis
      by simp
  next
    case 2
    with days_before_month_le [OF m(1) 2(2) m'(2), of y] m m' a b show ?thesis by simp
  next
    case 3
    with a b show ?thesis by simp
  qed
qed

lemma toordinal_le_iff:
  "valid_date a \<Longrightarrow> valid_date b \<Longrightarrow> toordinal a \<le> toordinal b \<longleftrightarrow> a \<le> b"
  by (metis le_less_linear less_le_not_le linorder_le_cases nat_less_le order_le_less toordinal_less)

lemma toordinal_inj:
  "valid_date a \<Longrightarrow> valid_date b \<Longrightarrow> toordinal a = toordinal b \<Longrightarrow> a = b"
  by (metis less_irrefl_nat neqE toordinal_less)

section \<open>The calendar has no gaps\<close>

fun next_date :: "date \<Rightarrow> date" where
  "next_date (Date y m d) =
     (if d < days_in_month y m then Date y m (Suc d)
      else if m < 12 then Date y (Suc m) 1
      else Date (Suc y) 1 1)"

lemma days_in_month_pos: "1 \<le> m \<Longrightarrow> m \<le> 12 \<Longrightarrow> 1 \<le> days_in_month y m"
  by (cases m rule: month_cases) (simp_all add: month_simps)

lemma next_date_ordinal:
  assumes "valid_date a"
  shows "toordinal (next_date a) = Suc (toordinal a)"
proof -
  obtain y m d where a: "a = Date y m d" by (cases a)
  have m: "1 \<le> m" "m \<le> 12" "d \<le> days_in_month y m" "1 \<le> y" using assms a by auto
  consider "d < days_in_month y m" | "d = days_in_month y m" "m < 12" | "d = days_in_month y m" "m = 12"
    using m by linarith
  then show ?thesis
  proof cases
    case 1
    with a show ?thesis by simp
  next
    case 2
    with a days_before_month_Suc [OF m(1) 2(2), of y] show ?thesis by simp
  next
    case 3
    with a days_before_year_Suc [OF m(4)] days_before_month_12 [of y] show ?thesis by simp
  qed
qed

lemma next_date_valid:
  assumes "valid_date a" and "valid_date b" and "a < b"
  shows "valid_date (next_date a)"
proof -
  obtain y m d where a: "a = Date y m d" by (cases a)
  obtain y' m' d' where b: "b = Date y' m' d'" by (cases b)
  have m: "1 \<le> m" "m \<le> 12" "1 \<le> d" "d \<le> days_in_month y m" "1 \<le> y" "y \<le> 9999"
    and m': "m' \<le> 12" "y' \<le> 9999" "d' \<le> days_in_month y' m'"
    using assms(1,2) a b by auto
  have y9999: "d < days_in_month y m \<or> m < 12 \<or> y < 9999"
    using assms(3) a b m m' by (cases "y = 9999") auto
  show ?thesis
    using a m y9999 days_in_month_pos [of "Suc m" y] days_in_month_pos [of 1 "Suc y"]
    by (auto simp: not_less)
qed

lemma ordinal_reached:
  assumes "valid_date s" and "valid_date e" and "toordinal s + n \<le> toordinal e"
  shows "\<exists>a. valid_date a \<and> toordinal a = toordinal s + n"
  using assms(3)
proof (induction n)
  case 0
  then show ?case using assms(1) by auto
next
  case (Suc n)
  then obtain a where a: "valid_date a" "toordinal a = toordinal s + n" by auto
  with Suc.prems assms(2) have "a < e"
    by (metis add_Suc_right less_eq_Suc_le not_less toordinal_le_iff)
  with a assms(2) have "valid_date (next_date a)" by (blast intro: next_date_valid)
  with next_date_ordinal [OF a(1)] a(2) show ?case by auto
qed

definition date_span :: "date \<Rightarrow> date \<Rightarrow> date set" where
  "date_span s e = {a. valid_date a \<and> s \<le> a \<and> a \<le> e}"

lemma date_span_bij:
  assumes "valid_date s" and "valid_date e"
  shows "bij_betw toordinal (date_span s e) {toordinal s..toordinal e}"
proof (rule bij_betwI')
  fix x y assume "x \<in> date_span s e" "y \<in> date_span s e"
  then show "(toordinal x = toordinal y) = (x = y)"
    by (auto simp: date_span_def dest: toordinal_inj)
next
  fix x assume "x \<in> date_span s e"
  then show "toordinal x \<in> {toordinal s..toordinal e}"
    using assms by (auto simp: date_span_def toordinal_le_iff)
next
  fix n assume "n \<in> {toordinal s..toordinal e}"
  then obtain a where "valid_date a" "toordinal a = n"
    using ordinal_reached [OF assms, of "n - toordinal s"] by auto
  with \<open>n \<in> _\<close> assms show "\<exists>x \<in> date_span s e. n = toordinal x"
    by (intro bexI [of _ a]) (auto simp: date_span_def toordinal_le_iff [symmetric])
qed

lemma card_date_span:
  assumes "valid_date s" and "valid_date e" and "s \<le> e"
  shows "int (card (date_span s e)) = days_between e s + 1"
proof -
  have "card (date_span s e) = card {toordinal s..toordinal e}"
    using date_span_bij [OF assms(1,2)] by (rule bij_betw_same_card)
  moreover have "toordinal s \<le> toordinal e"
    using assms by (simp add: toordinal_le_iff)
  ultimately show ?thesis by (simp add: days_between_def)
qed

lemma date_span_finite [simp]:
  "valid_date s \<Longrightarrow> valid_date e \<Longrightarrow> finite (date_span s e)"
  using bij_betw_finite [OF date_span_bij] by blast

text \<open>Two inclusive spans meet exactly when each starts no later than the other ends.\<close>

lemma date_spans_meet_iff:
  assumes "valid_date s" "valid_date e" "s \<le> e" "valid_date s'" "valid_date e'" "s' \<le> e'"
  shows "date_span s e \<inter> date_span s' e' \<noteq> {} \<longleftrightarrow> s' \<le> e \<and> s \<le> e'"
proof
  assume "date_span s e \<inter> date_span s' e' \<noteq> {}"
  then show "s' \<le> e \<and> s \<le> e'" by (auto simp: date_span_def)
next
  assume "s' \<le> e \<and> s \<le> e'"
  with assms have "max s s' \<in> date_span s e \<inter> date_span s' e'"
    by (auto simp: date_span_def max_def)
  then show "date_span s e \<inter> date_span s' e' \<noteq> {}" by blast
qed

end
