(* ===== verification/Seed_Config.thy ===== *)
theory Seed_Config
  imports Enums
begin

text \<open>
  The fixed identities of \<open>shared/seed_config.py\<close> and the org-chart lookups every service uses.
\<close>

record SeedUser =
  su_user_id :: string
  su_username :: string
  su_password :: string
  su_role :: Role
  su_manager_id :: "string option"

definition MANAGER1_ID :: string where
  "MANAGER1_ID = ''00000000-0000-0000-0000-000000000001''"

definition EMP1_ID :: string where
  "EMP1_ID = ''00000000-0000-0000-0000-000000000002''"

definition EMP2_ID :: string where
  "EMP2_ID = ''00000000-0000-0000-0000-000000000003''"

definition SEED_USERS :: "SeedUser list" where
  "SEED_USERS =
     [\<lparr>su_user_id = MANAGER1_ID, su_username = ''manager1'', su_password = ''Manager@123'',
       su_role = MANAGER, su_manager_id = None\<rparr>,
      \<lparr>su_user_id = EMP1_ID, su_username = ''emp1'', su_password = ''Employee@123'',
       su_role = EMPLOYEE, su_manager_id = Some MANAGER1_ID\<rparr>,
      \<lparr>su_user_id = EMP2_ID, su_username = ''emp2'', su_password = ''Employee@123'',
       su_role = EMPLOYEE, su_manager_id = Some MANAGER1_ID\<rparr>]"

definition get_seed_employees :: "SeedUser list" where
  "get_seed_employees = filter (\<lambda>u. su_role u = EMPLOYEE) SEED_USERS"

definition USERS_BY_ID :: "(string, SeedUser) dict" where
  "USERS_BY_ID = dict_merge [] (map (\<lambda>u. (su_user_id u, u)) SEED_USERS)"

definition get_user :: "string \<Rightarrow> SeedUser option" where
  "get_user user_id = dict_get USERS_BY_ID user_id"

definition get_manager_id :: "string \<Rightarrow> string option" where
  "get_manager_id employee_id =
     (case dict_get USERS_BY_ID employee_id of None \<Rightarrow> None | Some user \<Rightarrow> su_manager_id user)"

definition is_team_member :: "string \<Rightarrow> string \<Rightarrow> bool" where
  "is_team_member manager_id employee_id =
     (case dict_get USERS_BY_ID employee_id of
        None \<Rightarrow> False
      | Some user \<Rightarrow> su_manager_id user = Some manager_id)"

definition get_team_member_ids :: "string \<Rightarrow> string list" where
  "get_team_member_ids manager_id =
     map su_user_id (filter (\<lambda>u. su_manager_id u = Some manager_id) SEED_USERS)"

lemmas seed_ids = MANAGER1_ID_def EMP1_ID_def EMP2_ID_def

lemma seed_ids_distinct [simp]:
  "MANAGER1_ID \<noteq> EMP1_ID" "MANAGER1_ID \<noteq> EMP2_ID" "EMP1_ID \<noteq> EMP2_ID"
  "EMP1_ID \<noteq> MANAGER1_ID" "EMP2_ID \<noteq> MANAGER1_ID" "EMP2_ID \<noteq> EMP1_ID"
  by (simp_all add: seed_ids)

lemma seed_ids_nonempty [simp]: "MANAGER1_ID \<noteq> []" "EMP1_ID \<noteq> []" "EMP2_ID \<noteq> []"
  by (simp_all add: seed_ids)

text \<open>The index agrees with a linear search of the roster.\<close>

lemma get_user_eq_find: "get_user user_id = List.find (\<lambda>u. su_user_id u = user_id) SEED_USERS"
  by (auto simp: get_user_def USERS_BY_ID_def SEED_USERS_def)

lemma get_user_Some_iff: "get_user i = Some u \<longleftrightarrow> u \<in> set SEED_USERS \<and> su_user_id u = i"
  by (auto simp: get_user_eq_find SEED_USERS_def)

lemma get_manager_id_eq:
  "get_manager_id i = (if i = EMP1_ID \<or> i = EMP2_ID then Some MANAGER1_ID else None)"
  by (simp add: get_manager_id_def USERS_BY_ID_def SEED_USERS_def)

lemma is_team_member_iff: "is_team_member m e \<longleftrightarrow> get_manager_id e = Some m"
  by (auto simp: is_team_member_def get_manager_id_def split: option.splits)

lemma in_team_member_ids_iff: "e \<in> set (get_team_member_ids m) \<longleftrightarrow> is_team_member m e"
  by (auto simp: get_team_member_ids_def is_team_member_iff get_manager_id_eq SEED_USERS_def)

lemma get_manager_id_role: "get_manager_id e = Some m \<Longrightarrow> \<exists>u. get_user m = Some u \<and> su_role u = MANAGER"
  by (auto simp: get_manager_id_eq get_user_eq_find SEED_USERS_def split: if_splits)

lemma get_manager_id_not_self: "get_manager_id e \<noteq> Some e"
  by (auto simp: get_manager_id_eq)

end
