(* ===== verification/Leave_Request_Store.thy ===== *)
theory Leave_Request_Store
  imports Http Py_Date Seed_Config
begin

text \<open>
  The data of the Leave Request Service: the record (\<open>models.py\<close>), the store with its two
  secondary indexes (\<open>store.py\<close>) and the validations (\<open>validators.py\<close>). A secondary index keeps,
  per key, the ids of the records with that key in submission order; the locale
  \<open>secondary_index\<close> states how the store maintains it and proves once that a lookup through the
  index is a filter over the store.
\<close>

section \<open>The record\<close>

record LeaveRequest =
  lr_request_id :: string
  lr_employee_id :: string
  lr_leave_type :: LeaveType
  lr_start_date :: date
  lr_end_date :: date
  lr_number_of_days :: int
  lr_reason :: string
  lr_reporting_manager_id :: string
  lr_status :: LeaveStatus
  lr_rejection_reason :: "string option"
  lr_created_at :: datetime
  lr_updated_at :: datetime

section \<open>Store and indexes\<close>

record request_state =
  requests_store :: "(string, LeaveRequest) dict"
  employee_requests_index :: "(string, string list) dict"
  manager_requests_index :: "(string, string list) dict"

definition empty_requests :: request_state where
  "empty_requests =
     \<lparr>requests_store = [], employee_requests_index = [], manager_requests_index = []\<rparr>"

text \<open>\<open>index.setdefault(key, []).append(i)\<close>\<close>

definition index_append :: "('k, 'i list) dict \<Rightarrow> 'k \<Rightarrow> 'i \<Rightarrow> ('k, 'i list) dict" where
  "index_append idx k i = dict_put idx k (dict_get_or idx k [] @ [i])"

definition add_request :: "LeaveRequest \<Rightarrow> request_state \<Rightarrow> request_state" where
  "add_request r s =
     s\<lparr>requests_store := dict_put (requests_store s) (lr_request_id r) r,
       employee_requests_index :=
         index_append (employee_requests_index s) (lr_employee_id r) (lr_request_id r),
       manager_requests_index :=
         index_append (manager_requests_index s) (lr_reporting_manager_id r) (lr_request_id r)\<rparr>"

definition get_request :: "request_state \<Rightarrow> string \<Rightarrow> LeaveRequest option" where
  "get_request s request_id = dict_get (requests_store s) request_id"

text \<open>\<open>[requests_store[i] for i in ids]\<close>: a missing id is a \<open>KeyError\<close>.\<close>

fun lookup_all :: "(string, 'r) dict \<Rightarrow> string list \<Rightarrow> 'r list result" where
  "lookup_all store [] = Inr []"
| "lookup_all store (i # ids) =
     (case dict_get store i of
        None \<Rightarrow> Inl (KeyError i)
      | Some r \<Rightarrow> and_then (lookup_all store ids) (\<lambda>rs. Inr (r # rs)))"

definition get_requests_for_employee :: "request_state \<Rightarrow> string \<Rightarrow> LeaveRequest list result" where
  "get_requests_for_employee s employee_id =
     lookup_all (requests_store s) (dict_get_or (employee_requests_index s) employee_id [])"

definition get_requests_for_manager :: "request_state \<Rightarrow> string \<Rightarrow> LeaveRequest list result" where
  "get_requests_for_manager s manager_id =
     lookup_all (requests_store s) (dict_get_or (manager_requests_index s) manager_id [])"

text \<open>The stored object is mutated in place; the store holds every request under its own id.\<close>

definition replace_request :: "LeaveRequest \<Rightarrow> request_state \<Rightarrow> request_state" where
  "replace_request r s = s\<lparr>requests_store := dict_put (requests_store s) (lr_request_id r) r\<rparr>"

definition set_status ::
  "datetime \<Rightarrow> LeaveRequest \<Rightarrow> LeaveStatus \<Rightarrow> string option \<Rightarrow> request_state \<Rightarrow> request_state \<times> LeaveRequest" where
  "set_status now r new_status rejection_reason s =
     (let r' = r\<lparr>lr_status := new_status,
                 lr_rejection_reason := (if new_status = REJECTED then rejection_reason else None),
                 lr_updated_at := now\<rparr>
      in (replace_request r' s, r'))"

section \<open>Secondary indexes\<close>

definition keyed_by :: "('r \<Rightarrow> 'i) \<Rightarrow> ('i, 'r) dict \<Rightarrow> bool" where
  "keyed_by ident store \<longleftrightarrow> wf_dict store \<and> (\<forall>i r. dict_get store i = Some r \<longrightarrow> ident r = i)"

definition index_agrees ::
  "('r \<Rightarrow> 'k) \<Rightarrow> ('r \<Rightarrow> 'i) \<Rightarrow> ('i, 'r) dict \<Rightarrow> ('k, 'i list) dict \<Rightarrow> bool" where
  "index_agrees key ident store idx \<longleftrightarrow>
     (\<forall>k. dict_get_or idx k [] = map ident (filter (\<lambda>r. key r = k) (dict_values store)))"

lemma keyed_by_put [wf_intros]:
  "keyed_by ident store \<Longrightarrow> keyed_by ident (dict_put store (ident r) r)"
  by (auto simp: keyed_by_def)

locale secondary_index =
  fixes key :: "'r \<Rightarrow> 'k"
    and ident :: "'r \<Rightarrow> string"
    and store :: "'s \<Rightarrow> (string, 'r) dict"
    and idx :: "'s \<Rightarrow> ('k, string list) dict"
    and insert :: "'r \<Rightarrow> 's \<Rightarrow> 's"
    and replace :: "'r \<Rightarrow> 's \<Rightarrow> 's"
  assumes insert_store: "store (insert r s) = dict_put (store s) (ident r) r"
    and insert_idx: "idx (insert r s) = index_append (idx s) (key r) (ident r)"
    and replace_store: "store (replace r s) = dict_put (store s) (ident r) r"
    and replace_idx: "idx (replace r s) = idx s"
begin

lemma agrees_insert:
  assumes "index_agrees key ident (store s) (idx s)" and "dict_get (store s) (ident r) = None"
  shows "index_agrees key ident (store (insert r s)) (idx (insert r s))"
  using assms
  by (simp add: index_agrees_def insert_store insert_idx index_append_def dict_values_put_new)

lemma agrees_replace:
  assumes "keyed_by ident (store s)" and "index_agrees key ident (store s) (idx s)"
    and "dict_get (store s) (ident r) = Some old" and "key r = key old"
  shows "index_agrees key ident (store (replace r s)) (idx (replace r s))"
proof -
  have "ident r = ident old" using assms(1,3) by (auto simp: keyed_by_def)
  then have "map ident (filter (\<lambda>r. key r = k) (dict_values (dict_put (store s) (ident r) r))) =
      map ident (filter (\<lambda>r. key r = k) (dict_values (store s)))" for k
    using assms(1,4) filter_map_dict_values_put [OF _ assms(3), of "\<lambda>r. key r = k" r ident]
    by (simp add: keyed_by_def)
  with assms(2) show ?thesis
    by (simp add: index_agrees_def replace_store replace_idx)
qed

lemma lookup_all_present:
  assumes "keyed_by ident (store s)" and "set rs \<subseteq> set (dict_values (store s))"
  shows "lookup_all (store s) (map ident rs) = Inr rs"
  using assms(2)
proof (induction rs)
  case (Cons r rs)
  then obtain i where "dict_get (store s) i = Some r"
    using assms(1) by (auto simp: keyed_by_def in_dict_values_iff)
  with assms(1) have "dict_get (store s) (ident r) = Some r" by (auto simp: keyed_by_def)
  with Cons show ?case by simp
qed simp

lemma lookup_is_filter:
  assumes "keyed_by ident (store s)" and "index_agrees key ident (store s) (idx s)"
  shows "lookup_all (store s) (dict_get_or (idx s) k []) =
    Inr (filter (\<lambda>r. key r = k) (dict_values (store s)))"
proof -
  have "dict_get_or (idx s) k [] = map ident (filter (\<lambda>r. key r = k) (dict_values (store s)))"
    using assms(2) by (simp add: index_agrees_def)
  then show ?thesis using lookup_all_present [OF assms(1)] by simp
qed

end

interpretation employee_index: secondary_index lr_employee_id lr_request_id requests_store
  employee_requests_index add_request replace_request
  by unfold_locales (simp_all add: add_request_def replace_request_def)

interpretation manager_index: secondary_index lr_reporting_manager_id lr_request_id requests_store
  manager_requests_index add_request replace_request
  by unfold_locales (simp_all add: add_request_def replace_request_def)

section \<open>Validations\<close>

definition ACTIVE_STATUSES :: "LeaveStatus list" where
  "ACTIVE_STATUSES = [PENDING, APPROVED]"

definition validate_dates :: "date \<Rightarrow> date \<Rightarrow> date \<Rightarrow> int \<Rightarrow> unit result" where
  "validate_dates today start_date end_date number_of_days =
     (if start_date > end_date
      then Inl (HTTPException 400 (Msg ''start_date must not be after end_date''))
      else if start_date < today
      then Inl (HTTPException 400 (Msg ''start_date must not be in the past''))
      else let inclusive_days = days_between end_date start_date + 1
        in if number_of_days \<noteq> inclusive_days
           then Inl (HTTPException 400 (Msg (''number_of_days ('' @ str_of_int number_of_days
                  @ '') does not match the inclusive date range ('' @ str_of_int inclusive_days
                  @ '' day(s))'')))
           else Inr ())"

fun check_overlap_loop :: "date \<Rightarrow> date \<Rightarrow> LeaveRequest list \<Rightarrow> unit result" where
  "check_overlap_loop start_date end_date [] = Inr ()"
| "check_overlap_loop start_date end_date (existing # rest) =
     (if lr_status existing \<notin> set ACTIVE_STATUSES then check_overlap_loop start_date end_date rest
      else if lr_start_date existing \<le> end_date \<and> start_date \<le> lr_end_date existing
      then Inl (HTTPException 409 (Msg (''A '' @ LeaveStatus_value (lr_status existing)
             @ '' leave request already exists for dates '' @ isoformat (lr_start_date existing)
             @ '' to '' @ isoformat (lr_end_date existing))))
      else check_overlap_loop start_date end_date rest)"

definition check_overlap :: "request_state \<Rightarrow> string \<Rightarrow> date \<Rightarrow> date \<Rightarrow> unit result" where
  "check_overlap s employee_id start_date end_date =
     and_then (get_requests_for_employee s employee_id) (check_overlap_loop start_date end_date)"

section \<open>Invariant\<close>

definition active :: "LeaveRequest \<Rightarrow> bool" where
  "active r \<longleftrightarrow> lr_status r = PENDING \<or> lr_status r = APPROVED"

definition request_span :: "LeaveRequest \<Rightarrow> date set" where
  "request_span r = date_span (lr_start_date r) (lr_end_date r)"

text \<open>What every stored request satisfies by itself.\<close>

definition request_ok :: "LeaveRequest \<Rightarrow> bool" where
  "request_ok r \<longleftrightarrow>
     valid_date (lr_start_date r) \<and> valid_date (lr_end_date r) \<and> lr_start_date r \<le> lr_end_date r
     \<and> lr_number_of_days r = days_between (lr_end_date r) (lr_start_date r) + 1
     \<and> get_manager_id (lr_employee_id r) = Some (lr_reporting_manager_id r)
     \<and> (case lr_rejection_reason r of
          None \<Rightarrow> lr_status r \<noteq> REJECTED
        | Some why \<Rightarrow> lr_status r = REJECTED \<and> str_strip why \<noteq> [])"

definition wf_requests :: "request_state \<Rightarrow> bool" where
  "wf_requests s \<longleftrightarrow>
     keyed_by lr_request_id (requests_store s)
     \<and> index_agrees lr_employee_id lr_request_id (requests_store s) (employee_requests_index s)
     \<and> index_agrees lr_reporting_manager_id lr_request_id (requests_store s) (manager_requests_index s)
     \<and> (\<forall>i r. get_request s i = Some r \<longrightarrow> request_ok r)"

lemma wf_requestsD:
  assumes "wf_requests s"
  shows "wf_dict (requests_store s)" and "keyed_by lr_request_id (requests_store s)"
    and "\<And>i r. get_request s i = Some r \<Longrightarrow> lr_request_id r = i"
    and "\<And>i r. get_request s i = Some r \<Longrightarrow> request_ok r"
  using assms by (auto simp: wf_requests_def keyed_by_def get_request_def)

lemma wf_empty_requests [simp, wf_intros]: "wf_requests empty_requests"
  by (simp add: wf_requests_def empty_requests_def keyed_by_def index_agrees_def get_request_def
      dict_get_or_def)

lemma get_request_add [simp]:
  "get_request (add_request r s) i = (if i = lr_request_id r then Some r else get_request s i)"
  by (simp add: get_request_def add_request_def)

lemma get_request_replace [simp]:
  "get_request (replace_request r s) i = (if i = lr_request_id r then Some r else get_request s i)"
  by (simp add: get_request_def replace_request_def)

lemma add_request_wf [wf_intros]:
  assumes "wf_requests s" and "get_request s (lr_request_id r) = None" and "request_ok r"
  shows "wf_requests (add_request r s)"
  using assms employee_index.agrees_insert [of s r] manager_index.agrees_insert [of s r]
    keyed_by_put [of lr_request_id "requests_store s" r]
  unfolding wf_requests_def by (simp add: get_request_def add_request_def)

lemma replace_request_wf [wf_intros]:
  assumes "wf_requests s" and "get_request s (lr_request_id r) = Some old" and "request_ok r"
    and "lr_employee_id r = lr_employee_id old"
    and "lr_reporting_manager_id r = lr_reporting_manager_id old"
  shows "wf_requests (replace_request r s)"
  using assms employee_index.agrees_replace [of s r old] manager_index.agrees_replace [of s r old]
    keyed_by_put [of lr_request_id "requests_store s" r]
  unfolding wf_requests_def by (simp add: get_request_def replace_request_def)

lemma requests_for_employee:
  "wf_requests s \<Longrightarrow> get_requests_for_employee s e =
     Inr (filter (\<lambda>r. lr_employee_id r = e) (dict_values (requests_store s)))"
  unfolding get_requests_for_employee_def wf_requests_def
  by (intro employee_index.lookup_is_filter) auto

lemma requests_for_manager:
  "wf_requests s \<Longrightarrow> get_requests_for_manager s m =
     Inr (filter (\<lambda>r. lr_reporting_manager_id r = m) (dict_values (requests_store s)))"
  unfolding get_requests_for_manager_def wf_requests_def
  by (intro manager_index.lookup_is_filter) auto

lemma in_requests_iff:
  "wf_requests s \<Longrightarrow> r \<in> set (dict_values (requests_store s)) \<longleftrightarrow> get_request s (lr_request_id r) = Some r"
  using wf_requestsD(3) [of s] by (auto simp: in_dict_values_iff wf_requestsD(1) get_request_def)

lemma all_requests_iff:
  assumes "wf_requests s"
  shows "(\<forall>r \<in> set (dict_values (requests_store s)). Q r) \<longleftrightarrow> (\<forall>i r. get_request s i = Some r \<longrightarrow> Q r)"
  using wf_requestsD(1) [OF assms] by (auto simp: in_dict_values_iff get_request_def)

section \<open>What the validations decide\<close>

lemma validate_dates_ok_iff:
  "validate_dates today sd ed n = Inr u \<longleftrightarrow> sd \<le> ed \<and> today \<le> sd \<and> n = days_between ed sd + 1"
  by (auto simp: validate_dates_def Let_def)

lemma validate_dates_error: "validate_dates today sd ed n = Inl e \<Longrightarrow> \<exists>m. e = HTTPException 400 (Msg m)"
  by (auto simp: validate_dates_def Let_def split: if_splits)

lemma active_iff: "lr_status r \<in> set ACTIVE_STATUSES \<longleftrightarrow> active r"
  by (auto simp: ACTIVE_STATUSES_def active_def)

lemma check_overlap_loop_ok_iff:
  "check_overlap_loop sd ed rs = Inr u \<longleftrightarrow>
     (\<forall>r \<in> set rs. \<not> (active r \<and> lr_start_date r \<le> ed \<and> sd \<le> lr_end_date r))"
  by (induction rs) (auto simp: active_iff)

lemma check_overlap_loop_error:
  "check_overlap_loop sd ed rs = Inl e \<Longrightarrow> \<exists>m. e = HTTPException 409 (Msg m)"
  by (induction rs) (auto split: if_splits)

text \<open>The overlap test is disjointness of calendar days.\<close>

lemma check_overlap_ok_iff:
  assumes "wf_requests s" and "valid_date sd" "valid_date ed" "sd \<le> ed"
  shows "check_overlap s e sd ed = Inr u \<longleftrightarrow>
    (\<forall>i r. get_request s i = Some r \<and> lr_employee_id r = e \<and> active r \<longrightarrow>
       request_span r \<inter> date_span sd ed = {})"
proof -
  have meet: "request_span r \<inter> date_span sd ed \<noteq> {} \<longleftrightarrow> lr_start_date r \<le> ed \<and> sd \<le> lr_end_date r"
    if "get_request s i = Some r" for i r
    using wf_requestsD(4) [OF assms(1) that] assms(2-4) date_spans_meet_iff
    unfolding request_ok_def request_span_def by blast
  have "check_overlap s e sd ed = Inr u \<longleftrightarrow>
      (\<forall>r \<in> set (dict_values (requests_store s)). lr_employee_id r = e \<longrightarrow>
        \<not> (active r \<and> lr_start_date r \<le> ed \<and> sd \<le> lr_end_date r))"
    by (simp add: check_overlap_def requests_for_employee [OF assms(1)] check_overlap_loop_ok_iff) blast
  also have "\<dots> \<longleftrightarrow> (\<forall>i r. get_request s i = Some r \<and> lr_employee_id r = e \<and> active r \<longrightarrow>
       request_span r \<inter> date_span sd ed = {})"
    unfolding all_requests_iff [OF assms(1)] using meet by blast
  finally show ?thesis .
qed

end
