(* ===== verification/Auth_Context.thy ===== *)
theory Auth_Context
  imports Enums
begin

text \<open>
  \<open>shared/auth_context.py\<close>: the caller identity a service reads from the \<open>X-User-Id\<close> and
  \<open>X-User-Role\<close> headers, and the manager guard.
\<close>

record CallerIdentity =
  ci_user_id :: string
  ci_role :: Role

text \<open>\<open>not x\<close> for an optional string: absent or empty.\<close>

definition str_falsy :: "string option \<Rightarrow> bool" where
  "str_falsy x \<longleftrightarrow> x = None \<or> x = Some []"

definition get_caller :: "string option \<Rightarrow> string option \<Rightarrow> CallerIdentity result" where
  "get_caller x_user_id x_user_role =
     (if str_falsy x_user_id \<or> str_falsy x_user_role
      then Inl (HTTPException 401 (Msg ''Missing authenticated user context''))
      else case Role_of (the x_user_role) of
        None \<Rightarrow> Inl (HTTPException 401 (Msg ''Invalid user role in request context''))
      | Some role \<Rightarrow> Inr \<lparr>ci_user_id = the x_user_id, ci_role = role\<rparr>)"

definition require_manager :: "CallerIdentity result \<Rightarrow> CallerIdentity result" where
  "require_manager dep =
     and_then dep (\<lambda>caller.
       if ci_role caller \<noteq> MANAGER
       then Inl (HTTPException 403 (Msg ''This action requires a manager role''))
       else Inr caller)"

lemma get_caller_ok_iff:
  "get_caller uid role = Inr c \<longleftrightarrow>
     uid = Some (ci_user_id c) \<and> ci_user_id c \<noteq> [] \<and> role = Some (Role_value (ci_role c))"
  by (cases c) (auto simp: get_caller_def str_falsy_def Role_of_Some_iff split: option.splits)

lemma get_caller_error: "get_caller uid role = Inl e \<Longrightarrow> \<exists>d. e = HTTPException 401 d"
  by (auto simp: get_caller_def split: if_splits option.splits)

lemma require_manager_manager [simp]: "ci_role c = MANAGER \<Longrightarrow> require_manager (Inr c) = Inr c"
  by (simp add: require_manager_def)

lemma require_manager_ok_iff: "require_manager dep = Inr c \<longleftrightarrow> dep = Inr c \<and> ci_role c = MANAGER"
  by (auto simp: require_manager_def and_then_Inr_iff)

end
