(* ===== verification/Leave_Balance.thy ===== *)
theory Leave_Balance
  imports Http Seed_Config Auth_Context Py_Text
begin

text \<open>
  The Leave Balance Service (\<open>leave_balance_service/\<close>): the record, the store with its
  (employee, leave type) index, the seed loader, the request and response schemas and the route
  handlers, with the invariant of the store and the contract the Manager Service relies on.
\<close>

section \<open>Model and store\<close>

record LeaveBalance =
  lb_balance_id :: string
  lb_employee_id :: string
  lb_leave_type :: LeaveType
  lb_total_allocated :: int
  lb_used :: int

definition lb_remaining :: "LeaveBalance \<Rightarrow> int" where
  "lb_remaining b = lb_total_allocated b - lb_used b"

record balance_state =
  balances_store :: "(string, LeaveBalance) dict"
  employee_leavetype_index :: "(string \<times> LeaveType, string) dict"

definition empty_balances :: balance_state where
  "empty_balances = \<lparr>balances_store = [], employee_leavetype_index = []\<rparr>"

definition add_balance :: "LeaveBalance \<Rightarrow> balance_state \<Rightarrow> balance_state result" where
  "add_balance balance s =
     (let key = (lb_employee_id balance, lb_leave_type balance)
      in if dict_has (employee_leavetype_index s) key
         then Inl (ValueError (''Balance for employee '' @ lb_employee_id balance
                @ '' and leave type '' @ LeaveType_value (lb_leave_type balance) @ '' already exists''))
         else Inr (s\<lparr>balances_store := dict_put (balances_store s) (lb_balance_id balance) balance,
                     employee_leavetype_index :=
                       dict_put (employee_leavetype_index s) key (lb_balance_id balance)\<rparr>))"

definition get_balance :: "balance_state \<Rightarrow> string \<Rightarrow> LeaveType \<Rightarrow> LeaveBalance option" where
  "get_balance s employee_id leave_type =
     (case dict_get (employee_leavetype_index s) (employee_id, leave_type) of
        None \<Rightarrow> None
      | Some balance_id \<Rightarrow> dict_get (balances_store s) balance_id)"

definition get_balances_for_employee :: "balance_state \<Rightarrow> string \<Rightarrow> LeaveBalance list" where
  "get_balances_for_employee s employee_id =
     filter (\<lambda>b. lb_employee_id b = employee_id) (dict_values (balances_store s))"

text \<open>
  \<open>balance.used += days\<close> mutates the stored object; the store holds every record under its own
  \<open>balance_id\<close>, so the mutation is an update at that key.
\<close>

definition apply_deduction ::
  "string \<Rightarrow> LeaveType \<Rightarrow> int \<Rightarrow> balance_state \<Rightarrow> balance_state \<times> LeaveBalance result" where
  "apply_deduction employee_id leave_type days s =
     (case get_balance s employee_id leave_type of
        None \<Rightarrow> (s, Inl (LookupError (''No '' @ LeaveType_value leave_type
                   @ '' balance for employee '' @ employee_id)))
      | Some balance \<Rightarrow>
          if days \<le> 0 then (s, Inl (ValueError ''Deduction must be a positive number of days''))
          else if days > lb_remaining balance then
            (s, Inl (ValueError (''Insufficient '' @ LeaveType_value leave_type @ '' balance: requested ''
               @ str_of_int days @ '', remaining '' @ str_of_int (lb_remaining balance))))
          else (let balance' = balance\<lparr>lb_used := lb_used balance + days\<rparr>
                in (s\<lparr>balances_store := dict_put (balances_store s) (lb_balance_id balance) balance'\<rparr>,
                    Inr balance')))"

section \<open>Seed loader\<close>

text \<open>The n-th \<open>uuid4\<close> the process draws is \<open>uuids n\<close>.\<close>

definition init_balances_for_employee :: "(nat \<Rightarrow> string) \<Rightarrow> nat \<Rightarrow> string \<Rightarrow> LeaveBalance list" where
  "init_balances_for_employee uuids n employee_id =
     map (\<lambda>(i, leave_type, allocation).
            \<lparr>lb_balance_id = uuids (n + i), lb_employee_id = employee_id, lb_leave_type = leave_type,
             lb_total_allocated = allocation, lb_used = 0\<rparr>)
       (List.enumerate 0 DEFAULT_LEAVE_ALLOCATIONS)"

fun add_balances :: "LeaveBalance list \<Rightarrow> balance_state \<Rightarrow> balance_state result" where
  "add_balances [] s = Inr s"
| "add_balances (b # bs) s = and_then (add_balance b s) (add_balances bs)"

definition seed_balances :: "(nat \<Rightarrow> string) \<Rightarrow> balance_state \<Rightarrow> balance_state result" where
  "seed_balances uuids s =
     (if balances_store s \<noteq> [] then Inr s
      else add_balances
        (concat (map (\<lambda>(j, employee). init_balances_for_employee uuids (3 * j) (su_user_id employee))
           (List.enumerate 0 get_seed_employees))) s)"

section \<open>Schemas and routes\<close>

record BalanceItem =
  bi_leave_type :: LeaveType
  bi_total_allocated :: int
  bi_used :: int
  bi_remaining :: int

definition BalanceItem_from_model :: "LeaveBalance \<Rightarrow> BalanceItem" where
  "BalanceItem_from_model b =
     \<lparr>bi_leave_type = lb_leave_type b, bi_total_allocated = lb_total_allocated b,
      bi_used = lb_used b, bi_remaining = lb_remaining b\<rparr>"

record EmployeeBalancesResponse =
  eb_employee_id :: string
  eb_balances :: "BalanceItem list"

record DeductRequest =
  dr_employee_id :: string
  dr_leave_type :: LeaveType
  dr_days :: int

text \<open>The declared field constraints: \<open>employee_id\<close> has \<open>min_length=1\<close>, \<open>days\<close> has \<open>gt=0\<close>.\<close>

definition valid_DeductRequest :: "DeductRequest \<Rightarrow> bool" where
  "valid_DeductRequest p \<longleftrightarrow> 1 \<le> length (dr_employee_id p) \<and> 0 < dr_days p"

record DeductResponse =
  dp_employee_id :: string
  dp_leave_type :: LeaveType
  dp_total_allocated :: int
  dp_used :: int
  dp_remaining :: int

definition balances_response :: "balance_state \<Rightarrow> string \<Rightarrow> EmployeeBalancesResponse" where
  "balances_response s employee_id =
     \<lparr>eb_employee_id = employee_id,
      eb_balances = map BalanceItem_from_model (get_balances_for_employee s employee_id)\<rparr>"

definition my_balances :: "balance_state \<Rightarrow> CallerIdentity \<Rightarrow> EmployeeBalancesResponse result" where
  "my_balances s caller = Inr (balances_response s (ci_user_id caller))"

definition employee_balances ::
  "balance_state \<Rightarrow> string \<Rightarrow> CallerIdentity \<Rightarrow> EmployeeBalancesResponse result" where
  "employee_balances s employee_id caller =
     (if ci_user_id caller \<noteq> employee_id
         \<and> \<not> (ci_role caller = MANAGER \<and> is_team_member (ci_user_id caller) employee_id)
      then Inl (HTTPException 403 (Msg ''Not authorized to view this employee's balances''))
      else Inr (balances_response s employee_id))"

definition deduct_balance :: "DeductRequest \<Rightarrow> balance_state \<Rightarrow> balance_state \<times> DeductResponse result" where
  "deduct_balance payload s =
     (case apply_deduction (dr_employee_id payload) (dr_leave_type payload) (dr_days payload) s of
        (s', Inl (LookupError m)) \<Rightarrow> (s', Inl (HTTPException 404 (Msg m)))
      | (s', Inl (ValueError m)) \<Rightarrow> (s', Inl (HTTPException 409 (Msg m)))
      | (s', Inl e) \<Rightarrow> (s', Inl e)
      | (s', Inr balance) \<Rightarrow>
          (s', Inr \<lparr>dp_employee_id = lb_employee_id balance, dp_leave_type = lb_leave_type balance,
                    dp_total_allocated = lb_total_allocated balance, dp_used = lb_used balance,
                    dp_remaining = lb_remaining balance\<rparr>))"

text \<open>The routes as the framework runs them: the declared checks first, then the handler.\<close>

definition deduct_endpoint ::
  "DeductRequest \<Rightarrow> balance_state \<Rightarrow> balance_state \<times> DeductResponse http_response" where
  "deduct_endpoint payload s =
     (if \<not> valid_DeductRequest payload then (s, Error_response 422 ValidationErrors)
      else (case deduct_balance payload s of (s', r) \<Rightarrow> (s', respond 200 r)))"

definition employee_balances_endpoint ::
  "balance_state \<Rightarrow> string \<Rightarrow> string option \<Rightarrow> string option \<Rightarrow> EmployeeBalancesResponse http_response" where
  "employee_balances_endpoint s employee_id x_user_id x_user_role =
     respond 200 (and_then (get_caller x_user_id x_user_role) (employee_balances s employee_id))"

definition my_balances_endpoint ::
  "balance_state \<Rightarrow> string option \<Rightarrow> string option \<Rightarrow> EmployeeBalancesResponse http_response" where
  "my_balances_endpoint s x_user_id x_user_role =
     respond 200 (and_then (get_caller x_user_id x_user_role) (my_balances s))"

text \<open>A sequence of deduction requests, each answered before the next.\<close>

fun run_deductions ::
  "DeductRequest list \<Rightarrow> balance_state \<Rightarrow> balance_state \<times> DeductResponse http_response list" where
  "run_deductions [] s = (s, [])"
| "run_deductions (p # ps) s =
     (case deduct_endpoint p s of
        (s', r) \<Rightarrow> (case run_deductions ps s' of (s'', rs) \<Rightarrow> (s'', r # rs)))"

section \<open>Invariant\<close>

definition wf_balances :: "balance_state \<Rightarrow> bool" where
  "wf_balances s \<longleftrightarrow>
     wf_dict (balances_store s) \<and> wf_dict (employee_leavetype_index s)
     \<and> (\<forall>bid b. dict_get (balances_store s) bid = Some b \<longrightarrow>
          lb_balance_id b = bid \<and> 0 \<le> lb_used b \<and> lb_used b \<le> lb_total_allocated b
          \<and> dict_get (employee_leavetype_index s) (lb_employee_id b, lb_leave_type b) = Some bid)
     \<and> (\<forall>e t bid. dict_get (employee_leavetype_index s) (e, t) = Some bid \<longrightarrow>
          (\<exists>b. dict_get (balances_store s) bid = Some b \<and> lb_employee_id b = e \<and> lb_leave_type b = t))"

text \<open>Days used and days allocated of an (employee, leave type) key; 0 without a record.\<close>

definition used_days :: "balance_state \<Rightarrow> string \<times> LeaveType \<Rightarrow> int" where
  "used_days s k = (case get_balance s (fst k) (snd k) of None \<Rightarrow> 0 | Some b \<Rightarrow> lb_used b)"

definition allocated_days :: "balance_state \<Rightarrow> string \<times> LeaveType \<Rightarrow> int" where
  "allocated_days s k = (case get_balance s (fst k) (snd k) of None \<Rightarrow> 0 | Some b \<Rightarrow> lb_total_allocated b)"

lemma wf_balancesI:
  assumes "wf_dict (balances_store s)" and "wf_dict (employee_leavetype_index s)"
    and "\<And>bid b. dict_get (balances_store s) bid = Some b \<Longrightarrow>
      lb_balance_id b = bid \<and> 0 \<le> lb_used b \<and> lb_used b \<le> lb_total_allocated b
      \<and> dict_get (employee_leavetype_index s) (lb_employee_id b, lb_leave_type b) = Some bid"
    and "\<And>e t bid. dict_get (employee_leavetype_index s) (e, t) = Some bid \<Longrightarrow>
      \<exists>b. dict_get (balances_store s) bid = Some b \<and> lb_employee_id b = e \<and> lb_leave_type b = t"
  shows "wf_balances s"
  using assms by (simp add: wf_balances_def)

lemma wf_balancesD:
  assumes "wf_balances s"
  shows "wf_dict (balances_store s)" and "wf_dict (employee_leavetype_index s)"
    and "\<And>bid b. dict_get (balances_store s) bid = Some b \<Longrightarrow>
      lb_balance_id b = bid \<and> 0 \<le> lb_used b \<and> lb_used b \<le> lb_total_allocated b
      \<and> dict_get (employee_leavetype_index s) (lb_employee_id b, lb_leave_type b) = Some bid"
    and "\<And>e t bid. dict_get (employee_leavetype_index s) (e, t) = Some bid \<Longrightarrow>
      \<exists>b. dict_get (balances_store s) bid = Some b \<and> lb_employee_id b = e \<and> lb_leave_type b = t"
  using assms by (simp_all add: wf_balances_def)

lemma wf_empty_balances [simp, wf_intros]: "wf_balances empty_balances"
  by (simp add: wf_balances_def empty_balances_def)

lemma get_balance_empty [simp]: "get_balance empty_balances e t = None"
  by (simp add: get_balance_def empty_balances_def)

lemma get_balance_facts:
  assumes "wf_balances s" and "get_balance s e t = Some b"
  shows "dict_get (balances_store s) (lb_balance_id b) = Some b"
    and "lb_employee_id b = e" and "lb_leave_type b = t"
    and "0 \<le> lb_used b" and "lb_used b \<le> lb_total_allocated b"
    and "dict_get (employee_leavetype_index s) (e, t) = Some (lb_balance_id b)"
  using assms unfolding wf_balances_def get_balance_def
  by (fastforce split: option.splits)+

lemma get_balance_store:
  assumes "wf_balances s" and "dict_get (balances_store s) bid = Some b"
  shows "get_balance s (lb_employee_id b) (lb_leave_type b) = Some b"
  using assms unfolding wf_balances_def get_balance_def by auto

lemma add_balance_ok_iff:
  "add_balance b s = Inr s' \<longleftrightarrow>
     dict_get (employee_leavetype_index s) (lb_employee_id b, lb_leave_type b) = None
     \<and> s' = s\<lparr>balances_store := dict_put (balances_store s) (lb_balance_id b) b,
              employee_leavetype_index := dict_put (employee_leavetype_index s)
                (lb_employee_id b, lb_leave_type b) (lb_balance_id b)\<rparr>"
  by (auto simp: add_balance_def Let_def dict_has_def)

lemma add_balance_wf [wf_intros]:
  assumes wf: "wf_balances s" and add: "add_balance b s = Inr s'"
    and new: "dict_get (balances_store s) (lb_balance_id b) = None"
    and ok: "0 \<le> lb_used b" "lb_used b \<le> lb_total_allocated b"
  shows "wf_balances s'"
proof -
  note wf = wf_balancesD [OF wf]
  from add have key: "dict_get (employee_leavetype_index s) (lb_employee_id b, lb_leave_type b) = None"
    and s': "balances_store s' = dict_put (balances_store s) (lb_balance_id b) b"
      "employee_leavetype_index s' =
        dict_put (employee_leavetype_index s) (lb_employee_id b, lb_leave_type b) (lb_balance_id b)"
    by (auto simp: add_balance_ok_iff)
  show ?thesis
  proof (rule wf_balancesI)
    fix bid b' assume b': "dict_get (balances_store s') bid = Some b'"
    show "lb_balance_id b' = bid \<and> 0 \<le> lb_used b' \<and> lb_used b' \<le> lb_total_allocated b'
      \<and> dict_get (employee_leavetype_index s') (lb_employee_id b', lb_leave_type b') = Some bid"
    proof (cases "bid = lb_balance_id b")
      case True
      with b' s' ok show ?thesis by simp
    next
      case False
      with b' s' have "dict_get (balances_store s) bid = Some b'" by simp
      from wf(3) [OF this] key s' show ?thesis by auto
    qed
  next
    fix e t bid assume i: "dict_get (employee_leavetype_index s') (e, t) = Some bid"
    show "\<exists>b'. dict_get (balances_store s') bid = Some b' \<and> lb_employee_id b' = e \<and> lb_leave_type b' = t"
    proof (cases "(e, t) = (lb_employee_id b, lb_leave_type b)")
      case True
      with i s' show ?thesis by auto
    next
      case False
      with i s' have "dict_get (employee_leavetype_index s) (e, t) = Some bid" by auto
      from wf(4) [OF this] new s' show ?thesis by auto
    qed
  qed (use wf s' in simp_all)
qed

lemma add_balance_get:
  assumes wf: "wf_balances s" and add: "add_balance b s = Inr s'"
    and new: "dict_get (balances_store s) (lb_balance_id b) = None"
  shows "get_balance s' e t =
    (if e = lb_employee_id b \<and> t = lb_leave_type b then Some b else get_balance s e t)"
proof -
  have "bid \<noteq> lb_balance_id b" if "dict_get (employee_leavetype_index s) (e, t) = Some bid" for bid
    using wf_balancesD(4) [OF wf that] new by auto
  with add show ?thesis
    by (auto simp: add_balance_ok_iff get_balance_def split: option.splits)
qed

text \<open>Reading by employee is reading by the index, over the three leave types.\<close>

lemma in_get_balances_iff:
  assumes "wf_balances s"
  shows "b \<in> set (get_balances_for_employee s e) \<longleftrightarrow> (\<exists>t. get_balance s e t = Some b)"
proof
  assume "b \<in> set (get_balances_for_employee s e)"
  then obtain bid where "dict_get (balances_store s) bid = Some b" "lb_employee_id b = e"
    using assms by (auto simp: get_balances_for_employee_def in_dict_values_iff wf_balances_def)
  then show "\<exists>t. get_balance s e t = Some b" using get_balance_store [OF assms] by blast
next
  assume "\<exists>t. get_balance s e t = Some b"
  then show "b \<in> set (get_balances_for_employee s e)"
    using get_balance_facts [OF assms] assms
    by (auto simp: get_balances_for_employee_def in_dict_values_iff wf_balances_def)
qed

section \<open>Deduction\<close>

lemma apply_deduction_error:
  "apply_deduction e t d s = (s', Inl x) \<Longrightarrow> s' = s"
  by (auto simp: apply_deduction_def Let_def split: option.splits if_splits)

lemma apply_deduction_ok_iff:
  "apply_deduction e t d s = (s', Inr r) \<longleftrightarrow>
     (\<exists>b. get_balance s e t = Some b \<and> 0 < d \<and> d \<le> lb_remaining b
        \<and> r = b\<lparr>lb_used := lb_used b + d\<rparr>
        \<and> s' = s\<lparr>balances_store := dict_put (balances_store s) (lb_balance_id b) r\<rparr>)"
  by (auto simp: apply_deduction_def Let_def split: option.splits)

lemma apply_deduction_wf:
  assumes "wf_balances s"
  shows "wf_balances (fst (apply_deduction e t d s))"
proof (cases "snd (apply_deduction e t d s)")
  case (Inl x)
  then show ?thesis
    using assms apply_deduction_error [of e t d s] by (metis prod.collapse)
next
  case (Inr r)
  then obtain b where b: "get_balance s e t = Some b" "0 < d" "d \<le> lb_remaining b"
      "r = b\<lparr>lb_used := lb_used b + d\<rparr>"
      "fst (apply_deduction e t d s) =
         s\<lparr>balances_store := dict_put (balances_store s) (lb_balance_id b) r\<rparr>"
    by (metis apply_deduction_ok_iff prod.collapse)
  note wf = wf_balancesD [OF assms] and bf = get_balance_facts [OF assms b(1)]
  show ?thesis
    unfolding b(5)
  proof (rule wf_balancesI, goal_cases)
    case (3 bid b')
    then show ?case
      using wf(3) [of bid b'] bf b(2-4) by (auto simp: lb_remaining_def split: if_splits)
  next
    case (4 e' t' bid)
    then show ?case
      using wf(4) [of e' t' bid] bf b(4) by (cases "bid = lb_balance_id b") auto
  qed (use wf in simp_all)
qed

lemma apply_deduction_get_balance:
  assumes "wf_balances s" and "apply_deduction e t d s = (s', Inr r)"
  shows "get_balance s' e' t' = (if e' = e \<and> t' = t then Some r else get_balance s e' t')"
proof -
  from assms(2) obtain b where b: "get_balance s e t = Some b"
      "s' = s\<lparr>balances_store := dict_put (balances_store s) (lb_balance_id b) r\<rparr>"
    by (auto simp: apply_deduction_ok_iff)
  have same: "dict_get (employee_leavetype_index s) (e', t') = Some (lb_balance_id b) \<longleftrightarrow> e' = e \<and> t' = t"
    using assms(1) get_balance_facts [OF assms(1) b(1)] unfolding wf_balances_def by (metis option.inject)
  show ?thesis
    using same get_balance_facts(6) [OF assms(1) b(1)] unfolding b(2) get_balance_def
    by (auto split: option.splits)
qed

section \<open>The deduction contract\<close>

text \<open>
  What a caller relies on when it deducts days: an accepted deduction adds its days to the used
  days of its key and to nothing else, a refused one changes nothing, and used days never exceed
  the allocation.
\<close>

locale deduction_contract =
  fixes inv :: "'s \<Rightarrow> bool"
    and used :: "'s \<Rightarrow> 'k \<Rightarrow> int"
    and total :: "'s \<Rightarrow> 'k \<Rightarrow> int"
    and deduct :: "'k \<Rightarrow> int \<Rightarrow> 's \<Rightarrow> 's \<times> 'r result"
  assumes deduct_inv: "inv s \<Longrightarrow> inv (fst (deduct k d s))"
    and deduct_accepted: "inv s \<Longrightarrow> deduct k d s = (s', Inr r) \<Longrightarrow>
      0 < d \<and> used s' k' = used s k' + (if k' = k then d else 0) \<and> total s' k' = total s k'"
    and deduct_refused: "deduct k d s = (s', Inl e) \<Longrightarrow> s' = s"
    and within: "inv s \<Longrightarrow> 0 \<le> used s k \<and> used s k \<le> total s k"
begin

lemma deduct_used:
  assumes "inv s"
  shows "used (fst (deduct k d s)) k' =
    used s k' + (if k' = k \<and> is_ok (snd (deduct k d s)) then d else 0)"
proof (cases "deduct k d s")
  case (Pair s' r)
  then show ?thesis
    using deduct_accepted [OF assms, of k d s' _ k'] deduct_refused [of k d s s'] by (cases r) auto
qed

lemma deduct_total: "inv s \<Longrightarrow> total (fst (deduct k d s)) k' = total s k'"
  using deduct_accepted [of s k d _ _ k'] deduct_refused [of k d s]
  by (cases "deduct k d s"; cases "snd (deduct k d s)") auto

lemma deduct_mono: "inv s \<Longrightarrow> used s k' \<le> used (fst (deduct k d s)) k'"
  using deduct_accepted [of s k d _ _ k'] deduct_refused [of k d s]
  by (cases "deduct k d s"; cases "snd (deduct k d s)") fastforce+

lemma accepted_fits: "inv s \<Longrightarrow> deduct k d s = (s', Inr r) \<Longrightarrow> used s k + d \<le> total s k"
  using deduct_accepted [of s k d s' r k] deduct_inv [of s k d] within [of s' k] by auto

end

lemma used_days_deduction:
  assumes "wf_balances s" and "apply_deduction e t d s = (s', Inr r)"
  shows "used_days s' k = used_days s k + (if k = (e, t) then d else 0)"
    and "allocated_days s' k = allocated_days s k"
  using assms(2)
  by (auto simp: used_days_def allocated_days_def apply_deduction_get_balance [OF assms]
      apply_deduction_ok_iff split: option.splits)

interpretation ledger: deduction_contract wf_balances used_days allocated_days
  "\<lambda>k d. apply_deduction (fst k) (snd k) d"
proof
  fix s s' :: balance_state and k k' :: "string \<times> LeaveType" and d :: int and r e
  show "wf_balances s \<Longrightarrow> wf_balances (fst (apply_deduction (fst k) (snd k) d s))"
    by (rule apply_deduction_wf)
  show "wf_balances s \<Longrightarrow> apply_deduction (fst k) (snd k) d s = (s', Inr r) \<Longrightarrow>
      0 < d \<and> used_days s' k' = used_days s k' + (if k' = k then d else 0)
        \<and> allocated_days s' k' = allocated_days s k'"
    using used_days_deduction [of s "fst k" "snd k" d s' r k'] by (auto simp: apply_deduction_ok_iff)
  show "apply_deduction (fst k) (snd k) d s = (s', Inl e) \<Longrightarrow> s' = s"
    by (rule apply_deduction_error)
  show "wf_balances s \<Longrightarrow> 0 \<le> used_days s k \<and> used_days s k \<le> allocated_days s k"
    by (auto simp: used_days_def allocated_days_def split: option.splits dest: get_balance_facts(4,5))
qed

section \<open>The deduction route\<close>

lemma deduct_balance_state:
  "fst (deduct_balance p s) = fst (apply_deduction (dr_employee_id p) (dr_leave_type p) (dr_days p) s)"
  by (auto simp: deduct_balance_def split: prod.splits sum.splits exn.splits)

lemma deduct_balance_ok:
  "is_ok (snd (deduct_balance p s)) =
     is_ok (snd (apply_deduction (dr_employee_id p) (dr_leave_type p) (dr_days p) s))"
  by (auto simp: deduct_balance_def split: prod.splits sum.splits exn.splits)

definition deduct_key :: "DeductRequest \<Rightarrow> string \<times> LeaveType" where
  "deduct_key p = (dr_employee_id p, dr_leave_type p)"

lemma respond_status_200: "r = Inl (HTTPException c d) \<Longrightarrow> c \<noteq> 200 \<Longrightarrow> status_code (respond 200 r) \<noteq> 200"
  by simp

lemma deduct_endpoint_cases:
  obtains (invalid) "deduct_endpoint p s = (s, Error_response 422 ValidationErrors)"
      "\<not> valid_DeductRequest p"
    | (missing) d where "deduct_endpoint p s = (s, Error_response 404 d)" "valid_DeductRequest p"
      "get_balance s (dr_employee_id p) (dr_leave_type p) = None"
    | (overdrawn) b d where "deduct_endpoint p s = (s, Error_response 409 d)" "valid_DeductRequest p"
      "get_balance s (dr_employee_id p) (dr_leave_type p) = Some b" "lb_remaining b < dr_days p"
    | (accepted) s' b r where "deduct_endpoint p s = (s', Ok_response 200 r)" "valid_DeductRequest p"
      "apply_deduction (dr_employee_id p) (dr_leave_type p) (dr_days p) s = (s', Inr b)"
proof (cases "valid_DeductRequest p")
  case False
  then show thesis using invalid by (simp add: deduct_endpoint_def)
next
  case True
  then have pos: "\<not> dr_days p \<le> 0" by (simp add: valid_DeductRequest_def)
  show thesis
  proof (cases "get_balance s (dr_employee_id p) (dr_leave_type p)")
    case None
    with True show thesis
      using missing by (simp add: deduct_endpoint_def deduct_balance_def apply_deduction_def)
  next
    case (Some b)
    show thesis
    proof (cases "lb_remaining b < dr_days p")
      case True
      with Some pos \<open>valid_DeductRequest p\<close> show thesis
        using overdrawn by (simp add: deduct_endpoint_def deduct_balance_def apply_deduction_def)
    next
      case False
      with Some pos True show thesis
        using accepted by (simp add: deduct_endpoint_def deduct_balance_def apply_deduction_def Let_def)
    qed
  qed
qed

lemma deduct_endpoint_wf [wf_intros]: "wf_balances s \<Longrightarrow> wf_balances (fst (deduct_endpoint p s))"
  using apply_deduction_wf [of s "dr_employee_id p" "dr_leave_type p" "dr_days p"]
  by (cases rule: deduct_endpoint_cases [of p s]) auto

lemma deduct_endpoint_used:
  assumes "wf_balances s"
  shows "used_days (fst (deduct_endpoint p s)) k =
    used_days s k + (if deduct_key p = k \<and> status_code (snd (deduct_endpoint p s)) = 200 then dr_days p else 0)"
proof (cases rule: deduct_endpoint_cases [of p s])
  case (accepted s' b r)
  then show ?thesis
    using used_days_deduction(1) [OF assms accepted(3)] by (auto simp: deduct_key_def)
qed auto

lemma deduct_endpoint_allocated:
  assumes "wf_balances s"
  shows "allocated_days (fst (deduct_endpoint p s)) k = allocated_days s k"
proof (cases rule: deduct_endpoint_cases [of p s])
  case (accepted s' b r)
  then show ?thesis using used_days_deduction(2) [OF assms accepted(3)] by auto
qed auto

section \<open>Sequences of deductions\<close>

definition accepted_days ::
  "string \<times> LeaveType \<Rightarrow> DeductRequest list \<Rightarrow> DeductResponse http_response list \<Rightarrow> int" where
  "accepted_days k ps rs =
     sum_list (map (\<lambda>(p, r). if deduct_key p = k \<and> status_code r = 200 then dr_days p else 0) (zip ps rs))"

lemma run_deductions_wf: "wf_balances s \<Longrightarrow> wf_balances (fst (run_deductions ps s))"
proof (induction ps arbitrary: s)
  case (Cons p ps)
  from Cons.IH [OF deduct_endpoint_wf [OF Cons.prems, of p]] show ?case
    by (auto split: prod.splits)
qed simp

lemma run_deductions_used:
  assumes "wf_balances s"
  shows "used_days (fst (run_deductions ps s)) k =
      used_days s k + accepted_days k ps (snd (run_deductions ps s))
    \<and> allocated_days (fst (run_deductions ps s)) k = allocated_days s k"
  using assms
proof (induction ps arbitrary: s)
  case Nil
  then show ?case by (simp add: accepted_days_def)
next
  case (Cons p ps)
  note step = deduct_endpoint_used [OF Cons.prems, of p k] deduct_endpoint_allocated [OF Cons.prems, of p k]
    and rest = Cons.IH [OF deduct_endpoint_wf [OF Cons.prems, of p]]
  show ?case
    using step rest by (auto simp: accepted_days_def split: prod.splits)
qed

text \<open>
  C21: whatever deduction requests arrive, in whatever order, valid or not: the used days of every
  (employee, leave type) grow by exactly the days of the requests answered 200, the allocation
  stays, and the used days stay between 0 and the allocation, so no balance is ever overdrawn.
\<close>

theorem deductions_never_overdraw:
  assumes "wf_balances s" and "run_deductions ps s = (s', rs)"
  shows "used_days s' k = used_days s k + accepted_days k ps rs
    \<and> allocated_days s' k = allocated_days s k
    \<and> 0 \<le> used_days s' k \<and> used_days s' k \<le> allocated_days s k"
  using run_deductions_used [OF assms(1), of ps k] ledger.within [OF run_deductions_wf [OF assms(1), of ps], of k]
    assms(2)
  by simp

section \<open>Refinement of an abstract ledger\<close>

text \<open>
  The promise of the route without the store: a partial map from (employee, leave type) to the
  allocated and used days, and the status of a deduction.
\<close>

type_synonym ledger = "string \<times> LeaveType \<Rightarrow> (int \<times> int) option"

definition abs_ledger :: "balance_state \<Rightarrow> ledger" where
  "abs_ledger s = (\<lambda>(e, t). map_option (\<lambda>b. (lb_total_allocated b, lb_used b)) (get_balance s e t))"

definition ledger_deduct :: "DeductRequest \<Rightarrow> ledger \<Rightarrow> ledger \<times> int" where
  "ledger_deduct p L =
     (if dr_employee_id p = [] \<or> dr_days p \<le> 0 then (L, 422)
      else (case L (deduct_key p) of
          None \<Rightarrow> (L, 404)
        | Some (tot, used) \<Rightarrow>
            if tot < used + dr_days p then (L, 409)
            else (L(deduct_key p \<mapsto> (tot, used + dr_days p)), 200)))"

text \<open>
  C20: the deduction route implements the abstract ledger: on a well-formed store its new state
  abstracts to the ledger's new state and its status is the ledger's, on every branch (422 for a
  request that fails validation, 404 without a record, 409 when it would overdraw, 200 otherwise),
  and the store stays well-formed.
\<close>

theorem deduct_endpoint_refines_ledger:
  assumes "wf_balances s" and "deduct_endpoint p s = (s', r)"
  shows "ledger_deduct p (abs_ledger s) = (abs_ledger s', status_code r) \<and> wf_balances s'"
proof
  show "wf_balances s'" using deduct_endpoint_wf [OF assms(1), of p] assms(2) by simp
  show "ledger_deduct p (abs_ledger s) = (abs_ledger s', status_code r)"
  proof (cases rule: deduct_endpoint_cases [of p s])
    case invalid
    with assms(2) show ?thesis
      by (auto simp: ledger_deduct_def valid_DeductRequest_def Suc_le_eq)
  next
    case (missing d)
    with assms(2) show ?thesis
      by (auto simp: ledger_deduct_def abs_ledger_def valid_DeductRequest_def deduct_key_def)
  next
    case (overdrawn b d)
    with assms(2) show ?thesis
      by (auto simp: ledger_deduct_def abs_ledger_def valid_DeductRequest_def deduct_key_def lb_remaining_def)
  next
    case (accepted t b q)
    with assms(2) have "s' = t" and "r = Ok_response 200 q" by auto
    with accepted apply_deduction_get_balance [OF assms(1) accepted(3)] show ?thesis
      by (auto simp: ledger_deduct_def abs_ledger_def valid_DeductRequest_def apply_deduction_ok_iff
          deduct_key_def lb_remaining_def fun_eq_iff)
  qed
qed

section \<open>Seeding\<close>

lemmas seed_eval = seed_balances_def get_seed_employees_def SEED_USERS_def
  init_balances_for_employee_def DEFAULT_LEAVE_ALLOCATIONS_def add_balance_def dict_has_def
  empty_balances_def

lemma seed_balances_eq:
  assumes "inj uuids"
  shows "\<exists>s. seed_balances uuids empty_balances = Inr s \<and> wf_balances s
    \<and> seed_balances uuids' s = Inr s
    \<and> (\<forall>e. map (\<lambda>b. (lb_leave_type b, lb_total_allocated b, lb_used b)) (get_balances_for_employee s e)
         = (if e \<in> su_user_id ` set get_seed_employees then [(CASUAL, 12, 0), (SICK, 10, 0), (PRIVILEGE, 15, 0)] else []))"
proof -
  have neq: "i \<noteq> j \<Longrightarrow> uuids i \<noteq> uuids j" for i j using assms by (auto dest: injD)
  let ?b = "\<lambda>i e t a. \<lparr>lb_balance_id = uuids i, lb_employee_id = e, lb_leave_type = t,
    lb_total_allocated = a, lb_used = 0\<rparr>"
  let ?bs = "[?b 0 EMP1_ID CASUAL 12, ?b 1 EMP1_ID SICK 10, ?b 2 EMP1_ID PRIVILEGE 15,
    ?b 3 EMP2_ID CASUAL 12, ?b 4 EMP2_ID SICK 10, ?b 5 EMP2_ID PRIVILEGE 15]"
  let ?s = "\<lparr>balances_store = map (\<lambda>b. (lb_balance_id b, b)) ?bs,
    employee_leavetype_index = map (\<lambda>b. ((lb_employee_id b, lb_leave_type b), lb_balance_id b)) ?bs\<rparr>"
  have run: "seed_balances uuids empty_balances = Inr ?s"
    by (simp add: seed_eval neq dict_put_def dict_get_def numeral_2_eq_2)
  moreover have "wf_balances ?s"
    by (rule wf_balancesI) (auto simp: wf_dict_def dict_get_def neq split: if_splits)
  moreover have "seed_balances uuids' ?s = Inr ?s"
    by (simp add: seed_balances_def)
  moreover have "map (\<lambda>b. (lb_leave_type b, lb_total_allocated b, lb_used b)) (get_balances_for_employee ?s e)
         = (if e \<in> su_user_id ` set get_seed_employees then [(CASUAL, 12, 0), (SICK, 10, 0), (PRIVILEGE, 15, 0)] else [])"
    for e
    by (simp add: get_balances_for_employee_def dict_values_def get_seed_employees_def SEED_USERS_def)
  ultimately show ?thesis by blast
qed

text \<open>
  On an empty store and with distinct fresh ids, seeding succeeds; it gives each seeded
  employee exactly the records CASUAL 12, SICK 10, PRIVILEGE 15 with no day used, in this order,
  and nobody else (the manager in particular) any record; the store is well-formed; and seeding
  again changes nothing.
\<close>

lemma seed_balances_correct:
  assumes "inj uuids"
  shows "\<exists>s. seed_balances uuids empty_balances = Inr s \<and> wf_balances s
    \<and> seed_balances uuids' s = Inr s
    \<and> (\<forall>e. map (\<lambda>b. (lb_leave_type b, lb_total_allocated b, lb_used b)) (get_balances_for_employee s e)
         = (if e \<in> su_user_id ` set get_seed_employees then [(CASUAL, 12, 0), (SICK, 10, 0), (PRIVILEGE, 15, 0)] else []))"
  using assms by (rule seed_balances_eq)

section \<open>Reading\<close>

text \<open>
  C31: the per-employee balance route answers 200 exactly to a caller whose identity headers are
  present and valid and who is that employee or a manager the org chart names as the employee's
  manager; it answers 401 to missing or malformed identity headers and 403 to everybody else, and a
  200 carries all of that employee's records and nothing but them.
\<close>

theorem employee_balances_authorization:
  fixes uid role :: "string option"
  shows "(status_code (employee_balances_endpoint s e uid role) = 200 \<longleftrightarrow>
      (\<exists>i r. uid = Some i \<and> i \<noteq> [] \<and> role = Some (Role_value r)
        \<and> (i = e \<or> r = MANAGER \<and> get_manager_id e = Some i)))
    \<and> (status_code (employee_balances_endpoint s e uid role) = 401 \<longleftrightarrow>
      (\<nexists>i r. uid = Some i \<and> i \<noteq> [] \<and> role = Some (Role_value r)))
    \<and> (employee_balances_endpoint s e uid role = Ok_response 200 (balances_response s e)
      \<or> status_code (employee_balances_endpoint s e uid role) = 403
      \<or> status_code (employee_balances_endpoint s e uid role) = 401)"
proof (cases "get_caller uid role")
  case (Inl exc)
  then obtain d where "exc = HTTPException 401 d" using get_caller_error by blast
  moreover have "\<nexists>i r. uid = Some i \<and> i \<noteq> [] \<and> role = Some (Role_value r)"
    using Inl get_caller_ok_iff [of uid role "\<lparr>ci_user_id = i, ci_role = r\<rparr>" for i r] by auto
  ultimately show ?thesis using Inl by (auto simp: employee_balances_endpoint_def)
next
  case (Inr c)
  note c = get_caller_ok_iff [THEN iffD1, OF Inr]
  have ep: "employee_balances_endpoint s e uid role = respond 200 (employee_balances s e c)"
    by (simp add: employee_balances_endpoint_def Inr)
  show ?thesis
    unfolding ep employee_balances_def using c by (auto simp: is_team_member_iff)
qed

end
