(* ===== verification/Circuit_Breaker.thy ===== *)
theory Circuit_Breaker
  imports Http
begin

text \<open>
  \<open>shared/circuit_breakers.py\<close>: the wrapper \<open>invoke_with_breaker\<close> around a breaker object of the
  \<open>pybreaker\<close> package. The package is not part of the repository: its object state is a type
  variable and its two entry points that the wrapper uses are the fields of \<open>breaker_ops\<close>,
  indexed by the clock: the \<open>current_state\<close> property, and \<open>call\<close> on a function whose outcome is
  given (an exception it raises, or the value \<open>True\<close> it returns).
\<close>

record 'b breaker_ops =
  cb_current_state :: "nat \<Rightarrow> 'b \<Rightarrow> string"
  cb_call :: "nat \<Rightarrow> 'b \<Rightarrow> bool result \<Rightarrow> 'b \<times> bool result"

text \<open>The two breakers the module creates: failure threshold, reset timeout in seconds, name.\<close>

record breaker_config =
  bc_fail_max :: nat
  bc_reset_timeout :: nat
  bc_name :: string

definition leave_balance_cb :: breaker_config where
  "leave_balance_cb = \<lparr>bc_fail_max = 3, bc_reset_timeout = 30, bc_name = ''leave_balance_service''\<rparr>"

definition leave_request_cb :: breaker_config where
  "leave_request_cb = \<lparr>bc_fail_max = 3, bc_reset_timeout = 30, bc_name = ''leave_request_service''\<rparr>"

definition breaker_open_error :: exn where
  "breaker_open_error = CircuitBreakerError ''Circuit breaker is open''"

text \<open>
  The wrapper. Its coroutine is a state transformer of the world \<open>'s\<close>; it is not run when the
  breaker is open. A failure is recorded by calling the breaker with a function that raises it, and
  the original exception is raised whatever the breaker answers; a success is recorded by calling
  the breaker with a function that returns, and an exception of that call replaces the result.
\<close>

definition invoke_with_breaker ::
  "'b breaker_ops \<Rightarrow> nat \<Rightarrow> nat \<Rightarrow> ('s \<Rightarrow> 's \<times> 'a result) \<Rightarrow> 'b \<times> 's \<Rightarrow> ('b \<times> 's) \<times> 'a result" where
  "invoke_with_breaker ops t0 t1 coro bs =
     (case bs of (b, s) \<Rightarrow>
        if cb_current_state ops t0 b = ''open'' then ((b, s), Inl breaker_open_error)
        else (case coro s of
            (s', Inl exc) \<Rightarrow> ((fst (cb_call ops t1 b (Inl exc)), s'), Inl exc)
          | (s', Inr result) \<Rightarrow>
              (case cb_call ops t1 b (Inr True) of
                 (b', Inl exc) \<Rightarrow> ((b', s'), Inl exc)
               | (b', Inr _) \<Rightarrow> ((b', s'), Inr result))))"

text \<open>A sequence of uses of one breaker: clock at entry, clock at the recording call, coroutine.\<close>

fun invoke_all ::
  "'b breaker_ops \<Rightarrow> (nat \<times> nat \<times> ('s \<Rightarrow> 's \<times> 'a result)) list \<Rightarrow> 'b \<times> 's \<Rightarrow> ('b \<times> 's) \<times> 'a result list"
where
  "invoke_all ops [] bs = (bs, [])"
| "invoke_all ops ((t0, t1, coro) # calls) bs =
     (case invoke_with_breaker ops t0 t1 coro bs of
        (bs', r) \<Rightarrow> (case invoke_all ops calls bs' of (bs'', rs) \<Rightarrow> (bs'', r # rs)))"

section \<open>What the package documents\<close>

text \<open>
  \<open>current_state\<close> reads the stored state of the breaker: it does not depend on the clock (the
  transition from open to half-open is made by \<open>call\<close>).
\<close>

definition stored_state :: "'b breaker_ops \<Rightarrow> bool" where
  "stored_state ops \<longleftrightarrow> (\<forall>t t' b. cb_current_state ops t b = cb_current_state ops t' b)"

text \<open>A closed or half-open breaker lets a call through; a call that returns is not refused.\<close>

definition passes_success :: "'b breaker_ops \<Rightarrow> bool" where
  "passes_success ops \<longleftrightarrow>
     (\<forall>t b. cb_current_state ops t b \<noteq> ''open'' \<longrightarrow> snd (cb_call ops t b (Inr True)) = Inr True)"

text \<open>
  An instance that behaves as the package documents, used to show that the hypotheses above can
  hold: consecutive failures are counted, the threshold opens the breaker, an open breaker refuses
  calls until the timeout has elapsed and then lets one trial through.
\<close>

record sample_cb =
  scb_state :: string
  scb_fails :: nat
  scb_opened_at :: nat

definition sample_closed :: sample_cb where
  "sample_closed = \<lparr>scb_state = ''closed'', scb_fails = 0, scb_opened_at = 0\<rparr>"

definition sample_record :: "breaker_config \<Rightarrow> nat \<Rightarrow> sample_cb \<Rightarrow> bool result \<Rightarrow> sample_cb \<times> bool result" where
  "sample_record cfg now b r =
     (case r of
        Inr v \<Rightarrow> (b\<lparr>scb_state := ''closed'', scb_fails := 0\<rparr>, Inr v)
      | Inl e \<Rightarrow>
          if scb_state b = ''half-open'' \<or> bc_fail_max cfg \<le> Suc (scb_fails b)
          then (b\<lparr>scb_state := ''open'', scb_fails := Suc (scb_fails b), scb_opened_at := now\<rparr>,
                Inl (CircuitBreakerError ''Failures threshold reached, circuit breaker opened''))
          else (b\<lparr>scb_fails := Suc (scb_fails b)\<rparr>, Inl e))"

definition sample_ops :: "breaker_config \<Rightarrow> sample_cb breaker_ops" where
  "sample_ops cfg =
     \<lparr>cb_current_state = (\<lambda>now b. scb_state b),
      cb_call = (\<lambda>now b r.
        if scb_state b = ''open'' then
          (if now < scb_opened_at b + bc_reset_timeout cfg
           then (b, Inl (CircuitBreakerError ''Timeout not elapsed yet, circuit breaker still open''))
           else sample_record cfg now (b\<lparr>scb_state := ''half-open''\<rparr>) r)
        else sample_record cfg now b r)\<rparr>"

lemma sample_stored_state [simp]: "stored_state (sample_ops cfg)"
  by (simp add: stored_state_def sample_ops_def)

lemma sample_passes_success [simp]: "passes_success (sample_ops cfg)"
  by (simp add: passes_success_def sample_ops_def sample_record_def)

section \<open>Behaviour of the wrapper\<close>

lemma invoke_open:
  "cb_current_state ops t0 b = ''open'' \<Longrightarrow>
   invoke_with_breaker ops t0 t1 coro (b, s) = ((b, s), Inl breaker_open_error)"
  by (simp add: invoke_with_breaker_def)

lemma invoke_failure:
  "cb_current_state ops t0 b \<noteq> ''open'' \<Longrightarrow> coro s = (s', Inl e) \<Longrightarrow>
   invoke_with_breaker ops t0 t1 coro (b, s) = ((fst (cb_call ops t1 b (Inl e)), s'), Inl e)"
  by (simp add: invoke_with_breaker_def)

lemma invoke_world:
  "snd (fst (invoke_with_breaker ops t0 t1 coro (b, s))) =
     (if cb_current_state ops t0 b = ''open'' then s else fst (coro s))"
  by (auto simp: invoke_with_breaker_def split: prod.splits sum.splits)

lemma invoke_ok_iff:
  "snd (invoke_with_breaker ops t0 t1 coro (b, s)) = Inr v \<longleftrightarrow>
     cb_current_state ops t0 b \<noteq> ''open'' \<and> snd (coro s) = Inr v
       \<and> is_ok (snd (cb_call ops t1 b (Inr True)))"
  by (auto simp: invoke_with_breaker_def breaker_open_error_def split: prod.splits sum.splits)

lemma invoke_preserves:
  assumes "P s" and "P (fst (coro s))"
  shows "P (snd (fst (invoke_with_breaker ops t0 t1 coro (b, s))))"
  using assms by (simp add: invoke_world)

text \<open>With a breaker that passes successes, the wrapper is transparent while the breaker is closed.\<close>

lemma invoke_transparent:
  assumes "passes_success ops" and "stored_state ops" and "cb_current_state ops t0 b \<noteq> ''open''"
  shows "snd (invoke_with_breaker ops t0 t1 coro (b, s)) = snd (coro s)"
proof -
  have "cb_current_state ops t1 b \<noteq> ''open''"
    using assms(2,3) unfolding stored_state_def by metis
  then have "snd (cb_call ops t1 b (Inr True)) = Inr True"
    using assms(1) by (simp add: passes_success_def)
  then show ?thesis
    using assms(3) by (auto simp: invoke_with_breaker_def split: prod.splits sum.splits)
qed

text \<open>
  C36: once the stored state of a breaker reads open, no later use of it through
  \<open>invoke_with_breaker\<close>, at any clock, runs its coroutine or changes the breaker: every call fails
  with the open-circuit error. The reset timeout is never consulted, because only \<open>call\<close> would
  consult it and the wrapper returns before calling it.
\<close>

theorem open_breaker_never_recovers:
  assumes "stored_state ops" and "cb_current_state ops t b = ''open''"
  shows "invoke_all ops calls (b, s) = ((b, s), map (\<lambda>_. Inl breaker_open_error) calls)"
proof (induction calls)
  case Nil
  show ?case by simp
next
  case (Cons call calls)
  obtain t0 t1 coro where call: "call = (t0, t1, coro)" by (cases call)
  have "cb_current_state ops t0 b = ''open''"
    using assms unfolding stored_state_def by metis
  with Cons call show ?case by (simp add: invoke_open)
qed

end
