(* ===== verification/Leave_Request_Service.thy ===== *)
theory Leave_Request_Service
  imports Leave_Request_Store Leave_Balance Circuit_Breaker
begin

text \<open>
  The route handlers of the Leave Request Service (\<open>leave_request_service/main.py\<close>), its schemas and
  its balance client. Applying for leave awaits the Leave Balance Service between its validations
  and its insertion, so it is modelled as two atomic parts and their composition.
\<close>

section \<open>Schemas\<close>

record ApplyLeaveRequest =
  al_leave_type :: LeaveType
  al_start_date :: date
  al_end_date :: date
  al_number_of_days :: int
  al_reason :: string
  al_reporting_manager_id :: "string option"

text \<open>
  The declared constraints (\<open>gt=0\<close>, \<open>min_length\<close>, \<open>max_length\<close>); a parsed date is a calendar date.
\<close>

definition valid_ApplyLeaveRequest :: "ApplyLeaveRequest \<Rightarrow> bool" where
  "valid_ApplyLeaveRequest p \<longleftrightarrow>
     valid_date (al_start_date p) \<and> valid_date (al_end_date p) \<and> 0 < al_number_of_days p
     \<and> 1 \<le> length (al_reason p) \<and> length (al_reason p) \<le> 500
     \<and> (case al_reporting_manager_id p of None \<Rightarrow> True | Some m \<Rightarrow> 1 \<le> length m)"

record LeaveRequestResponse =
  rr_request_id :: string
  rr_employee_id :: string
  rr_leave_type :: LeaveType
  rr_start_date :: date
  rr_end_date :: date
  rr_number_of_days :: int
  rr_reason :: string
  rr_reporting_manager_id :: string
  rr_status :: LeaveStatus
  rr_rejection_reason :: "string option"
  rr_created_at :: datetime
  rr_updated_at :: datetime

definition LeaveRequestResponse_from_model :: "LeaveRequest \<Rightarrow> LeaveRequestResponse" where
  "LeaveRequestResponse_from_model r =
     \<lparr>rr_request_id = lr_request_id r, rr_employee_id = lr_employee_id r,
      rr_leave_type = lr_leave_type r, rr_start_date = lr_start_date r, rr_end_date = lr_end_date r,
      rr_number_of_days = lr_number_of_days r, rr_reason = lr_reason r,
      rr_reporting_manager_id = lr_reporting_manager_id r, rr_status = lr_status r,
      rr_rejection_reason = lr_rejection_reason r, rr_created_at = lr_created_at r,
      rr_updated_at = lr_updated_at r\<rparr>"

record LeaveHistoryResponse =
  lh_items :: "LeaveRequestResponse list"
  lh_page :: int
  lh_page_size :: int
  lh_total :: int
  lh_total_pages :: int

record StatusUpdateRequest =
  sr_new_status :: LeaveStatus
  sr_manager_id :: string
  sr_rejection_reason :: "string option"

definition valid_StatusUpdateRequest :: "StatusUpdateRequest \<Rightarrow> bool" where
  "valid_StatusUpdateRequest p \<longleftrightarrow>
     1 \<le> length (sr_manager_id p)
     \<and> (case sr_rejection_reason p of None \<Rightarrow> True | Some why \<Rightarrow> length why \<le> 500)"

section \<open>The balance client\<close>

text \<open>The loop over the balance items: the first item of the leave type, 0 when there is none.\<close>

fun remaining_of :: "LeaveType \<Rightarrow> BalanceItem list \<Rightarrow> int" where
  "remaining_of leave_type [] = 0"
| "remaining_of leave_type (item # items) =
     (if LeaveType_value (bi_leave_type item) = LeaveType_value leave_type then bi_remaining item
      else remaining_of leave_type items)"

text \<open>
  The read is made with the employee's own identity headers; the balance service is the callee.
\<close>

definition fetch_remaining :: "net \<Rightarrow> string \<Rightarrow> LeaveType \<Rightarrow> balance_state \<Rightarrow> balance_state \<times> int result" where
  "fetch_remaining n employee_id leave_type bal =
     (case http_call n
        (\<lambda>b. (b, employee_balances_endpoint b employee_id (Some employee_id) (Some (Role_value EMPLOYEE)))) bal
      of (bal', response) \<Rightarrow>
        (bal', and_then response (\<lambda>resp.
           and_then (raise_for_status_json resp) (\<lambda>payload.
             Inr (remaining_of leave_type (eb_balances payload))))))"

section \<open>Applying for leave\<close>

definition resolve_manager :: "string \<Rightarrow> string option \<Rightarrow> string result" where
  "resolve_manager employee_id provided =
     (case get_manager_id employee_id of
        None \<Rightarrow> Inl (HTTPException 400 (Msg ''No reporting manager is configured for this user''))
      | Some resolved \<Rightarrow>
          if provided \<noteq> None \<and> provided \<noteq> Some resolved
          then Inl (HTTPException 400 (Msg ''reporting_manager_id does not match the employee's manager''))
          else Inr resolved)"

text \<open>The part before the await: the validations, in the order of the code.\<close>

definition apply_leave_begin ::
  "date \<Rightarrow> CallerIdentity \<Rightarrow> ApplyLeaveRequest \<Rightarrow> request_state \<Rightarrow> string result" where
  "apply_leave_begin today caller p s =
     and_then (validate_dates today (al_start_date p) (al_end_date p) (al_number_of_days p)) (\<lambda>_.
       and_then (resolve_manager (ci_user_id caller) (al_reporting_manager_id p)) (\<lambda>manager_id.
         and_then (check_overlap s (ci_user_id caller) (al_start_date p) (al_end_date p)) (\<lambda>_.
           Inr manager_id)))"

definition new_request ::
  "string \<Rightarrow> datetime \<Rightarrow> datetime \<Rightarrow> CallerIdentity \<Rightarrow> ApplyLeaveRequest \<Rightarrow> string \<Rightarrow> LeaveRequest" where
  "new_request request_id created updated caller p manager_id =
     \<lparr>lr_request_id = request_id, lr_employee_id = ci_user_id caller,
      lr_leave_type = al_leave_type p, lr_start_date = al_start_date p, lr_end_date = al_end_date p,
      lr_number_of_days = al_number_of_days p, lr_reason = al_reason p,
      lr_reporting_manager_id = manager_id, lr_status = PENDING, lr_rejection_reason = None,
      lr_created_at = created, lr_updated_at = updated\<rparr>"

definition applied_event :: "CallerIdentity \<Rightarrow> string \<Rightarrow> string \<Rightarrow> event" where
  "applied_event caller manager_id request_id =
     (LEAVE_APPLIED,
      [(''employee_id'', JStr (ci_user_id caller)),
       (''manager_id'', JStr manager_id),
       (''leave_request_id'', JStr request_id)])"

definition unavailable :: "exn" where
  "unavailable = HTTPException 503 (Msg ''Leave Balance Service is unavailable'')"

text \<open>
  The part after the await, on the state found then: the outcome of the balance lookup decides, and
  a success inserts the request and hands a \<open>LEAVE_APPLIED\<close> event to the publisher. The id is the
  fresh \<open>uuid4\<close>, the two time stamps are the clock readings of the record's defaults.
\<close>

definition apply_leave_finish ::
  "string \<Rightarrow> datetime \<Rightarrow> datetime \<Rightarrow> CallerIdentity \<Rightarrow> ApplyLeaveRequest \<Rightarrow> string \<Rightarrow> int result
    \<Rightarrow> request_state \<Rightarrow> request_state \<times> event list \<times> LeaveRequestResponse result" where
  "apply_leave_finish request_id created updated caller p manager_id outcome s =
     (case outcome of
        Inl (CircuitBreakerError m) \<Rightarrow> (s, [], Inl unavailable)
      | Inl (HTTPXError e) \<Rightarrow> (s, [], Inl unavailable)
      | Inl e \<Rightarrow> (s, [], Inl e)
      | Inr remaining \<Rightarrow>
          if al_number_of_days p > remaining
          then (s, [], Inl (HTTPException 409 (Msg (''Insufficient '' @ LeaveType_value (al_leave_type p)
                 @ '' balance: requested '' @ str_of_int (al_number_of_days p)
                 @ '', remaining '' @ str_of_int remaining))))
          else let r = new_request request_id created updated caller p manager_id
            in (add_request r s,
                [applied_event caller manager_id request_id],
                Inr (LeaveRequestResponse_from_model r)))"

text \<open>The handler with nothing else running in the service while it awaits the given outcome.\<close>

definition apply_leave ::
  "string \<Rightarrow> date \<Rightarrow> datetime \<Rightarrow> datetime \<Rightarrow> CallerIdentity \<Rightarrow> ApplyLeaveRequest \<Rightarrow> int result
    \<Rightarrow> request_state \<Rightarrow> request_state \<times> event list \<times> LeaveRequestResponse result" where
  "apply_leave request_id today created updated caller p outcome s =
     (case apply_leave_begin today caller p s of
        Inl e \<Rightarrow> (s, [], Inl e)
      | Inr manager_id \<Rightarrow>
          apply_leave_finish request_id created updated caller p manager_id outcome s)"

section \<open>History\<close>

text \<open>\<open>xs[start : start + n]\<close> for non-negative bounds.\<close>

definition page_slice :: "int \<Rightarrow> int \<Rightarrow> 'a list \<Rightarrow> 'a list" where
  "page_slice start n xs = take (nat n) (drop (nat start) xs)"

definition leave_history ::
  "request_state \<Rightarrow> CallerIdentity \<Rightarrow> string option \<Rightarrow> int \<Rightarrow> int \<Rightarrow> LeaveHistoryResponse result" where
  "leave_history s caller status_filter page page_size =
     and_then (get_requests_for_employee s (ci_user_id caller)) (\<lambda>requests.
     and_then
       (case status_filter of
          None \<Rightarrow> Inr requests
        | Some f \<Rightarrow>
            if f = [] \<or> str_upper f = ''ALL'' then Inr requests
            else (case LeaveStatus_of (str_upper f) of
                None \<Rightarrow> Inl (HTTPException 400 (Msg (''Invalid status filter '' @ [CHR 0x27] @ f @ [CHR 0x27])))
              | Some wanted \<Rightarrow> Inr (filter (\<lambda>r. lr_status r = wanted) requests)))
       (\<lambda>selected.
         let total = int (length selected);
             total_pages = (if total \<noteq> 0 then (total + page_size - 1) div page_size else 0);
             start = (page - 1) * page_size
         in Inr \<lparr>lh_items = map LeaveRequestResponse_from_model (page_slice start page_size selected),
                 lh_page = page, lh_page_size = page_size, lh_total = total,
                 lh_total_pages = total_pages\<rparr>))"

text \<open>
  The declared query constraints (\<open>page >= 1\<close>, \<open>1 <= page_size <= 100\<close>); the caller dependency
  is resolved before they are checked.
\<close>

definition leave_history_endpoint ::
  "request_state \<Rightarrow> string option \<Rightarrow> string option \<Rightarrow> string option \<Rightarrow> int \<Rightarrow> int
    \<Rightarrow> LeaveHistoryResponse http_response" where
  "leave_history_endpoint s x_user_id x_user_role status_filter page page_size =
     (case get_caller x_user_id x_user_role of
        Inl e \<Rightarrow> respond 200 (Inl e)
      | Inr caller \<Rightarrow>
          if page < 1 \<or> page_size < 1 \<or> 100 < page_size then Error_response 422 ValidationErrors
          else respond 200 (leave_history s caller status_filter page page_size))"

section \<open>Cancelling and deciding\<close>

definition cancel_leave ::
  "datetime \<Rightarrow> string \<Rightarrow> CallerIdentity \<Rightarrow> request_state \<Rightarrow> request_state \<times> LeaveRequestResponse result" where
  "cancel_leave now leave_id caller s =
     (case get_request s leave_id of
        None \<Rightarrow> (s, Inl (HTTPException 404 (Msg ''Leave request not found'')))
      | Some r \<Rightarrow>
          if lr_employee_id r \<noteq> ci_user_id caller
          then (s, Inl (HTTPException 403 (Msg ''Not authorized to cancel this leave request'')))
          else if lr_status r \<noteq> PENDING
          then (s, Inl (HTTPException 409 (Msg (''Only a PENDING request can be cancelled (current status: ''
                 @ LeaveStatus_value (lr_status r) @ '')''))))
          else (case set_status now r CANCELLED None s of
              (s', r') \<Rightarrow> (s', Inr (LeaveRequestResponse_from_model r'))))"

definition update_request_status ::
  "datetime \<Rightarrow> string \<Rightarrow> StatusUpdateRequest \<Rightarrow> request_state \<Rightarrow> request_state \<times> LeaveRequestResponse result" where
  "update_request_status now request_id p s =
     (case get_request s request_id of
        None \<Rightarrow> (s, Inl (HTTPException 404 (Msg ''Leave request not found'')))
      | Some r \<Rightarrow>
          if lr_reporting_manager_id r \<noteq> sr_manager_id p
          then (s, Inl (HTTPException 403 (Msg ''This request is not routed to the acting manager'')))
          else if lr_status r \<noteq> PENDING
          then (s, Inl (HTTPException 409 (Msg (''Only a PENDING request can be updated (current status: ''
                 @ LeaveStatus_value (lr_status r) @ '')''))))
          else if sr_new_status p \<noteq> APPROVED \<and> sr_new_status p \<noteq> REJECTED
          then (s, Inl (HTTPException 400 (Msg ''new_status must be APPROVED or REJECTED'')))
          else if sr_new_status p = REJECTED
            \<and> (case sr_rejection_reason p of None \<Rightarrow> True | Some why \<Rightarrow> why = [] \<or> str_strip why = [])
          then (s, Inl (HTTPException 400 (Msg ''A rejection reason is required when rejecting a request'')))
          else (case set_status now r (sr_new_status p) (sr_rejection_reason p) s of
              (s', r') \<Rightarrow> (s', Inr (LeaveRequestResponse_from_model r'))))"

definition update_status_endpoint ::
  "datetime \<Rightarrow> string \<Rightarrow> StatusUpdateRequest \<Rightarrow> request_state \<Rightarrow> request_state \<times> LeaveRequestResponse http_response"
where
  "update_status_endpoint now request_id p s =
     (if \<not> valid_StatusUpdateRequest p then (s, Error_response 422 ValidationErrors)
      else (case update_request_status now request_id p s of (s', r) \<Rightarrow> (s', respond 200 r)))"

section \<open>The internal list\<close>

definition keep_if :: "'p option \<Rightarrow> ('p \<Rightarrow> 'a \<Rightarrow> bool) \<Rightarrow> 'a list \<Rightarrow> 'a list" where
  "keep_if f test xs = (case f of None \<Rightarrow> xs | Some v \<Rightarrow> filter (test v) xs)"

definition list_requests ::
  "request_state \<Rightarrow> string option \<Rightarrow> string option \<Rightarrow> string option \<Rightarrow> LeaveStatus option
    \<Rightarrow> date option \<Rightarrow> date option \<Rightarrow> LeaveRequestResponse list result" where
  "list_requests s manager_id employee_id request_id status_filter from_date to_date =
     and_then
       (case request_id of
          Some i \<Rightarrow> Inr (case get_request s i of None \<Rightarrow> [] | Some found \<Rightarrow> [found])
        | None \<Rightarrow>
            (case manager_id of
               Some m \<Rightarrow> get_requests_for_manager s m
             | None \<Rightarrow>
                 (case employee_id of
                    Some e \<Rightarrow> get_requests_for_employee s e
                  | None \<Rightarrow> Inr (dict_values (requests_store s)))))
       (\<lambda>requests.
         let by_employee = keep_if employee_id (\<lambda>e r. lr_employee_id r = e) requests;
             by_status = keep_if status_filter (\<lambda>st r. lr_status r = st) by_employee;
             by_from = keep_if from_date (\<lambda>d r. lr_end_date r \<ge> d) by_status;
             by_to = keep_if to_date (\<lambda>d r. lr_start_date r \<le> d) by_from
         in Inr (map LeaveRequestResponse_from_model by_to))"

end
