(* ===== verification/Leave_Lifecycle.thy ===== *)
theory Leave_Lifecycle
  imports Leave_Request_Service
begin

text \<open>
  Properties of the Leave Request Service: the lifecycle of a request under the two operations
  that change a status, what applying accepts, the read routes, and the invariant of the service
  when its handlers run one at a time.
\<close>

section \<open>The lifecycle\<close>

text \<open>The transitions the design allows: only a pending request moves, and it moves once.\<close>

inductive status_transition :: "LeaveStatus \<Rightarrow> LeaveStatus \<Rightarrow> bool" where
  approve: "status_transition PENDING APPROVED"
| reject: "status_transition PENDING REJECTED"
| cancel: "status_transition PENDING CANCELLED"

inductive_simps status_transition_iff: "status_transition a b"

inductive_cases status_transition_from: "status_transition a b"

text \<open>Two versions of one request: everything but the decision fields agrees.\<close>

definition same_terms :: "LeaveRequest \<Rightarrow> LeaveRequest \<Rightarrow> bool" where
  "same_terms r r' \<longleftrightarrow>
     r' = r\<lparr>lr_status := lr_status r', lr_rejection_reason := lr_rejection_reason r',
           lr_updated_at := lr_updated_at r'\<rparr>"

lemma same_terms_fields:
  assumes "same_terms r r'"
  shows "lr_request_id r' = lr_request_id r" "lr_employee_id r' = lr_employee_id r"
    "lr_leave_type r' = lr_leave_type r" "lr_start_date r' = lr_start_date r"
    "lr_end_date r' = lr_end_date r" "lr_number_of_days r' = lr_number_of_days r"
    "lr_reporting_manager_id r' = lr_reporting_manager_id r" "lr_created_at r' = lr_created_at r"
    "lr_reason r' = lr_reason r"
  using assms unfolding same_terms_def by (cases r; cases r'; simp)+

lemma same_terms_refl [simp]: "same_terms r r"
  by (simp add: same_terms_def)

lemma same_terms_trans: "same_terms a b \<Longrightarrow> same_terms b c \<Longrightarrow> same_terms a c"
  unfolding same_terms_def by (cases a; cases b; cases c) simp

lemma same_terms_sym: "same_terms a b \<Longrightarrow> same_terms b a"
  unfolding same_terms_def by (cases a; cases b) simp

section \<open>The contract of a status change\<close>

text \<open>
  Cancelling by the employee and deciding by the manager share a contract: a refusal changes
  nothing; an acceptance finds the named request pending and replaces it by a version with the
  same terms and the operation's target status.
\<close>

locale guarded_transition =
  fixes op :: "'a \<Rightarrow> request_state \<Rightarrow> request_state \<times> 'b result"
    and ident :: "'a \<Rightarrow> string"
    and target :: "'a \<Rightarrow> LeaveStatus"
  assumes refused: "op a s = (s', Inl e) \<Longrightarrow> s' = s"
    and accepted: "wf_requests s \<Longrightarrow> op a s = (s', Inr b) \<Longrightarrow>
      \<exists>r r'. get_request s (ident a) = Some r \<and> lr_status r = PENDING
        \<and> s' = replace_request r' s \<and> same_terms r r' \<and> lr_status r' = target a
        \<and> status_transition PENDING (target a) \<and> request_ok r'"
begin

lemma op_cases:
  assumes "wf_requests s"
  obtains (refusal) e where "op a s = (s, Inl e)"
    | (change) r r' b where "op a s = (replace_request r' s, Inr b)" "get_request s (ident a) = Some r"
        "lr_status r = PENDING" "same_terms r r'" "lr_status r' = target a"
        "status_transition PENDING (target a)" "request_ok r'" "lr_request_id r' = ident a"
proof (cases "op a s")
  case (Pair s' x)
  show thesis
  proof (cases x)
    case (Inl e)
    with Pair refused [of a s s' e] show thesis using refusal by auto
  next
    case (Inr b)
    obtain r r' where r: "get_request s (ident a) = Some r" "lr_status r = PENDING"
        "s' = replace_request r' s" "same_terms r r'" "lr_status r' = target a"
        "status_transition PENDING (target a)" "request_ok r'"
      using accepted [OF assms, of a s' b] Pair Inr by auto
    have "lr_request_id r' = ident a"
      using same_terms_fields(1) [OF r(4)] wf_requestsD(3) [OF assms r(1)] by simp
    with r Pair Inr show thesis by (intro change) auto
  qed
qed

lemma op_wf:
  assumes "wf_requests s"
  shows "wf_requests (fst (op a s))"
  using assms
proof (cases rule: op_cases [of s a])
  case (refusal e)
  then show ?thesis using assms by simp
next
  case (change r r' b)
  then show ?thesis
    using replace_request_wf [OF assms, of r' r] same_terms_fields [of r r'] by simp
qed

lemma op_history:
  assumes "wf_requests s" and "get_request s i = Some r"
  shows "\<exists>r'. get_request (fst (op a s)) i = Some r' \<and> same_terms r r'
    \<and> (r' = r \<or> i = ident a \<and> status_transition (lr_status r) (lr_status r') \<and> lr_status r' = target a)"
  using op_cases [OF assms(1), of a] assms(2) by cases auto

lemma op_new: "wf_requests s \<Longrightarrow> get_request (fst (op a s)) i = Some r' \<Longrightarrow> \<exists>r. get_request s i = Some r"
  by (cases rule: op_cases [of s a]) (auto split: if_splits)

lemma op_frozen:
  "wf_requests s \<Longrightarrow> get_request s i = Some r \<Longrightarrow> lr_status r \<noteq> PENDING \<Longrightarrow>
   get_request (fst (op a s)) i = Some r"
  using op_history [of s i r a] by (auto elim: status_transition_from)

lemma op_others: "wf_requests s \<Longrightarrow> i \<noteq> ident a \<Longrightarrow> get_request (fst (op a s)) i = get_request s i"
  by (cases rule: op_cases [of s a]) auto

lemma op_ok_pending:
  "wf_requests s \<Longrightarrow> is_ok (snd (op a s)) \<Longrightarrow>
   \<exists>r. get_request s (ident a) = Some r \<and> lr_status r = PENDING"
  by (cases rule: op_cases [of s a]) auto

end

lemma set_status_eq:
  "set_status now r st why s =
     (let r' = r\<lparr>lr_status := st, lr_rejection_reason := (if st = REJECTED then why else None),
                lr_updated_at := now\<rparr> in (replace_request r' s, r'))"
  by (simp add: set_status_def)

lemma cancel_leave_ok_iff:
  "cancel_leave now i caller s = (s', Inr b) \<longleftrightarrow>
     (\<exists>r. get_request s i = Some r \<and> lr_employee_id r = ci_user_id caller \<and> lr_status r = PENDING
        \<and> (let r' = r\<lparr>lr_status := CANCELLED, lr_rejection_reason := None, lr_updated_at := now\<rparr>
           in s' = replace_request r' s \<and> b = LeaveRequestResponse_from_model r'))"
  by (auto simp: cancel_leave_def set_status_def Let_def split: option.splits)

lemma cancel_leave_refused: "cancel_leave now i caller s = (s', Inl e) \<Longrightarrow> s' = s"
  by (auto simp: cancel_leave_def set_status_def Let_def split: option.splits if_splits)

text \<open>A manager's decision that the update route accepts on a pending request routed to it.\<close>

definition decision_ok :: "StatusUpdateRequest \<Rightarrow> bool" where
  "decision_ok p \<longleftrightarrow>
     sr_new_status p = APPROVED
     \<or> sr_new_status p = REJECTED \<and> (\<exists>why. sr_rejection_reason p = Some why \<and> str_strip why \<noteq> [])"

lemma str_strip_Nil [simp]: "str_strip [] = []"
  by (simp add: str_strip_def)

lemma update_request_status_ok_iff:
  "update_request_status now i p s = (s', Inr b) \<longleftrightarrow>
     (\<exists>r. get_request s i = Some r \<and> lr_reporting_manager_id r = sr_manager_id p \<and> lr_status r = PENDING
        \<and> decision_ok p
        \<and> (let r' = r\<lparr>lr_status := sr_new_status p,
                     lr_rejection_reason := (if sr_new_status p = REJECTED then sr_rejection_reason p else None),
                     lr_updated_at := now\<rparr>
           in s' = replace_request r' s \<and> b = LeaveRequestResponse_from_model r'))"
  by (cases "sr_rejection_reason p")
    (auto simp: update_request_status_def set_status_def decision_ok_def Let_def split: option.splits)

lemma update_request_status_refused: "update_request_status now i p s = (s', Inl e) \<Longrightarrow> s' = s"
  by (auto simp: update_request_status_def set_status_def Let_def split: option.splits if_splits)

interpretation cancelling: guarded_transition
  "\<lambda>(now, i, caller). cancel_leave now i caller" "\<lambda>(now, i, caller). i" "\<lambda>_. CANCELLED"
proof
  fix a and s s' :: request_state and e b
  show "(case a of (now, i, caller) \<Rightarrow> cancel_leave now i caller) s = (s', Inl e) \<Longrightarrow> s' = s"
    by (cases a) (auto dest: cancel_leave_refused)
  assume "wf_requests s" and "(case a of (now, i, caller) \<Rightarrow> cancel_leave now i caller) s = (s', Inr b)"
  then show "\<exists>r r'. get_request s (case a of (now, i, caller) \<Rightarrow> i) = Some r \<and> lr_status r = PENDING
        \<and> s' = replace_request r' s \<and> same_terms r r' \<and> lr_status r' = CANCELLED
        \<and> status_transition PENDING CANCELLED \<and> request_ok r'"
    using wf_requestsD(4) [of s "fst (snd a)"]
    by (cases a) (fastforce simp: cancel_leave_ok_iff Let_def same_terms_def request_ok_def
        intro: status_transition.intros)
qed

interpretation deciding: guarded_transition
  "\<lambda>(now, i, p). update_request_status now i p" "\<lambda>(now, i, p). i" "\<lambda>(now, i, p). sr_new_status p"
proof
  fix a and s s' :: request_state and e b
  show "(case a of (now, i, p) \<Rightarrow> update_request_status now i p) s = (s', Inl e) \<Longrightarrow> s' = s"
    by (cases a) (auto dest: update_request_status_refused)
  assume "wf_requests s" and "(case a of (now, i, p) \<Rightarrow> update_request_status now i p) s = (s', Inr b)"
  then show "\<exists>r r'. get_request s (case a of (now, i, p) \<Rightarrow> i) = Some r \<and> lr_status r = PENDING
        \<and> s' = replace_request r' s \<and> same_terms r r'
        \<and> lr_status r' = (case a of (now, i, p) \<Rightarrow> sr_new_status p)
        \<and> status_transition PENDING (case a of (now, i, p) \<Rightarrow> sr_new_status p) \<and> request_ok r'"
    using wf_requestsD(4) [of s "fst (snd a)"]
    by (cases a) (fastforce simp: update_request_status_ok_iff Let_def same_terms_def request_ok_def
        decision_ok_def intro: status_transition.intros)
qed

section \<open>Applying\<close>

lemma resolve_manager_ok_iff:
  "resolve_manager e provided = Inr m \<longleftrightarrow> get_manager_id e = Some m \<and> (provided = None \<or> provided = Some m)"
  by (auto simp: resolve_manager_def split: option.splits)

lemma apply_leave_begin_ok_iff:
  assumes "wf_requests s" and "valid_ApplyLeaveRequest p"
  shows "apply_leave_begin today caller p s = Inr m \<longleftrightarrow>
    al_start_date p \<le> al_end_date p \<and> today \<le> al_start_date p
    \<and> al_number_of_days p = int (card (date_span (al_start_date p) (al_end_date p)))
    \<and> get_manager_id (ci_user_id caller) = Some m
    \<and> (al_reporting_manager_id p = None \<or> al_reporting_manager_id p = Some m)
    \<and> (\<nexists>i r. get_request s i = Some r \<and> lr_employee_id r = ci_user_id caller \<and> active r
         \<and> request_span r \<inter> date_span (al_start_date p) (al_end_date p) \<noteq> {})"
proof (cases "al_start_date p \<le> al_end_date p")
  case False
  then show ?thesis by (simp add: apply_leave_begin_def and_then_Inr_iff validate_dates_ok_iff)
next
  case True
  have v: "valid_date (al_start_date p)" "valid_date (al_end_date p)"
    using assms(2) by (simp_all add: valid_ApplyLeaveRequest_def)
  show ?thesis
    using card_date_span [OF v True] check_overlap_ok_iff [OF assms(1) v True, of "ci_user_id caller"] True
    by (auto simp: apply_leave_begin_def and_then_Inr_iff validate_dates_ok_iff resolve_manager_ok_iff)
qed

text \<open>
  C19: the checks before the balance lookup pass, with manager m, exactly when the dates are in
  order and not in the past, the declared number of days is the number of calendar days from the
  first to the last date, m is the caller's manager in the org chart and any manager named by the
  client is m, and no pending or approved request of the caller covers any of these days.
\<close>

theorem apply_validations_exact:
  assumes "wf_requests s" and "valid_ApplyLeaveRequest p"
  shows "apply_leave_begin today caller p s = Inr m \<longleftrightarrow>
    al_start_date p \<le> al_end_date p \<and> today \<le> al_start_date p
    \<and> al_number_of_days p = int (card (date_span (al_start_date p) (al_end_date p)))
    \<and> get_manager_id (ci_user_id caller) = Some m
    \<and> (al_reporting_manager_id p = None \<or> al_reporting_manager_id p = Some m)
    \<and> (\<nexists>i r. get_request s i = Some r \<and> lr_employee_id r = ci_user_id caller \<and> active r
         \<and> request_span r \<inter> date_span (al_start_date p) (al_end_date p) \<noteq> {})"
  using assms by (rule apply_leave_begin_ok_iff)

lemma apply_leave_begin_request_ok:
  assumes "valid_ApplyLeaveRequest p" and "apply_leave_begin today caller p s = Inr m"
  shows "request_ok (new_request i c u caller p m)"
  using assms
  by (auto simp: apply_leave_begin_def and_then_Inr_iff validate_dates_ok_iff resolve_manager_ok_iff
      request_ok_def new_request_def valid_ApplyLeaveRequest_def)

lemma apply_leave_finish_cases:
  obtains (error) e where "apply_leave_finish i c u caller p m outcome s = (s, [], Inl e)"
    | (created) n where "outcome = Inr n" "al_number_of_days p \<le> n"
      "apply_leave_finish i c u caller p m outcome s =
         (add_request (new_request i c u caller p m) s, [applied_event caller m i],
          Inr (LeaveRequestResponse_from_model (new_request i c u caller p m)))"
proof (cases outcome)
  case (Inl e)
  then show thesis using error by (cases e) (auto simp: apply_leave_finish_def)
next
  case (Inr n)
  then show thesis
    using error created by (cases "n < al_number_of_days p") (auto simp: apply_leave_finish_def Let_def)
qed

lemma new_request_simps [simp]:
  "lr_request_id (new_request i c u caller p m) = i"
  "lr_employee_id (new_request i c u caller p m) = ci_user_id caller"
  "lr_leave_type (new_request i c u caller p m) = al_leave_type p"
  "lr_number_of_days (new_request i c u caller p m) = al_number_of_days p"
  "lr_status (new_request i c u caller p m) = PENDING"
  "lr_reporting_manager_id (new_request i c u caller p m) = m"
  "request_span (new_request i c u caller p m) = date_span (al_start_date p) (al_end_date p)"
  by (simp_all add: new_request_def request_span_def)

lemma apply_leave_finish_wf:
  assumes "wf_requests s" and "get_request s i = None" and "request_ok (new_request i c u caller p m)"
  shows "wf_requests (fst (apply_leave_finish i c u caller p m outcome s))"
  by (cases rule: apply_leave_finish_cases [of i c u caller p m outcome s])
    (use assms in \<open>auto intro: add_request_wf\<close>)

section \<open>One handler at a time\<close>

text \<open>
  The steps of the service when no other handler runs between the validations and the insertion of
  an application: an application (with a fresh id), a cancellation, a decision.
\<close>

inductive serial_step :: "request_state \<Rightarrow> request_state \<Rightarrow> bool" where
  do_apply: "serial_step s (fst (apply_leave i today c u caller p outcome s))"
    if "valid_ApplyLeaveRequest p" and "get_request s i = None"
| do_cancel: "serial_step s (fst (cancel_leave now i caller s))"
| do_decide: "serial_step s (fst (update_request_status now i p s))"

definition no_overlap :: "request_state \<Rightarrow> bool" where
  "no_overlap s \<longleftrightarrow>
     (\<forall>i j r q. get_request s i = Some r \<and> get_request s j = Some q \<and> i \<noteq> j
        \<and> lr_employee_id r = lr_employee_id q \<and> active r \<and> active q
        \<longrightarrow> request_span r \<inter> request_span q = {})"

lemma no_overlap_mono:
  assumes "no_overlap s"
    and "\<And>i r'. get_request t i = Some r' \<Longrightarrow> active r' \<Longrightarrow>
      \<exists>r. get_request s i = Some r \<and> active r \<and> same_terms r r'"
  shows "no_overlap t"
  unfolding no_overlap_def
proof (intro allI impI, elim conjE)
  fix i j r' q'
  assume a: "get_request t i = Some r'" "get_request t j = Some q'" "i \<noteq> j"
    "lr_employee_id r' = lr_employee_id q'" "active r'" "active q'"
  from assms(2) [OF a(1,5)] assms(2) [OF a(2,6)] obtain r q where
    "get_request s i = Some r" "active r" "same_terms r r'"
    "get_request s j = Some q" "active q" "same_terms q q'" by auto
  note rq = this
  have "request_span r \<inter> request_span q = {}"
    using assms(1) rq(1,2,4,5) a(3,4) same_terms_fields(2) [OF rq(3)] same_terms_fields(2) [OF rq(6)]
    unfolding no_overlap_def by metis
  then show "request_span r' \<inter> request_span q' = {}"
    using same_terms_fields(4,5) [OF rq(3)] same_terms_fields(4,5) [OF rq(6)]
    by (simp add: request_span_def)
qed

context guarded_transition
begin

lemma op_no_overlap:
  assumes "wf_requests s" and "no_overlap s"
  shows "no_overlap (fst (op a s))"
proof (rule no_overlap_mono [OF assms(2)])
  fix i r' assume r': "get_request (fst (op a s)) i = Some r'" "active r'"
  obtain r where r: "get_request s i = Some r" using op_new [OF assms(1) r'(1)] by auto
  from op_history [OF assms(1) r, of a] r' have "same_terms r r'" and
    "r' = r \<or> status_transition (lr_status r) (lr_status r')" by auto
  with r' r show "\<exists>r. get_request s i = Some r \<and> active r \<and> same_terms r r'"
    by (auto simp: active_def elim: status_transition_from)
qed

end

lemma apply_leave_no_overlap:
  assumes "wf_requests s" and "no_overlap s" and "valid_ApplyLeaveRequest p"
    and "get_request s i = None"
  shows "wf_requests (fst (apply_leave i today c u caller p outcome s))
    \<and> no_overlap (fst (apply_leave i today c u caller p outcome s))"
proof (cases "apply_leave_begin today caller p s")
  case (Inl e)
  then show ?thesis using assms by (simp add: apply_leave_def)
next
  case (Inr m)
  note ok = apply_leave_begin_request_ok [OF assms(3) Inr, of i c u]
  have free: "request_span r \<inter> date_span (al_start_date p) (al_end_date p) = {}"
    if "get_request s j = Some r" "lr_employee_id r = ci_user_id caller" "active r" for j r
    using iffD1 [OF apply_leave_begin_ok_iff [OF assms(1,3)] Inr] that by blast
  have "no_overlap (add_request (new_request i c u caller p m) s)"
    using assms(2,4) free unfolding no_overlap_def by (auto simp: Int_commute) blast+
  then show ?thesis
    using apply_leave_finish_wf [OF assms(1,4) ok, of outcome] assms(2) Inr
    by (cases rule: apply_leave_finish_cases [of i c u caller p m outcome s])
      (auto simp: apply_leave_def simp del: get_request_add)
qed

lemma no_overlap_empty [simp]: "no_overlap empty_requests"
  by (simp add: no_overlap_def empty_requests_def get_request_def)

lemma serial_step_inv:
  assumes "wf_requests s \<and> no_overlap s" and "serial_step s t"
  shows "wf_requests t \<and> no_overlap t"
  using assms(2)
proof cases
  case (do_apply p i today c u caller outcome)
  then show ?thesis using apply_leave_no_overlap assms(1) by simp
next
  case (do_cancel now i caller)
  then show ?thesis
    using cancelling.op_wf [of s "(now, i, caller)"] cancelling.op_no_overlap [of s "(now, i, caller)"]
      assms(1) by simp
next
  case (do_decide now i p)
  then show ?thesis
    using deciding.op_wf [of s "(now, i, p)"] deciding.op_no_overlap [of s "(now, i, p)"]
      assms(1) by simp
qed

interpretation serial: invariant_system "\<lambda>s. s = empty_requests" serial_step
  "\<lambda>s. wf_requests s \<and> no_overlap s"
  by unfold_locales (simp, rule serial_step_inv)

text \<open>
  C18: when the handlers of the service run one at a time from the empty store, no employee is ever
  double-booked: whatever applications, cancellations and decisions came before, a calendar day
  lies in the span of at most one pending or approved request of an employee.
\<close>

theorem serial_no_double_booking:
  assumes "serial_step\<^sup>*\<^sup>* empty_requests s"
    and "get_request s i = Some r" and "active r" and "day \<in> request_span r"
    and "get_request s j = Some q" and "active q" and "day \<in> request_span q"
    and "lr_employee_id r = lr_employee_id q"
  shows "i = j"
  using serial.inv_reachable [OF refl assms(1)] assms(2-8) unfolding no_overlap_def by blast

section \<open>History of one request\<close>

definition evolved :: "LeaveRequest \<Rightarrow> LeaveRequest \<Rightarrow> bool" where
  "evolved r r' \<longleftrightarrow> same_terms r r' \<and> (r' = r \<or> status_transition (lr_status r) (lr_status r'))"

lemma evolved_refl [simp]: "evolved r r"
  by (simp add: evolved_def)

lemma evolved_trans: "evolved a b \<Longrightarrow> evolved b c \<Longrightarrow> evolved a c"
  unfolding evolved_def by (auto simp: status_transition_iff intro: same_terms_trans)

lemma evolved_frozen: "evolved r r' \<Longrightarrow> lr_status r \<noteq> PENDING \<Longrightarrow> r' = r"
  unfolding evolved_def by (auto elim: status_transition_from)

context guarded_transition
begin

lemma op_evolved:
  assumes "wf_requests s" and "get_request s i = Some r"
  shows "\<exists>r'. get_request (fst (op a s)) i = Some r' \<and> evolved r r'"
  using op_history [OF assms, of a] unfolding evolved_def by blast

end

lemma apply_leave_finish_evolved:
  assumes "get_request s i = None" and "get_request s j = Some r"
  shows "get_request (fst (apply_leave_finish i c u caller p m outcome s)) j = Some r"
  by (cases rule: apply_leave_finish_cases [of i c u caller p m outcome s]) (use assms in auto)

section \<open>Reading\<close>

lemma list_requests_eq:
  assumes "wf_requests s"
  shows "list_requests s m e i st fd td =
    Inr (map LeaveRequestResponse_from_model
      (filter (\<lambda>r. (i = None \<or> i = Some (lr_request_id r))
          \<and> (i \<noteq> None \<or> m = None \<or> m = Some (lr_reporting_manager_id r))
          \<and> (e = None \<or> e = Some (lr_employee_id r))
          \<and> (st = None \<or> st = Some (lr_status r))
          \<and> (case fd of None \<Rightarrow> True | Some d \<Rightarrow> d \<le> lr_end_date r)
          \<and> (case td of None \<Rightarrow> True | Some d \<Rightarrow> lr_start_date r \<le> d))
        (dict_values (requests_store s))))"
proof -
  let ?vs = "dict_values (requests_store s)"
  have by_id: "(case get_request s k of None \<Rightarrow> [] | Some found \<Rightarrow> [found]) =
      filter (\<lambda>r. lr_request_id r = k) ?vs" for k
    using filter_values_by_key [OF wf_requestsD(1) [OF assms], of lr_request_id k]
      wf_requestsD(3) [OF assms]
    by (simp add: get_request_def split: option.splits)
  have first: "(case i of Some k \<Rightarrow> Inr (case get_request s k of None \<Rightarrow> [] | Some found \<Rightarrow> [found])
      | None \<Rightarrow> (case m of Some m \<Rightarrow> get_requests_for_manager s m
          | None \<Rightarrow> (case e of Some e \<Rightarrow> get_requests_for_employee s e | None \<Rightarrow> Inr ?vs))) =
    Inr (filter (\<lambda>r. (i = None \<or> i = Some (lr_request_id r))
        \<and> (i \<noteq> None \<or> m = None \<or> m = Some (lr_reporting_manager_id r))
        \<and> (i \<noteq> None \<or> m \<noteq> None \<or> e = None \<or> e = Some (lr_employee_id r))) ?vs)"
    by (cases i; cases m; cases e)
      (auto simp: by_id requests_for_manager [OF assms] requests_for_employee [OF assms]
        intro!: filter_cong)
  show ?thesis
    unfolding list_requests_def first keep_if_def Let_def and_then.simps
    by (cases e; cases st; cases fd; cases td) (auto simp: intro!: arg_cong2 [of _ _ _ _ map] filter_cong)
qed


text \<open>The status filter of the history route: absent, empty or ALL in any case selects everything.\<close>

fun history_wanted :: "string option \<Rightarrow> LeaveRequest \<Rightarrow> bool" where
  "history_wanted None r = True"
| "history_wanted (Some f) r =
     (f = [] \<or> str_upper f = ''ALL'' \<or> str_upper f = LeaveStatus_value (lr_status r))"

definition history_filter_ok :: "string option \<Rightarrow> bool" where
  "history_filter_ok f \<longleftrightarrow>
     (case f of None \<Rightarrow> True
      | Some t \<Rightarrow> t = [] \<or> str_upper t = ''ALL'' \<or> str_upper t \<in> range LeaveStatus_value)"

definition history_selection :: "request_state \<Rightarrow> string \<Rightarrow> string option \<Rightarrow> LeaveRequest list" where
  "history_selection s e f =
     filter (\<lambda>r. lr_employee_id r = e \<and> history_wanted f r) (dict_values (requests_store s))"

lemma leave_history_eq:
  assumes "wf_requests s" and "history_filter_ok f"
  shows "leave_history s caller f page k =
    (let sel = history_selection s (ci_user_id caller) f; total = int (length sel)
     in Inr \<lparr>lh_items = map LeaveRequestResponse_from_model (page_slice ((page - 1) * k) k sel),
             lh_page = page, lh_page_size = k, lh_total = total,
             lh_total_pages = (if total \<noteq> 0 then (total + k - 1) div k else 0)\<rparr>)"
proof (cases "f = None \<or> f = Some [] \<or> (\<exists>t. f = Some t \<and> str_upper t = ''ALL'')")
  case True
  then have "history_selection s (ci_user_id caller) f =
      filter (\<lambda>r. lr_employee_id r = ci_user_id caller) (dict_values (requests_store s))"
    by (auto simp: history_selection_def)
  with True show ?thesis
    by (auto simp: leave_history_def requests_for_employee [OF assms(1)] Let_def)
next
  case False
  with assms(2) obtain t w where t: "f = Some t" "str_upper t = LeaveStatus_value w" "t \<noteq> []"
      "str_upper t \<noteq> ''ALL''"
    by (auto simp: history_filter_ok_def split: option.splits)
  then have "history_selection s (ci_user_id caller) f = filter (\<lambda>r. lr_status r = w)
      (filter (\<lambda>r. lr_employee_id r = ci_user_id caller) (dict_values (requests_store s)))"
    by (auto simp: history_selection_def intro!: filter_cong)
  with t show ?thesis
    by (simp add: leave_history_def requests_for_employee [OF assms(1)] Let_def)
qed

lemma leave_history_bad_filter:
  assumes "wf_requests s" and "\<not> history_filter_ok f"
  shows "\<exists>m. leave_history s caller f page k = Inl (HTTPException 400 (Msg m))"
proof -
  from assms(2) obtain t where t: "f = Some t" "t \<noteq> []" "str_upper t \<noteq> ''ALL''"
      "LeaveStatus_of (str_upper t) = None"
    by (auto simp: history_filter_ok_def LeaveStatus_of_None_iff split: option.splits)
  then show ?thesis by (simp add: leave_history_def requests_for_employee [OF assms(1)])
qed

definition history_items ::
  "request_state \<Rightarrow> CallerIdentity \<Rightarrow> string option \<Rightarrow> int \<Rightarrow> int \<Rightarrow> LeaveRequestResponse list" where
  "history_items s caller f page k =
     (case leave_history s caller f page k of Inl e \<Rightarrow> [] | Inr h \<Rightarrow> lh_items h)"

lemma page_slice_nat: "0 \<le> k \<Longrightarrow> page_slice (int n * k) k xs = take (nat k) (drop (n * nat k) xs)"
  by (simp add: page_slice_def nat_mult_distrib)

lemma total_pages_nat:
  assumes "1 \<le> k"
  shows "nat (if int n \<noteq> 0 then (int n + k - 1) div k else 0) = (n + nat k - 1) div nat k"
proof -
  have "int ((n + nat k - 1) div nat k) = (int n + k - 1) div k"
    using assms by (simp add: zdiv_int)
  moreover have "n = 0 \<Longrightarrow> (n + nat k - 1) div nat k = 0" using assms by simp
  ultimately show ?thesis by (cases "n = 0") auto
qed

text \<open>
  C29: for every page size the pages 1 to total_pages of the history, put one after the other, are
  exactly the caller's requests that match the filter, each once and in submission order; no page
  holds more than page_size items, every page reports the same total and number of pages, and pages
  past the last are empty. A filter that names no status is a 400.
\<close>

theorem history_pages_partition:
  assumes "wf_requests s" and "1 \<le> k"
  shows "if history_filter_ok f then
      (let sel = history_selection s (ci_user_id caller) f;
           total_pages = (if int (length sel) \<noteq> 0 then (int (length sel) + k - 1) div k else 0)
       in concat (map (\<lambda>n. history_items s caller f (int n + 1) k) [0..<nat total_pages]) =
            map LeaveRequestResponse_from_model sel
        \<and> (\<forall>n. \<exists>h. leave_history s caller f (int n + 1) k = Inr h
             \<and> lh_total h = int (length sel) \<and> lh_total_pages h = total_pages
             \<and> int (length (lh_items h)) \<le> k
             \<and> (nat total_pages \<le> n \<longrightarrow> lh_items h = [])))
    else (\<forall>n. \<exists>m. leave_history s caller f n k = Inl (HTTPException 400 (Msg m)))"
proof (cases "history_filter_ok f")
  case False
  then show ?thesis using leave_history_bad_filter [OF assms(1)] by simp
next
  case True
  let ?sel = "history_selection s (ci_user_id caller) f"
  let ?K = "nat k"
  let ?P = "if int (length ?sel) \<noteq> 0 then (int (length ?sel) + k - 1) div k else 0"
  have P: "nat ?P = (length ?sel + ?K - 1) div ?K" by (rule total_pages_nat [OF assms(2)])
  have covers: "length ?sel \<le> nat ?P * ?K"
    unfolding P using assms(2) by (intro ceil_div_covers) simp
  have page: "leave_history s caller f (int n + 1) k = Inr
      \<lparr>lh_items = map LeaveRequestResponse_from_model (take ?K (drop (n * ?K) ?sel)),
       lh_page = int n + 1, lh_page_size = k, lh_total = int (length ?sel), lh_total_pages = ?P\<rparr>" for n
    using assms(2) page_slice_nat [of k n ?sel] by (simp add: leave_history_eq [OF assms(1) True] Let_def)
  have "concat (map (\<lambda>n. history_items s caller f (int n + 1) k) [0..<nat ?P]) =
      map LeaveRequestResponse_from_model
        (concat (map (\<lambda>n. take ?K (drop (n * ?K) ?sel)) [0..<nat ?P]))"
    by (simp add: history_items_def page map_concat comp_def)
  also have "\<dots> = map LeaveRequestResponse_from_model ?sel"
    using covers by (simp add: concat_pages)
  finally have all: "concat (map (\<lambda>n. history_items s caller f (int n + 1) k) [0..<nat ?P]) =
      map LeaveRequestResponse_from_model ?sel" .
  have past: "drop (n * ?K) ?sel = []" if "nat ?P \<le> n" for n
  proof -
    have "length ?sel \<le> n * ?K" using covers mult_le_mono1 [OF that] by (rule le_trans)
    then show ?thesis by simp
  qed
  have "int (length (take ?K (drop (n * ?K) ?sel))) \<le> k" for n
    using assms(2) by simp
  with True all past show ?thesis
    unfolding Let_def page by (simp only: if_True) simp
qed

end
