(* ===== verification/Manager_Service.thy ===== *)
theory Manager_Service
  imports Leave_Lifecycle
begin

text \<open>
  The Manager Service (\<open>manager_service/\<close>): its clients, its view schema and its route handlers,
  which orchestrate the Leave Request and Leave Balance services. The service has no data of its
  own; a handler acts on the state of the two services and on the breakers of its process. Each
  handler is the composition of the atomic parts between its awaits.
\<close>

section \<open>World of the orchestration\<close>

text \<open>
  The two stores, the breaker the Leave Request process keeps for its balance reads, and the two
  breakers of the Manager process (every process has its own copy of the module's breakers).
\<close>

record 'b world =
  w_bal :: balance_state
  w_req :: request_state
  w_req_bal_cb :: 'b
  w_mgr_bal_cb :: 'b
  w_mgr_req_cb :: 'b

text \<open>What the environment decides about one outbound call: its fate, and the breaker's clock.\<close>

record call_env =
  ce_net :: net
  ce_before :: nat
  ce_after :: nat

section \<open>Schemas\<close>

definition valid_RejectLeaveRequest :: "string \<Rightarrow> bool" where
  "valid_RejectLeaveRequest rejection_reason \<longleftrightarrow>
     1 \<le> length rejection_reason \<and> length rejection_reason \<le> 500"

record ManagerRequestView =
  mv_employee_name :: "string option"
  mv_request :: LeaveRequestResponse

definition ManagerRequestView_from_payload :: "LeaveRequestResponse \<Rightarrow> ManagerRequestView" where
  "ManagerRequestView_from_payload data =
     \<lparr>mv_employee_name =
        (case get_user (rr_employee_id data) of None \<Rightarrow> None | Some user \<Rightarrow> Some (su_username user)),
      mv_request = data\<rparr>"

section \<open>Clients\<close>

text \<open>\<open>if status:\<close> and its kin keep a query parameter only when it is present and not empty.\<close>

definition put_if_truthy :: "string \<Rightarrow> string option \<Rightarrow> (string, string) dict \<Rightarrow> (string, string) dict" where
  "put_if_truthy k v params =
     (case v of None \<Rightarrow> params | Some x \<Rightarrow> if x = [] then params else dict_put params k x)"

definition team_params ::
  "string \<Rightarrow> string option \<Rightarrow> string option \<Rightarrow> string option \<Rightarrow> string option \<Rightarrow> (string, string) dict" where
  "team_params manager_id status employee_id from_date to_date =
     put_if_truthy ''to_date'' to_date
       (put_if_truthy ''from_date'' from_date
         (put_if_truthy ''employee_id'' employee_id
           (put_if_truthy ''status'' status [(''manager_id'', manager_id)])))"

text \<open>
  The internal list route on raw query parameters: the status is an enumeration value, the dates
  are parsed by the framework (\<open>parse_date\<close>); a parameter that does not parse is a 422.
\<close>

definition parse_param :: "(string \<Rightarrow> 'a option) \<Rightarrow> string option \<Rightarrow> 'a option result" where
  "parse_param parse v =
     (case v of
        None \<Rightarrow> Inr None
      | Some x \<Rightarrow>
          (case parse x of None \<Rightarrow> Inl (HTTPException 422 ValidationErrors) | Some a \<Rightarrow> Inr (Some a)))"

definition internal_list_endpoint ::
  "(string \<Rightarrow> date option) \<Rightarrow> (string, string) dict \<Rightarrow> request_state
    \<Rightarrow> LeaveRequestResponse list http_response" where
  "internal_list_endpoint parse_date params s =
     respond 200
       (and_then (parse_param LeaveStatus_of (dict_get params ''status'')) (\<lambda>st.
        and_then (parse_param parse_date (dict_get params ''from_date'')) (\<lambda>fd.
        and_then (parse_param parse_date (dict_get params ''to_date'')) (\<lambda>td.
          list_requests s (dict_get params ''manager_id'') (dict_get params ''employee_id'')
            (dict_get params ''request_id'') st fd td))))"

definition list_team_requests ::
  "(string \<Rightarrow> date option) \<Rightarrow> net \<Rightarrow> string \<Rightarrow> string option \<Rightarrow> string option \<Rightarrow> string option
    \<Rightarrow> string option \<Rightarrow> request_state \<Rightarrow> LeaveRequestResponse list http_response result" where
  "list_team_requests parse_date n manager_id status employee_id from_date to_date s =
     snd (http_call n (\<lambda>s. (s, internal_list_endpoint parse_date
       (team_params manager_id status employee_id from_date to_date) s)) s)"

definition client_get_request ::
  "net \<Rightarrow> string \<Rightarrow> request_state \<Rightarrow> LeaveRequestResponse list http_response result" where
  "client_get_request n request_id s =
     snd (http_call n
       (\<lambda>s. (s, respond 200 (list_requests s None None (Some request_id) None None None))) s)"

definition set_request_status ::
  "net \<Rightarrow> datetime \<Rightarrow> string \<Rightarrow> string \<Rightarrow> LeaveStatus \<Rightarrow> string option \<Rightarrow> request_state
    \<Rightarrow> request_state \<times> LeaveRequestResponse http_response result" where
  "set_request_status n now request_id manager_id new_status rejection_reason s =
     http_call n
       (update_status_endpoint now request_id
         \<lparr>sr_new_status = new_status, sr_manager_id = manager_id,
          sr_rejection_reason = rejection_reason\<rparr>) s"

definition client_deduct_balance ::
  "net \<Rightarrow> string \<Rightarrow> LeaveType \<Rightarrow> int \<Rightarrow> balance_state \<Rightarrow> balance_state \<times> DeductResponse http_response result"
where
  "client_deduct_balance n employee_id leave_type days s =
     http_call n
       (deduct_endpoint \<lparr>dr_employee_id = employee_id, dr_leave_type = leave_type, dr_days = days\<rparr>) s"

section \<open>Error mapping\<close>

definition downstream_unavailable :: exn where
  "downstream_unavailable = HTTPException 503 (Msg ''A downstream service is unavailable'')"

text \<open>\<open>_call\<close>\<close>

definition map_call_error :: "'a result \<Rightarrow> 'a result" where
  "map_call_error r =
     (case r of
        Inl (CircuitBreakerError m) \<Rightarrow> Inl downstream_unavailable
      | Inl (HTTPXError e) \<Rightarrow> Inl downstream_unavailable
      | _ \<Rightarrow> r)"

text \<open>\<open>_propagate\<close>: an error response becomes the same error of this service.\<close>

fun propagate :: "'a http_response \<Rightarrow> 'a result" where
  "propagate (Ok_response c a) = Inr a"
| "propagate (Error_response c d) = Inl (HTTPException c d)"
| "propagate (Other_response c t) =
     (if 400 \<le> c then Inl (HTTPException c (Msg t))
      else Inl (ValueError ''response body is not the expected JSON''))"

definition load_team_request ::
  "net \<Rightarrow> string \<Rightarrow> string \<Rightarrow> request_state \<Rightarrow> LeaveRequestResponse result" where
  "load_team_request n request_id manager_id s =
     and_then (map_call_error (client_get_request n request_id s)) (\<lambda>response.
     and_then (propagate response) (\<lambda>items.
       case items of
         [] \<Rightarrow> Inl (HTTPException 404 (Msg ''Leave request not found''))
       | leave_request # _ \<Rightarrow>
           if rr_reporting_manager_id leave_request \<noteq> manager_id
           then Inl (HTTPException 403 (Msg ''This request is not routed to you''))
           else Inr leave_request))"

section \<open>Handlers\<close>

definition manager_list_requests ::
  "(string \<Rightarrow> date option) \<Rightarrow> net \<Rightarrow> CallerIdentity \<Rightarrow> string option \<Rightarrow> string option \<Rightarrow> string option
    \<Rightarrow> string option \<Rightarrow> request_state \<Rightarrow> ManagerRequestView list result" where
  "manager_list_requests parse_date n caller status employee_id from_date to_date s =
     and_then (map_call_error
       (list_team_requests parse_date n (ci_user_id caller) status employee_id from_date to_date s))
       (\<lambda>response. and_then (propagate response) (\<lambda>items. Inr (map ManagerRequestView_from_payload items)))"

text \<open>Loading and the status check shared by approving and rejecting (\<open>verb\<close> names the action).\<close>

definition load_pending ::
  "string \<Rightarrow> net \<Rightarrow> string \<Rightarrow> CallerIdentity \<Rightarrow> request_state \<Rightarrow> LeaveRequestResponse result" where
  "load_pending verb n request_id caller s =
     and_then (load_team_request n request_id (ci_user_id caller) s) (\<lambda>leave_request.
       if rr_status leave_request \<noteq> PENDING
       then Inl (HTTPException 409 (Msg (''Only a PENDING request can be '' @ verb
              @ '' (current status: '' @ LeaveStatus_value (rr_status leave_request) @ '')'')))
       else Inr leave_request)"

text \<open>The deduction, through the breaker for the balance service.\<close>

definition approve_deduct ::
  "'b breaker_ops \<Rightarrow> call_env \<Rightarrow> LeaveRequestResponse \<Rightarrow> 'b \<times> balance_state
    \<Rightarrow> ('b \<times> balance_state) \<times> DeductResponse result" where
  "approve_deduct ops env leave_request cb_bal =
     (case invoke_with_breaker ops (ce_before env) (ce_after env)
             (client_deduct_balance (ce_net env) (rr_employee_id leave_request)
                (rr_leave_type leave_request) (rr_number_of_days leave_request)) cb_bal
      of (cb_bal', response) \<Rightarrow> (cb_bal', and_then (map_call_error response) propagate))"

text \<open>The status update, through the breaker for the request service.\<close>

definition decide_update ::
  "'b breaker_ops \<Rightarrow> call_env \<Rightarrow> datetime \<Rightarrow> string \<Rightarrow> string \<Rightarrow> LeaveStatus \<Rightarrow> string option
    \<Rightarrow> 'b \<times> request_state \<Rightarrow> ('b \<times> request_state) \<times> LeaveRequestResponse result" where
  "decide_update ops env now request_id manager_id new_status rejection_reason cb_req =
     (case invoke_with_breaker ops (ce_before env) (ce_after env)
             (set_request_status (ce_net env) now request_id manager_id new_status rejection_reason) cb_req
      of (cb_req', response) \<Rightarrow> (cb_req', and_then (map_call_error response) propagate))"

definition approved_event :: "LeaveRequestResponse \<Rightarrow> string \<Rightarrow> event" where
  "approved_event leave_request request_id =
     (LEAVE_APPROVED,
      [(''employee_id'', JStr (rr_employee_id leave_request)),
       (''leave_request_id'', JStr request_id)])"

definition rejected_event :: "LeaveRequestResponse \<Rightarrow> string \<Rightarrow> string \<Rightarrow> event" where
  "rejected_event leave_request request_id reason =
     (LEAVE_REJECTED,
      [(''employee_id'', JStr (rr_employee_id leave_request)),
       (''leave_request_id'', JStr request_id),
       (''reason'', JStr reason)])"

definition approve_request ::
  "'b breaker_ops \<Rightarrow> net \<Rightarrow> call_env \<Rightarrow> call_env \<Rightarrow> datetime \<Rightarrow> string \<Rightarrow> CallerIdentity
    \<Rightarrow> 'b world \<Rightarrow> 'b world \<times> event list \<times> ManagerRequestView result" where
  "approve_request ops n_load env_deduct env_update now request_id caller w =
     (case load_pending ''approved'' n_load request_id caller (w_req w) of
        Inl e \<Rightarrow> (w, [], Inl e)
      | Inr leave_request \<Rightarrow>
          (case approve_deduct ops env_deduct leave_request (w_mgr_bal_cb w, w_bal w) of
             ((cb, bal), deducted) \<Rightarrow>
               let w1 = w\<lparr>w_mgr_bal_cb := cb, w_bal := bal\<rparr>
               in (case deducted of
                     Inl e \<Rightarrow> (w1, [], Inl e)
                   | Inr _ \<Rightarrow>
                       (case decide_update ops env_update now request_id (ci_user_id caller) APPROVED None
                               (w_mgr_req_cb w1, w_req w1) of
                          ((cb', req), updated) \<Rightarrow>
                            let w2 = w1\<lparr>w_mgr_req_cb := cb', w_req := req\<rparr>
                            in (case updated of
                                  Inl e \<Rightarrow> (w2, [], Inl e)
                                | Inr view \<Rightarrow>
                                    (w2, [approved_event leave_request request_id],
                                     Inr (ManagerRequestView_from_payload view)))))))"

definition reject_request ::
  "'b breaker_ops \<Rightarrow> net \<Rightarrow> call_env \<Rightarrow> datetime \<Rightarrow> string \<Rightarrow> string \<Rightarrow> CallerIdentity
    \<Rightarrow> 'b world \<Rightarrow> 'b world \<times> event list \<times> ManagerRequestView result" where
  "reject_request ops n_load env_update now request_id rejection_reason caller w =
     (case load_pending ''rejected'' n_load request_id caller (w_req w) of
        Inl e \<Rightarrow> (w, [], Inl e)
      | Inr leave_request \<Rightarrow>
          (case decide_update ops env_update now request_id (ci_user_id caller) REJECTED
                  (Some rejection_reason) (w_mgr_req_cb w, w_req w) of
             ((cb, req), updated) \<Rightarrow>
               let w1 = w\<lparr>w_mgr_req_cb := cb, w_req := req\<rparr>
               in (case updated of
                     Inl e \<Rightarrow> (w1, [], Inl e)
                   | Inr view \<Rightarrow>
                       (w1, [rejected_event leave_request request_id rejection_reason],
                        Inr (ManagerRequestView_from_payload view)))))"

text \<open>
  The routes as the framework runs them: the manager dependency first, then the declared checks of
  the body, then the handler.
\<close>

definition manager_list_endpoint ::
  "(string \<Rightarrow> date option) \<Rightarrow> net \<Rightarrow> string option \<Rightarrow> string option \<Rightarrow> string option \<Rightarrow> string option
    \<Rightarrow> string option \<Rightarrow> string option \<Rightarrow> request_state \<Rightarrow> ManagerRequestView list http_response" where
  "manager_list_endpoint parse_date n x_user_id x_user_role status employee_id from_date to_date s =
     respond 200 (and_then (require_manager (get_caller x_user_id x_user_role)) (\<lambda>caller.
       manager_list_requests parse_date n caller status employee_id from_date to_date s))"

definition approve_endpoint ::
  "'b breaker_ops \<Rightarrow> net \<Rightarrow> call_env \<Rightarrow> call_env \<Rightarrow> datetime \<Rightarrow> string \<Rightarrow> string option \<Rightarrow> string option
    \<Rightarrow> 'b world \<Rightarrow> 'b world \<times> event list \<times> ManagerRequestView http_response" where
  "approve_endpoint ops n_load env_deduct env_update now request_id x_user_id x_user_role w =
     (case require_manager (get_caller x_user_id x_user_role) of
        Inl e \<Rightarrow> (w, [], respond 200 (Inl e))
      | Inr caller \<Rightarrow>
          (case approve_request ops n_load env_deduct env_update now request_id caller w of
             (w', evs, r) \<Rightarrow> (w', evs, respond 200 r)))"

definition reject_endpoint ::
  "'b breaker_ops \<Rightarrow> net \<Rightarrow> call_env \<Rightarrow> datetime \<Rightarrow> string \<Rightarrow> string \<Rightarrow> string option \<Rightarrow> string option
    \<Rightarrow> 'b world \<Rightarrow> 'b world \<times> event list \<times> ManagerRequestView http_response" where
  "reject_endpoint ops n_load env_update now request_id rejection_reason x_user_id x_user_role w =
     (case require_manager (get_caller x_user_id x_user_role) of
        Inl e \<Rightarrow> (w, [], respond 200 (Inl e))
      | Inr caller \<Rightarrow>
          if \<not> valid_RejectLeaveRequest rejection_reason then (w, [], Error_response 422 ValidationErrors)
          else (case reject_request ops n_load env_update now request_id rejection_reason caller w of
             (w', evs, r) \<Rightarrow> (w', evs, respond 200 r)))"

section \<open>What each part does\<close>

lemma propagate_respond: "propagate (respond c r) = (case r of
    Inr a \<Rightarrow> Inr a
  | Inl (HTTPException c d) \<Rightarrow> Inl (HTTPException c d)
  | Inl _ \<Rightarrow> Inl (HTTPException 500 (Msg ''Internal server error'')))"
  by (auto simp: respond_def split: sum.splits exn.splits)

lemma map_call_error_Inr_iff [simp]: "map_call_error r = Inr a \<longleftrightarrow> r = Inr a"
  by (auto simp: map_call_error_def split: sum.splits exn.splits)

lemma list_by_id:
  assumes "wf_requests s"
  shows "list_requests s None None (Some i) None None None =
    Inr (case get_request s i of None \<Rightarrow> [] | Some r \<Rightarrow> [LeaveRequestResponse_from_model r])"
  by (simp add: list_requests_def keep_if_def Let_def split: option.splits)

lemma from_model_simps [simp]:
  "rr_request_id (LeaveRequestResponse_from_model r) = lr_request_id r"
  "rr_employee_id (LeaveRequestResponse_from_model r) = lr_employee_id r"
  "rr_leave_type (LeaveRequestResponse_from_model r) = lr_leave_type r"
  "rr_number_of_days (LeaveRequestResponse_from_model r) = lr_number_of_days r"
  "rr_status (LeaveRequestResponse_from_model r) = lr_status r"
  "rr_reporting_manager_id (LeaveRequestResponse_from_model r) = lr_reporting_manager_id r"
  "rr_rejection_reason (LeaveRequestResponse_from_model r) = lr_rejection_reason r"
  by (simp_all add: LeaveRequestResponse_from_model_def)

lemma load_pending_ok_iff:
  assumes "wf_requests s"
  shows "load_pending verb n i caller s = Inr lr \<longleftrightarrow>
    n = Delivered \<and> (\<exists>r. get_request s i = Some r \<and> lr_status r = PENDING
      \<and> lr_reporting_manager_id r = ci_user_id caller \<and> lr = LeaveRequestResponse_from_model r)"
  by (cases n; cases "get_request s i")
    (auto simp: load_pending_def load_team_request_def client_get_request_def list_by_id [OF assms]
      http_call_def map_call_error_def and_then_Inr_iff)

definition deduct_request_of :: "LeaveRequestResponse \<Rightarrow> DeductRequest" where
  "deduct_request_of lr =
     \<lparr>dr_employee_id = rr_employee_id lr, dr_leave_type = rr_leave_type lr, dr_days = rr_number_of_days lr\<rparr>"

lemma client_deduct_eq:
  "client_deduct_balance n (rr_employee_id lr) (rr_leave_type lr) (rr_number_of_days lr) =
     http_call n (deduct_endpoint (deduct_request_of lr))"
  by (simp add: client_deduct_balance_def deduct_request_of_def fun_eq_iff)

text \<open>The balance store after the deduction step: untouched or as the route leaves it.\<close>

lemma approve_deduct_world:
  "snd (fst (approve_deduct ops env lr (cb, bal))) =
     (if cb_current_state ops (ce_before env) cb = ''open'' then bal
      else fst (http_call (ce_net env) (deduct_endpoint (deduct_request_of lr)) bal))"
proof -
  let ?i = "invoke_with_breaker ops (ce_before env) (ce_after env)
      (http_call (ce_net env) (deduct_endpoint (deduct_request_of lr))) (cb, bal)"
  have "snd (fst (approve_deduct ops env lr (cb, bal))) = snd (fst ?i)"
    unfolding approve_deduct_def client_deduct_eq by (simp split: prod.splits)
  then show ?thesis by (simp add: invoke_world)
qed

lemma approve_deduct_bal:
  "snd (fst (approve_deduct ops env lr (cb, bal))) = bal
   \<or> snd (fst (approve_deduct ops env lr (cb, bal))) = fst (deduct_endpoint (deduct_request_of lr) bal)"
  using http_call_state [of "ce_net env" "deduct_endpoint (deduct_request_of lr)" bal]
  by (auto simp: approve_deduct_world)

lemma approve_deduct_ok:
  assumes "snd (approve_deduct ops env lr (cb, bal)) = Inr d"
  shows "snd (fst (approve_deduct ops env lr (cb, bal))) = fst (deduct_endpoint (deduct_request_of lr) bal)"
    and "snd (deduct_endpoint (deduct_request_of lr) bal) = Ok_response 200 d"
proof -
  let ?h = "deduct_endpoint (deduct_request_of lr)"
  let ?i = "invoke_with_breaker ops (ce_before env) (ce_after env) (http_call (ce_net env) ?h) (cb, bal)"
  from assms obtain resp where i: "snd ?i = Inr resp" and p: "propagate resp = Inr d"
    unfolding approve_deduct_def client_deduct_eq by (auto simp: and_then_Inr_iff split: prod.splits)
  then have closed: "cb_current_state ops (ce_before env) cb \<noteq> ''open''"
    and call: "snd (http_call (ce_net env) ?h bal) = Inr resp"
    by (auto simp: invoke_ok_iff)
  then have n: "ce_net env = Delivered" and resp: "resp = snd (?h bal)"
    by (auto simp: http_call_def split: net.splits prod.splits)
  show "snd (fst (approve_deduct ops env lr (cb, bal))) = fst (?h bal)"
    using closed n by (simp add: approve_deduct_world)
  show "snd (?h bal) = Ok_response 200 d"
    using p resp by (cases rule: deduct_endpoint_cases [of "deduct_request_of lr" bal]) auto
qed

text \<open>The same for the status update.\<close>

lemma set_request_status_eq:
  "set_request_status n now i m st why =
     http_call n (update_status_endpoint now i
       \<lparr>sr_new_status = st, sr_manager_id = m, sr_rejection_reason = why\<rparr>)"
  by (simp add: set_request_status_def fun_eq_iff)

lemma decide_update_world:
  "snd (fst (decide_update ops env now i m st why (cb, req))) =
     (if cb_current_state ops (ce_before env) cb = ''open'' then req
      else fst (http_call (ce_net env) (update_status_endpoint now i
             \<lparr>sr_new_status = st, sr_manager_id = m, sr_rejection_reason = why\<rparr>) req))"
proof -
  let ?i = "invoke_with_breaker ops (ce_before env) (ce_after env)
      (http_call (ce_net env) (update_status_endpoint now i
         \<lparr>sr_new_status = st, sr_manager_id = m, sr_rejection_reason = why\<rparr>)) (cb, req)"
  have "snd (fst (decide_update ops env now i m st why (cb, req))) = snd (fst ?i)"
    unfolding decide_update_def set_request_status_eq by (simp split: prod.splits)
  then show ?thesis by (simp add: invoke_world)
qed

lemma decide_update_req:
  "snd (fst (decide_update ops env now i m st why (cb, req))) = req
   \<or> snd (fst (decide_update ops env now i m st why (cb, req))) =
       fst (update_status_endpoint now i
         \<lparr>sr_new_status = st, sr_manager_id = m, sr_rejection_reason = why\<rparr> req)"
  using http_call_state [of "ce_net env" "update_status_endpoint now i
      \<lparr>sr_new_status = st, sr_manager_id = m, sr_rejection_reason = why\<rparr>" req]
  by (auto simp: decide_update_world)

lemma update_status_endpoint_state:
  "fst (update_status_endpoint now i p s) =
     (if valid_StatusUpdateRequest p then fst (update_request_status now i p s) else s)"
  by (auto simp: update_status_endpoint_def split: prod.splits)

lemma update_status_endpoint_Ok:
  assumes "snd (update_status_endpoint now i p s) = Ok_response c b"
  shows "update_request_status now i p s = (fst (update_status_endpoint now i p s), Inr b)"
  using assms by (auto simp: update_status_endpoint_def respond_Ok_iff split: prod.splits if_splits)

lemma decide_update_ok:
  assumes "snd (decide_update ops env now i m st why (cb, req)) = Inr b"
  shows "update_request_status now i \<lparr>sr_new_status = st, sr_manager_id = m, sr_rejection_reason = why\<rparr> req
    = (snd (fst (decide_update ops env now i m st why (cb, req))), Inr b)"
proof -
  let ?p = "\<lparr>sr_new_status = st, sr_manager_id = m, sr_rejection_reason = why\<rparr>"
  let ?h = "update_status_endpoint now i ?p"
  let ?i = "invoke_with_breaker ops (ce_before env) (ce_after env) (http_call (ce_net env) ?h) (cb, req)"
  from assms obtain resp where ir: "snd ?i = Inr resp" and pr: "propagate resp = Inr b"
    unfolding decide_update_def set_request_status_eq by (auto simp: and_then_Inr_iff split: prod.splits)
  then have closed: "cb_current_state ops (ce_before env) cb \<noteq> ''open''"
    and call: "snd (http_call (ce_net env) ?h req) = Inr resp"
    by (auto simp: invoke_ok_iff)
  then have n: "ce_net env = Delivered" and resp: "resp = snd (?h req)"
    by (auto simp: http_call_def split: net.splits prod.splits)
  have st: "snd (fst (decide_update ops env now i m st why (cb, req))) = fst (?h req)"
    using closed n by (simp add: decide_update_world)
  from pr obtain c where "resp = Ok_response c b" by (cases resp) (auto split: if_splits)
  with resp have "snd (?h req) = Ok_response c b" by simp
  from update_status_endpoint_Ok [OF this] st show ?thesis by simp
qed

end
