(* ===== verification/Manager_Decisions.thy ===== *)
theory Manager_Decisions
  imports Manager_Service
begin

text \<open>
  Properties of the manager's handlers: what approving and rejecting do to the two stores when every
  call is answered, and what they can do when a call is refused by a breaker, lost on the way, or
  carried out with its reply lost.
\<close>

section \<open>Requests that satisfy the invariant are acceptable to the callees\<close>

lemma request_ok_days_pos: "request_ok r \<Longrightarrow> 0 < lr_number_of_days r"
proof -
  assume ok: "request_ok r"
  then have d: "valid_date (lr_start_date r)" "valid_date (lr_end_date r)"
    "lr_start_date r \<le> lr_end_date r"
    by (simp_all add: request_ok_def)
  have "lr_start_date r \<in> date_span (lr_start_date r) (lr_end_date r)"
    using d by (simp add: date_span_def)
  then have "date_span (lr_start_date r) (lr_end_date r) \<noteq> {}" by blast
  moreover have "finite (date_span (lr_start_date r) (lr_end_date r))" using d by simp
  ultimately have "0 < int (card (date_span (lr_start_date r) (lr_end_date r)))" by (simp add: card_gt_0_iff)
  then show ?thesis using card_date_span [OF d] ok by (simp add: request_ok_def)
qed

lemma request_ok_ids:
  "request_ok r \<Longrightarrow> lr_employee_id r \<noteq> []"
  "request_ok r \<Longrightarrow> lr_reporting_manager_id r \<noteq> []"
  by (auto simp: request_ok_def get_manager_id_eq split: if_splits)

lemma deduct_request_of_simps [simp]:
  "dr_employee_id (deduct_request_of (LeaveRequestResponse_from_model r)) = lr_employee_id r"
  "dr_leave_type (deduct_request_of (LeaveRequestResponse_from_model r)) = lr_leave_type r"
  "dr_days (deduct_request_of (LeaveRequestResponse_from_model r)) = lr_number_of_days r"
  by (simp_all add: deduct_request_of_def)

definition request_key :: "LeaveRequest \<Rightarrow> string \<times> LeaveType" where
  "request_key r = (lr_employee_id r, lr_leave_type r)"

lemma deduct_key_request [simp]:
  "deduct_key (deduct_request_of (LeaveRequestResponse_from_model r)) = request_key r"
  by (simp add: deduct_key_def request_key_def)

lemma deduct_request_valid:
  "request_ok r \<Longrightarrow> valid_DeductRequest (deduct_request_of (LeaveRequestResponse_from_model r))"
  using request_ok_ids(1) [of r] request_ok_days_pos [of r]
  by (simp add: valid_DeductRequest_def Suc_le_eq)

text \<open>The status of the deduction of a request.\<close>

definition deduct_status :: "balance_state \<Rightarrow> LeaveRequest \<Rightarrow> int" where
  "deduct_status s r =
     (case get_balance s (lr_employee_id r) (lr_leave_type r) of
        None \<Rightarrow> 404
      | Some b \<Rightarrow> if lb_total_allocated b < lb_used b + lr_number_of_days r then 409 else 200)"

lemma deduct_of_request:
  assumes "request_ok r"
  shows "status_code (snd (deduct_endpoint (deduct_request_of (LeaveRequestResponse_from_model r)) s)) =
    deduct_status s r"
  by (cases rule: deduct_endpoint_cases [of "deduct_request_of (LeaveRequestResponse_from_model r)" s])
    (use deduct_request_valid [OF assms] in
      \<open>auto simp: deduct_status_def lb_remaining_def apply_deduction_ok_iff\<close>)

lemma deduct_status_200_iff:
  "request_ok r \<Longrightarrow> deduct_status s r = 200 \<longleftrightarrow>
    used_days s (request_key r) + lr_number_of_days r \<le> allocated_days s (request_key r)"
  using request_ok_days_pos [of r]
  by (auto simp: deduct_status_def used_days_def allocated_days_def request_key_def split: option.splits)

lemma propagate_deduct:
  "propagate (snd (deduct_endpoint p s)) =
    (case snd (deduct_endpoint p s) of Ok_response c a \<Rightarrow> Inr a | Error_response c d \<Rightarrow> Inl (HTTPException c d))"
  by (cases rule: deduct_endpoint_cases [of p s]) auto

lemma deduct_endpoint_error_state:
  "status_code (snd (deduct_endpoint p s)) \<noteq> 200 \<Longrightarrow>
   fst (deduct_endpoint p s) = s \<and>
   (\<exists>d. propagate (snd (deduct_endpoint p s)) =
     Inl (HTTPException (status_code (snd (deduct_endpoint p s))) d))"
  by (cases rule: deduct_endpoint_cases [of p s]) auto

lemma deduct_endpoint_ok:
  "status_code (snd (deduct_endpoint p s)) = 200 \<Longrightarrow>
   \<exists>a. snd (deduct_endpoint p s) = Ok_response 200 a \<and> propagate (snd (deduct_endpoint p s)) = Inr a"
  by (cases rule: deduct_endpoint_cases [of p s]) auto

section \<open>The two remote steps with every call answered\<close>

definition breaker_healthy :: "'b breaker_ops \<Rightarrow> 'b \<Rightarrow> bool" where
  "breaker_healthy ops b \<longleftrightarrow> (\<forall>t. cb_current_state ops t b \<noteq> ''open'')"

lemma map_call_error_Inr' [simp]: "map_call_error (Inr a) = Inr a"
  by simp

lemma approve_deduct_answered:
  assumes "passes_success ops" and "stored_state ops" and "breaker_healthy ops cb"
    and "ce_net env = Delivered"
  shows "snd (approve_deduct ops env lr (cb, bal)) = propagate (snd (deduct_endpoint (deduct_request_of lr) bal))"
    and "snd (fst (approve_deduct ops env lr (cb, bal))) = fst (deduct_endpoint (deduct_request_of lr) bal)"
proof -
  have closed: "cb_current_state ops (ce_before env) cb \<noteq> ''open''"
    using assms(3) by (simp add: breaker_healthy_def)
  let ?i = "invoke_with_breaker ops (ce_before env) (ce_after env)
      (http_call (ce_net env) (deduct_endpoint (deduct_request_of lr))) (cb, bal)"
  have "snd (approve_deduct ops env lr (cb, bal)) = and_then (map_call_error (snd ?i)) propagate"
    unfolding approve_deduct_def client_deduct_eq by (simp split: prod.splits)
  also have "snd ?i = Inr (snd (deduct_endpoint (deduct_request_of lr) bal))"
    by (simp add: invoke_transparent [OF assms(1,2) closed] assms(4))
  finally show "snd (approve_deduct ops env lr (cb, bal)) =
      propagate (snd (deduct_endpoint (deduct_request_of lr) bal))" by simp
  show "snd (fst (approve_deduct ops env lr (cb, bal))) = fst (deduct_endpoint (deduct_request_of lr) bal)"
    using closed assms(4) by (simp add: approve_deduct_world)
qed

lemma decide_update_answered:
  fixes st why m
  defines "p \<equiv> \<lparr>sr_new_status = st, sr_manager_id = m, sr_rejection_reason = why\<rparr>"
  assumes "passes_success ops" and "stored_state ops" and "breaker_healthy ops cb"
    and "ce_net env = Delivered"
  shows "snd (decide_update ops env now i m st why (cb, req)) = propagate (snd (update_status_endpoint now i p req))"
    and "snd (fst (decide_update ops env now i m st why (cb, req))) = fst (update_status_endpoint now i p req)"
proof -
  have closed: "cb_current_state ops (ce_before env) cb \<noteq> ''open''"
    using assms(4) by (simp add: breaker_healthy_def)
  let ?i = "invoke_with_breaker ops (ce_before env) (ce_after env)
      (http_call (ce_net env) (update_status_endpoint now i p)) (cb, req)"
  have "snd (decide_update ops env now i m st why (cb, req)) = and_then (map_call_error (snd ?i)) propagate"
    unfolding decide_update_def set_request_status_eq p_def by (simp split: prod.splits)
  also have "snd ?i = Inr (snd (update_status_endpoint now i p req))"
    by (simp add: invoke_transparent [OF assms(2,3) closed] assms(5))
  finally show "snd (decide_update ops env now i m st why (cb, req)) =
      propagate (snd (update_status_endpoint now i p req))" by simp
  show "snd (fst (decide_update ops env now i m st why (cb, req))) = fst (update_status_endpoint now i p req)"
    using closed assms(5) unfolding p_def by (simp add: decide_update_world)
qed

text \<open>A decided version of a pending request.\<close>

definition decided :: "datetime \<Rightarrow> LeaveStatus \<Rightarrow> string option \<Rightarrow> LeaveRequest \<Rightarrow> LeaveRequest" where
  "decided now st why r =
     r\<lparr>lr_status := st, lr_rejection_reason := (if st = REJECTED then why else None), lr_updated_at := now\<rparr>"

lemma decided_id [simp]: "lr_request_id (decided now st why r) = lr_request_id r"
  by (simp add: decided_def)

lemma update_status_accepts:
  assumes "get_request s i = Some r" and "lr_status r = PENDING"
    and "lr_reporting_manager_id r = sr_manager_id p" and "valid_StatusUpdateRequest p" and "decision_ok p"
  shows "update_status_endpoint now i p s =
    (replace_request (decided now (sr_new_status p) (sr_rejection_reason p) r) s,
     Ok_response 200 (LeaveRequestResponse_from_model (decided now (sr_new_status p) (sr_rejection_reason p) r)))"
proof -
  have "update_request_status now i p s =
      (replace_request (decided now (sr_new_status p) (sr_rejection_reason p) r) s,
       Inr (LeaveRequestResponse_from_model (decided now (sr_new_status p) (sr_rejection_reason p) r)))"
    using assms by (auto simp: update_request_status_ok_iff decided_def Let_def)
  with assms(4) show ?thesis by (simp add: update_status_endpoint_def)
qed

section \<open>Loading\<close>

definition load_status :: "request_state \<Rightarrow> string \<Rightarrow> string \<Rightarrow> int" where
  "load_status s i m =
     (case get_request s i of
        None \<Rightarrow> 404
      | Some r \<Rightarrow> if lr_reporting_manager_id r \<noteq> m then 403 else if lr_status r \<noteq> PENDING then 409 else 200)"

lemma load_pending_answered:
  assumes "wf_requests s"
  obtains (ok) r where "load_pending verb Delivered i caller s = Inr (LeaveRequestResponse_from_model r)"
      "load_status s i (ci_user_id caller) = 200"
      "get_request s i = Some r" "lr_status r = PENDING" "lr_reporting_manager_id r = ci_user_id caller"
    | (error) d where "load_pending verb Delivered i caller s =
        Inl (HTTPException (load_status s i (ci_user_id caller)) d)"
      "load_status s i (ci_user_id caller) \<noteq> 200"
proof (cases "load_status s i (ci_user_id caller) = 200")
  case True
  then obtain r where r: "get_request s i = Some r" "lr_status r = PENDING"
      "lr_reporting_manager_id r = ci_user_id caller"
    by (auto simp: load_status_def split: option.splits if_splits)
  with True ok load_pending_ok_iff [OF assms, of verb Delivered i caller "LeaveRequestResponse_from_model r"]
  show thesis by auto
next
  case False
  then have "\<exists>d. load_pending verb Delivered i caller s =
      Inl (HTTPException (load_status s i (ci_user_id caller)) d)"
    by (auto simp: load_pending_def load_team_request_def client_get_request_def list_by_id [OF assms]
        load_status_def split: option.splits)
  with False error show thesis by blast
qed

section \<open>Approving\<close>

text \<open>The status the approve route answers, from the state of the two stores.\<close>

definition approve_status :: "'b world \<Rightarrow> string \<Rightarrow> string \<Rightarrow> int" where
  "approve_status w i m =
     (if load_status (w_req w) i m \<noteq> 200 then load_status (w_req w) i m
      else case get_request (w_req w) i of None \<Rightarrow> 404 | Some r \<Rightarrow> deduct_status (w_bal w) r)"

lemma approve_answered:
  assumes ops: "passes_success ops" "stored_state ops"
    and healthy: "breaker_healthy ops (w_mgr_bal_cb w)" "breaker_healthy ops (w_mgr_req_cb w)"
    and net: "ce_net env1 = Delivered" "ce_net env2 = Delivered"
    and wf: "wf_requests (w_req w)"
    and run: "approve_request ops Delivered env1 env2 now i caller w = (w', evs, resp)"
  shows "if approve_status w i (ci_user_id caller) = 200
    then (\<exists>r. get_request (w_req w) i = Some r
      \<and> w_req w' = replace_request (decided now APPROVED None r) (w_req w)
      \<and> w_bal w' = fst (deduct_endpoint (deduct_request_of (LeaveRequestResponse_from_model r)) (w_bal w))
      \<and> deduct_status (w_bal w) r = 200
      \<and> evs = [approved_event (LeaveRequestResponse_from_model r) i]
      \<and> resp = Inr (ManagerRequestView_from_payload
                (LeaveRequestResponse_from_model (decided now APPROVED None r))))
    else w_bal w' = w_bal w \<and> w_req w' = w_req w \<and> evs = []
      \<and> (\<exists>d. resp = Inl (HTTPException (approve_status w i (ci_user_id caller)) d))"
  using wf
proof (cases rule: load_pending_answered [of "w_req w" "''approved''" i caller])
  case (error d)
  with run show ?thesis by (auto simp: approve_request_def approve_status_def)
next
  case (ok r)
  let ?lr = "LeaveRequestResponse_from_model r"
  let ?d = "deduct_endpoint (deduct_request_of ?lr) (w_bal w)"
  have rok: "request_ok r" using wf_requestsD(4) [OF wf ok(3)] .
  have st: "approve_status w i (ci_user_id caller) = deduct_status (w_bal w) r"
    using ok by (simp add: approve_status_def)
  obtain cb bal dres where d: "approve_deduct ops env1 ?lr (w_mgr_bal_cb w, w_bal w) = ((cb, bal), dres)"
    by (metis prod.collapse)
  note da = approve_deduct_answered [OF ops healthy(1) net(1), of ?lr "w_bal w", unfolded d, simplified]
  show ?thesis
  proof (cases "deduct_status (w_bal w) r = 200")
    case False
    then have e: "fst ?d = w_bal w" "\<exists>x. propagate (snd ?d) = Inl (HTTPException (deduct_status (w_bal w) r) x)"
      using deduct_endpoint_error_state [of "deduct_request_of ?lr" "w_bal w"]
        deduct_of_request [OF rok, of "w_bal w"] by auto
    with run ok d da False show ?thesis
      unfolding st by (auto simp: approve_request_def Let_def)
  next
    case True
    then obtain a where a: "propagate (snd ?d) = Inr a"
      using deduct_endpoint_ok [of "deduct_request_of ?lr" "w_bal w"]
        deduct_of_request [OF rok, of "w_bal w"] by auto
    let ?p = "\<lparr>sr_new_status = APPROVED, sr_manager_id = ci_user_id caller, sr_rejection_reason = None\<rparr>"
    have "valid_StatusUpdateRequest ?p" "decision_ok ?p"
      using ok(5) request_ok_ids(2) [OF rok] by (auto simp: valid_StatusUpdateRequest_def decision_ok_def Suc_le_eq)
    from update_status_accepts [OF ok(3,4) _ this, of now] ok(5)
    have u: "update_status_endpoint now i ?p (w_req w) =
      (replace_request (decided now APPROVED None r) (w_req w),
       Ok_response 200 (LeaveRequestResponse_from_model (decided now APPROVED None r)))" by simp
    obtain cb' req ures where
      e: "decide_update ops env2 now i (ci_user_id caller) APPROVED None (w_mgr_req_cb w, w_req w) = ((cb', req), ures)"
      by (metis prod.collapse)
    note ea = decide_update_answered [OF ops healthy(2) net(2), of now i "ci_user_id caller" APPROVED None "w_req w",
        unfolded e u, simplified]
    from run ok d e da ea a True show ?thesis
      unfolding st by (auto simp: approve_request_def Let_def)
  qed
qed

text \<open>
  C11: when both breakers of the manager's process let calls through and every call is answered,
  approving is all or nothing. It succeeds exactly when the request exists (404 otherwise), is
  routed to the caller (403), is pending (409), its employee has a balance record of its type (404)
  and the days fit in the allocation (409). A success marks this request and no other APPROVED,
  adds its days to the used days of its employee and type and of no other, and publishes one
  LEAVE_APPROVED event; a refusal changes neither store, publishes nothing and carries the status.
\<close>

theorem approve_all_or_nothing:
  assumes "passes_success ops" and "stored_state ops"
    and "breaker_healthy ops (w_mgr_bal_cb w)" and "breaker_healthy ops (w_mgr_req_cb w)"
    and "ce_net env1 = Delivered" and "ce_net env2 = Delivered"
    and "wf_requests (w_req w)" and "wf_balances (w_bal w)"
    and "approve_request ops Delivered env1 env2 now i caller w = (w', evs, resp)"
  shows "if approve_status w i (ci_user_id caller) = 200
    then (\<exists>r. get_request (w_req w) i = Some r \<and> lr_status r = PENDING
      \<and> lr_reporting_manager_id r = ci_user_id caller
      \<and> (\<forall>j. get_request (w_req w') j = (if j = i then Some (decided now APPROVED None r) else get_request (w_req w) j))
      \<and> (\<forall>k. used_days (w_bal w') k = used_days (w_bal w) k + (if k = request_key r then lr_number_of_days r else 0))
      \<and> used_days (w_bal w) (request_key r) + lr_number_of_days r \<le> allocated_days (w_bal w) (request_key r)
      \<and> evs = [approved_event (LeaveRequestResponse_from_model r) i] \<and> is_ok resp)
    else w_bal w' = w_bal w \<and> w_req w' = w_req w \<and> evs = []
      \<and> (\<exists>d. resp = Inl (HTTPException (approve_status w i (ci_user_id caller)) d))"
proof (cases "approve_status w i (ci_user_id caller) = 200")
  case False
  with approve_answered [OF assms(1-7,9)] show ?thesis by simp
next
  case True
  with approve_answered [OF assms(1-7,9)] obtain r where r: "get_request (w_req w) i = Some r"
    "w_req w' = replace_request (decided now APPROVED None r) (w_req w)"
    "w_bal w' = fst (deduct_endpoint (deduct_request_of (LeaveRequestResponse_from_model r)) (w_bal w))"
    "deduct_status (w_bal w) r = 200"
    "evs = [approved_event (LeaveRequestResponse_from_model r) i]" "is_ok resp" by auto
  note rok = wf_requestsD(4) [OF assms(7) r(1)]
  have "load_status (w_req w) i (ci_user_id caller) = 200"
    using True by (auto simp: approve_status_def split: if_splits)
  then have "lr_status r = PENDING" "lr_reporting_manager_id r = ci_user_id caller"
    using r(1) by (auto simp: load_status_def split: if_splits)
  moreover have "lr_request_id r = i" using wf_requestsD(3) [OF assms(7) r(1)] .
  moreover have "used_days (w_bal w') k = used_days (w_bal w) k + (if k = request_key r then lr_number_of_days r else 0)" for k
    using deduct_endpoint_used [OF assms(8), of "deduct_request_of (LeaveRequestResponse_from_model r)" k]
      deduct_of_request [OF rok, of "w_bal w"] r(3,4) by auto
  ultimately show ?thesis
    using True r deduct_status_200_iff [OF rok, of "w_bal w"] by auto
qed
section \<open>Approving over a network that fails\<close>

text \<open>The days of a request are added to its key, and no other key changes.\<close>

definition charged :: "balance_state \<Rightarrow> balance_state \<Rightarrow> LeaveRequest \<Rightarrow> bool" where
  "charged s s' r \<longleftrightarrow>
     (\<forall>k. used_days s' k = used_days s k + (if k = request_key r then lr_number_of_days r else 0))"

lemma deduct_endpoint_charged:
  assumes "wf_balances s"
    and "status_code (snd (deduct_endpoint (deduct_request_of (LeaveRequestResponse_from_model r)) s)) = 200"
  shows "charged s (fst (deduct_endpoint (deduct_request_of (LeaveRequestResponse_from_model r)) s)) r"
  using deduct_endpoint_used [OF assms(1), of "deduct_request_of (LeaveRequestResponse_from_model r)"] assms(2)
  by (simp add: charged_def eq_commute [of "request_key r"] del: split_paired_All)

lemma approve_deduct_effect:
  assumes "wf_balances bal" and "request_ok r"
    and "approve_deduct ops env (LeaveRequestResponse_from_model r) (cb, bal) = ((cb', bal'), res)"
  shows "bal' = bal \<and> \<not> is_ok res
    \<or> charged bal bal' r"
    and "wf_balances bal'"
proof -
  let ?p = "deduct_request_of (LeaveRequestResponse_from_model r)"
  note u = deduct_endpoint_charged [OF assms(1), of r]
  have s: "bal' = bal \<or> bal' = fst (deduct_endpoint ?p bal)"
    using approve_deduct_bal [of ops env "LeaveRequestResponse_from_model r" cb bal] assms(3) by simp
  then show "wf_balances bal'" using assms(1) deduct_endpoint_wf by auto
  show "bal' = bal \<and> \<not> is_ok res
    \<or> charged bal bal' r"
  proof (cases res)
    case (Inr d)
    with approve_deduct_ok [of ops env "LeaveRequestResponse_from_model r" cb bal d] assms(3) u
    show ?thesis by auto
  next
    case (Inl e)
    show ?thesis
    proof (cases "status_code (snd (deduct_endpoint ?p bal)) = 200")
      case True
      with Inl s u show ?thesis by auto
    next
      case False
      with Inl s deduct_endpoint_error_state [of ?p bal] show ?thesis by auto
    qed
  qed
qed

lemma decide_update_cases:
  assumes "decide_update ops env now i m st why (cb, req) = ((cb', req'), res)"
  shows "req' = req \<and> \<not> is_ok res
    \<or> decision_ok \<lparr>sr_new_status = st, sr_manager_id = m, sr_rejection_reason = why\<rparr>
      \<and> (\<exists>r. get_request req i = Some r \<and> lr_status r = PENDING \<and> lr_reporting_manager_id r = m
            \<and> req' = replace_request (decided now st why r) req)"
proof -
  let ?p = "\<lparr>sr_new_status = st, sr_manager_id = m, sr_rejection_reason = why\<rparr>"
  let ?changed = "\<lambda>t. decision_ok ?p \<and> (\<exists>r. get_request req i = Some r \<and> lr_status r = PENDING
      \<and> lr_reporting_manager_id r = m \<and> t = replace_request (decided now st why r) req)"
  have upd: "?changed t" if "update_request_status now i ?p req = (t, Inr b)" for t b
    using that by (auto simp: update_request_status_ok_iff decided_def Let_def)
  have all: "fst (update_status_endpoint now i ?p req) = req \<or> ?changed (fst (update_status_endpoint now i ?p req))"
  proof (cases "update_request_status now i ?p req")
    case (Pair t x)
    then show ?thesis
      using upd [of t] update_request_status_refused [of now i ?p req t]
      by (cases x) (auto simp: update_status_endpoint_state)
  qed
  have s: "req' = req \<or> req' = fst (update_status_endpoint now i ?p req)"
    using decide_update_req [of ops env now i m st why cb req] assms by simp
  show ?thesis
  proof (cases res)
    case (Inl e)
    with s all show ?thesis by auto
  next
    case (Inr b)
    with decide_update_ok [of ops env now i m st why cb req b] assms upd [of req' b]
    show ?thesis by simp
  qed
qed

lemma decide_update_effect:
  assumes "get_request req i = Some r" and "lr_status r = PENDING" and "lr_reporting_manager_id r = m"
    and "decide_update ops env now i m st why (cb, req) = ((cb', req'), res)"
  shows "req' = req \<and> \<not> is_ok res
    \<or> decision_ok \<lparr>sr_new_status = st, sr_manager_id = m, sr_rejection_reason = why\<rparr>
      \<and> req' = replace_request (decided now st why r) req"
  using decide_update_cases [OF assms(4)] assms(1) by auto

text \<open>
  C12: whatever the breakers and the network do (calls refused, lost before the callee or after it
  with the reply lost), one approval leaves one of three outcomes: nothing changed; the days deducted
  and the request still pending; the days deducted and the request approved. So a request is never
  approved without its deduction, a success always means both effects and the event, and an error
  publishes nothing; only the middle outcome, which nothing compensates, and lost replies separate
  the caller's view from the state.
\<close>

theorem approve_outcomes:
  assumes "wf_requests (w_req w)" and "wf_balances (w_bal w)"
    and "approve_request ops n env1 env2 now i caller w = (w', evs, resp)"
  shows "w_bal w' = w_bal w \<and> w_req w' = w_req w \<and> \<not> is_ok resp \<and> evs = []
    \<or> (\<exists>r. get_request (w_req w) i = Some r \<and> lr_status r = PENDING
        \<and> lr_reporting_manager_id r = ci_user_id caller
        \<and> charged (w_bal w) (w_bal w') r
        \<and> (w_req w' = w_req w \<and> \<not> is_ok resp \<and> evs = []
           \<or> (\<forall>j. get_request (w_req w') j =
                (if j = i then Some (decided now APPROVED None r) else get_request (w_req w) j))
             \<and> evs = (if is_ok resp then [approved_event (LeaveRequestResponse_from_model r) i] else [])))"
proof (cases "load_pending ''approved'' n i caller (w_req w)")
  case (Inl e)
  with assms(3) show ?thesis by (auto simp: approve_request_def)
next
  case (Inr lr)
  then obtain r where r: "get_request (w_req w) i = Some r" "lr_status r = PENDING"
      "lr_reporting_manager_id r = ci_user_id caller" and lr: "lr = LeaveRequestResponse_from_model r"
    using load_pending_ok_iff [OF assms(1)] by metis
  note rok = wf_requestsD(4) [OF assms(1) r(1)] and rid = wf_requestsD(3) [OF assms(1) r(1)]
  obtain cb bal dres where d: "approve_deduct ops env1 lr (w_mgr_bal_cb w, w_bal w) = ((cb, bal), dres)"
    by (metis prod.collapse)
  note de = approve_deduct_effect(1) [OF assms(2) rok d [unfolded lr]]
  show ?thesis
  proof (cases dres)
    case (Inl e)
    with Inr d assms(3) de r show ?thesis by (auto simp: approve_request_def Let_def)
  next
    case (Inr x)
    obtain cb' req ures where
      u: "decide_update ops env2 now i (ci_user_id caller) APPROVED None (w_mgr_req_cb w, w_req w) = ((cb', req), ures)"
      by (metis prod.collapse)
    note ue = decide_update_effect [OF r u]
    from Inr \<open>load_pending _ _ _ _ _ = _\<close> d u assms(3)
    have w': "w_bal w' = bal" "w_req w' = req"
      "evs = (if is_ok ures then [approved_event lr i] else [])" "is_ok resp = is_ok ures"
      by (cases ures; auto simp: approve_request_def Let_def)+
    from ue de Inr r rid show ?thesis unfolding w' lr by auto
  qed
qed

section \<open>Rejecting\<close>

text \<open>
  C22: rejecting never touches a balance, whatever the breakers and the network do. If any request
  changes, it is the named one, it was pending and routed to the caller; it becomes REJECTED with
  the given reason, which is not blank; the event with the reason is published exactly when the
  caller gets a success. When both services answer and the breaker lets calls through, the answer
  is a success exactly for a pending request routed to the caller and a reason that is not blank
  and has at most 500 characters.
\<close>

theorem reject_outcomes:
  assumes "wf_requests (w_req w)"
    and "reject_request ops n env now i reason caller w = (w', evs, resp)"
  shows "w_bal w' = w_bal w
    \<and> (w_req w' = w_req w \<and> \<not> is_ok resp \<and> evs = []
      \<or> (\<exists>r. get_request (w_req w) i = Some r \<and> lr_status r = PENDING
          \<and> lr_reporting_manager_id r = ci_user_id caller \<and> str_strip reason \<noteq> []
          \<and> (\<forall>j. get_request (w_req w') j =
               (if j = i then Some (decided now REJECTED (Some reason) r) else get_request (w_req w) j))
          \<and> evs = (if is_ok resp then [rejected_event (LeaveRequestResponse_from_model r) i reason] else [])))
    \<and> (passes_success ops \<and> stored_state ops \<and> breaker_healthy ops (w_mgr_req_cb w)
        \<and> n = Delivered \<and> ce_net env = Delivered
        \<longrightarrow> (is_ok resp \<longleftrightarrow> load_status (w_req w) i (ci_user_id caller) = 200
              \<and> str_strip reason \<noteq> [] \<and> length reason \<le> 500))"
proof (cases "load_pending ''rejected'' n i caller (w_req w)")
  case (Inl e)
  then have "n = Delivered \<Longrightarrow> load_status (w_req w) i (ci_user_id caller) \<noteq> 200"
    using load_pending_answered [OF assms(1), of "''rejected''" i caller] Inl
    by (metis sum.distinct(1))
  with Inl assms(2) show ?thesis by (auto simp: reject_request_def)
next
  case (Inr lr)
  then obtain r where r: "get_request (w_req w) i = Some r" "lr_status r = PENDING"
      "lr_reporting_manager_id r = ci_user_id caller" and lr: "lr = LeaveRequestResponse_from_model r"
    using load_pending_ok_iff [OF assms(1)] by metis
  note rok = wf_requestsD(4) [OF assms(1) r(1)] and rid = wf_requestsD(3) [OF assms(1) r(1)]
  have ld: "load_status (w_req w) i (ci_user_id caller) = 200" using r by (simp add: load_status_def)
  let ?p = "\<lparr>sr_new_status = REJECTED, sr_manager_id = ci_user_id caller, sr_rejection_reason = Some reason\<rparr>"
  obtain cb req ures where
    u: "decide_update ops env now i (ci_user_id caller) REJECTED (Some reason) (w_mgr_req_cb w, w_req w) = ((cb, req), ures)"
    by (metis prod.collapse)
  note ue = decide_update_effect [OF r u]
  from Inr u assms(2) have w': "w_bal w' = w_bal w" "w_req w' = req"
    "evs = (if is_ok ures then [rejected_event lr i reason] else [])" "is_ok resp = is_ok ures"
    by (cases ures; auto simp: reject_request_def Let_def)+
  have ans: "is_ok ures \<longleftrightarrow> str_strip reason \<noteq> [] \<and> length reason \<le> 500"
    if "passes_success ops" "stored_state ops" "breaker_healthy ops (w_mgr_req_cb w)" "ce_net env = Delivered"
  proof -
    have "ures = propagate (snd (update_status_endpoint now i ?p (w_req w)))"
      using decide_update_answered(1) [OF that, of now i "ci_user_id caller" REJECTED "Some reason" "w_req w"]
      unfolding u by simp
    moreover have "valid_StatusUpdateRequest ?p \<longleftrightarrow> length reason \<le> 500"
      using r(3) request_ok_ids(2) [OF rok] by (auto simp: valid_StatusUpdateRequest_def Suc_le_eq)
    moreover have "is_ok (snd (update_request_status now i ?p (w_req w))) \<longleftrightarrow> str_strip reason \<noteq> []"
      using r by (auto simp: update_request_status_def split: prod.splits)
    ultimately show ?thesis
      by (cases "update_request_status now i ?p (w_req w)"; cases "snd (update_request_status now i ?p (w_req w))")
        (auto simp: update_status_endpoint_def propagate_respond split: exn.splits)
  qed
  have "decision_ok ?p \<longleftrightarrow> str_strip reason \<noteq> []" by (simp add: decision_ok_def)
  with ue r rid ans ld show ?thesis unfolding w' lr by auto
qed

section \<open>Who may act\<close>

text \<open>
  The three manager routes refuse every caller without valid identity headers (401) and every
  caller whose role is not MANAGER (403), changing nothing and publishing nothing, whatever the
  body, the breakers and the network are.
\<close>

lemma manager_routes_guarded:
  assumes "\<nexists>m. uid = Some m \<and> m \<noteq> [] \<and> role = Some (Role_value MANAGER)"
  shows "let c = (if \<exists>m r. uid = Some m \<and> m \<noteq> [] \<and> role = Some (Role_value r) then 403 else 401) in
    (\<exists>d. approve_endpoint ops n env1 env2 now i uid role w = (w, [], Error_response c d)
      \<and> reject_endpoint ops n env2 now i reason uid role w = (w, [], Error_response c d)
      \<and> manager_list_endpoint pd n uid role st e fd td (w_req w) = Error_response c d)"
proof (cases "get_caller uid role")
  case (Inl exc)
  then obtain d where "exc = HTTPException 401 d" using get_caller_error by blast
  moreover have "\<nexists>m r. uid = Some m \<and> m \<noteq> [] \<and> role = Some (Role_value r)"
    using Inl get_caller_ok_iff [of uid role "\<lparr>ci_user_id = m, ci_role = r\<rparr>" for m r] by auto
  ultimately show ?thesis
    using Inl by (simp add: approve_endpoint_def reject_endpoint_def manager_list_endpoint_def
        require_manager_def)
next
  case (Inr c)
  note c = get_caller_ok_iff [THEN iffD1, OF Inr]
  then have "ci_role c \<noteq> MANAGER" and "\<exists>m r. uid = Some m \<and> m \<noteq> [] \<and> role = Some (Role_value r)"
    using assms by auto
  then show ?thesis
    using Inr by (simp add: approve_endpoint_def reject_endpoint_def manager_list_endpoint_def
        require_manager_def)
qed

section \<open>The team list\<close>

text \<open>A filter of the team list: absent or empty selects all, anything else must parse.\<close>

definition team_filter :: "(string \<Rightarrow> 'a option) \<Rightarrow> string option \<Rightarrow> 'a option option" where
  "team_filter parse v =
     (case v of None \<Rightarrow> Some None | Some x \<Rightarrow> if x = [] then Some None else map_option Some (parse x))"

lemma get_put_if_truthy:
  "dict_get (put_if_truthy k v d) k' =
     (if k' = k \<and> \<not> str_falsy v then v else dict_get d k')"
  by (auto simp: put_if_truthy_def str_falsy_def split: option.splits)

lemma team_params_get:
  "dict_get (team_params m st e fd td) ''manager_id'' = Some m"
  "dict_get (team_params m st e fd td) ''request_id'' = None"
  "dict_get (team_params m st e fd td) ''status'' = (if str_falsy st then None else st)"
  "dict_get (team_params m st e fd td) ''employee_id'' = (if str_falsy e then None else e)"
  "dict_get (team_params m st e fd td) ''from_date'' = (if str_falsy fd then None else fd)"
  "dict_get (team_params m st e fd td) ''to_date'' = (if str_falsy td then None else td)"
  by (simp_all add: team_params_def get_put_if_truthy) (simp_all add: dict_get_def)

lemma parse_param_filter:
  "parse_param parse (if str_falsy v then None else v) =
     (case team_filter parse v of None \<Rightarrow> Inl (HTTPException 422 ValidationErrors) | Some f \<Rightarrow> Inr f)"
  by (auto simp: parse_param_def team_filter_def str_falsy_def split: option.splits)

text \<open>
  C30: the manager's list shows only the caller's team. On a well-formed store with the service
  answering, and for any date parser, it answers exactly the requests routed to the caller that have
  the given employee and status, end on or after the first and start on or before the second date,
  in submission order; an absent or empty filter selects all; a status or date that does not parse
  is answered with the 422 of the callee.
\<close>

theorem team_list_scoped:
  assumes "wf_requests s"
  shows "manager_list_requests pd Delivered caller st e fd td s =
    (case (team_filter LeaveStatus_of st, team_filter pd fd, team_filter pd td) of
       (Some st', Some fd', Some td') \<Rightarrow>
         Inr (map (\<lambda>r. ManagerRequestView_from_payload (LeaveRequestResponse_from_model r))
           (filter (\<lambda>r. lr_reporting_manager_id r = ci_user_id caller
                \<and> (str_falsy e \<or> e = Some (lr_employee_id r))
                \<and> (st' = None \<or> st' = Some (lr_status r))
                \<and> (case fd' of None \<Rightarrow> True | Some d \<Rightarrow> d \<le> lr_end_date r)
                \<and> (case td' of None \<Rightarrow> True | Some d \<Rightarrow> lr_start_date r \<le> d))
              (dict_values (requests_store s))))
     | _ \<Rightarrow> Inl (HTTPException 422 ValidationErrors))"
proof -
  have "manager_list_requests pd Delivered caller st e fd td s =
      and_then (propagate (internal_list_endpoint pd (team_params (ci_user_id caller) st e fd td) s))
        (\<lambda>items. Inr (map ManagerRequestView_from_payload items))"
    by (simp add: manager_list_requests_def list_team_requests_def)
  also have "\<dots> = (case (team_filter LeaveStatus_of st, team_filter pd fd, team_filter pd td) of
       (Some st', Some fd', Some td') \<Rightarrow>
         and_then (list_requests s (Some (ci_user_id caller)) (if str_falsy e then None else e) None st' fd' td')
           (\<lambda>items. Inr (map ManagerRequestView_from_payload items))
     | _ \<Rightarrow> Inl (HTTPException 422 ValidationErrors))"
    by (cases "team_filter LeaveStatus_of st"; cases "team_filter pd fd"; cases "team_filter pd td")
      (simp_all add: internal_list_endpoint_def team_params_get parse_param_filter list_requests_eq [OF assms])
  finally show ?thesis
    by (cases "str_falsy e"; cases "team_filter LeaveStatus_of st"; cases "team_filter pd fd"; cases "team_filter pd td")
      (simp_all add: list_requests_eq [OF assms] comp_def str_falsy_def eq_commute [of "ci_user_id caller"]
        cong: filter_cong)
qed

end
