(* ===== verification/Leave_System.thy ===== *)
theory Leave_System
  imports Manager_Decisions
begin

text \<open>
  The three services together, with any number of requests in progress. Every handler of the code
  is a coroutine on one event loop: between two awaits it runs without interruption, and at an await
  anything else may run. A handler in progress is a task that remembers where it waits and the
  local variables it will still use; a step of the system is one uninterrupted part of one handler.
\<close>

section \<open>State\<close>

datatype task =
    TApply CallerIdentity ApplyLeaveRequest string
      \<comment> \<open>apply_leave before the balance lookup: caller, payload, manager_id\<close>
  | TFetched CallerIdentity ApplyLeaveRequest string "int result"
      \<comment> \<open>the lookup has returned or raised\<close>
  | TApproveLoaded CallerIdentity string LeaveRequestResponse
      \<comment> \<open>approve_request after the status check: caller, request_id, leave_request\<close>
  | TApproveDeducted CallerIdentity string LeaveRequestResponse
      \<comment> \<open>the deduction has succeeded\<close>
  | TRejectLoaded CallerIdentity string string LeaveRequestResponse
      \<comment> \<open>reject_request after the status check: caller, request_id, reason, leave_request\<close>

record 'b system =
  sys_world :: "'b world"
  sys_tasks :: "(nat, task) dict"
  sys_outbox :: "event list"
  sys_answers :: "(nat \<times> int) list"

text \<open>
  One event per uninterrupted part, with what the environment decides in it: the clock, the fresh
  uuid, the caller and payload of a new HTTP request, the fate of a call. A number names the task.
\<close>

datatype sys_event =
    EvApply nat date CallerIdentity ApplyLeaveRequest
  | EvFetch nat call_env
  | EvInsert nat string datetime datetime
  | EvCancel nat datetime string CallerIdentity
  | EvApprove nat net string CallerIdentity
  | EvDeduct nat call_env
  | EvSetApproved nat call_env datetime
  | EvReject nat net string string CallerIdentity
  | EvSetRejected nat call_env datetime

definition answer_code :: "int \<Rightarrow> 'a result \<Rightarrow> int" where
  "answer_code ok_status r = status_code (respond ok_status r)"

definition park :: "nat \<Rightarrow> task \<Rightarrow> 'b system \<Rightarrow> 'b system" where
  "park t k s = s\<lparr>sys_tasks := dict_put (sys_tasks s) t k\<rparr>"

definition answer :: "nat \<Rightarrow> int \<Rightarrow> 'b system \<Rightarrow> 'b system" where
  "answer t c s = s\<lparr>sys_tasks := dict_del (sys_tasks s) t, sys_answers := sys_answers s @ [(t, c)]\<rparr>"

definition emit :: "event list \<Rightarrow> 'b system \<Rightarrow> 'b system" where
  "emit evs s = s\<lparr>sys_outbox := sys_outbox s @ evs\<rparr>"

definition set_world :: "'b world \<Rightarrow> 'b system \<Rightarrow> 'b system" where
  "set_world w s = s\<lparr>sys_world := w\<rparr>"

lemmas sys_edit_defs = park_def answer_def emit_def set_world_def

section \<open>The parts of the handlers\<close>

definition start_apply :: "nat \<Rightarrow> date \<Rightarrow> CallerIdentity \<Rightarrow> ApplyLeaveRequest \<Rightarrow> 'b system \<Rightarrow> 'b system" where
  "start_apply t today caller p s =
     (if \<not> valid_ApplyLeaveRequest p then answer t 422 s
      else case apply_leave_begin today caller p (w_req (sys_world s)) of
          Inl e \<Rightarrow> answer t (answer_code 201 (Inl e :: unit result)) s
        | Inr manager_id \<Rightarrow> park t (TApply caller p manager_id) s)"

definition fetch_balance ::
  "'b breaker_ops \<Rightarrow> nat \<Rightarrow> call_env \<Rightarrow> CallerIdentity \<Rightarrow> ApplyLeaveRequest \<Rightarrow> string \<Rightarrow> 'b system \<Rightarrow> 'b system"
where
  "fetch_balance ops t env caller p manager_id s =
     (let w = sys_world s in
      case invoke_with_breaker ops (ce_before env) (ce_after env)
             (fetch_remaining (ce_net env) (ci_user_id caller) (al_leave_type p)) (w_req_bal_cb w, w_bal w)
      of ((cb, bal), outcome) \<Rightarrow>
        park t (TFetched caller p manager_id outcome) (set_world (w\<lparr>w_req_bal_cb := cb, w_bal := bal\<rparr>) s))"

definition insert_request ::
  "nat \<Rightarrow> string \<Rightarrow> datetime \<Rightarrow> datetime \<Rightarrow> CallerIdentity \<Rightarrow> ApplyLeaveRequest \<Rightarrow> string \<Rightarrow> int result
    \<Rightarrow> 'b system \<Rightarrow> 'b system" where
  "insert_request t i created updated caller p manager_id outcome s =
     (let w = sys_world s in
      case apply_leave_finish i created updated caller p manager_id outcome (w_req w) of
        (req, evs, r) \<Rightarrow> answer t (answer_code 201 r) (emit evs (set_world (w\<lparr>w_req := req\<rparr>) s)))"

definition cancel_request :: "nat \<Rightarrow> datetime \<Rightarrow> string \<Rightarrow> CallerIdentity \<Rightarrow> 'b system \<Rightarrow> 'b system" where
  "cancel_request t now i caller s =
     (let w = sys_world s in
      case cancel_leave now i caller (w_req w) of
        (req, r) \<Rightarrow> answer t (answer_code 200 r) (set_world (w\<lparr>w_req := req\<rparr>) s))"

definition start_approve :: "nat \<Rightarrow> net \<Rightarrow> string \<Rightarrow> CallerIdentity \<Rightarrow> 'b system \<Rightarrow> 'b system" where
  "start_approve t n i caller s =
     (case and_then (require_manager (Inr caller)) (\<lambda>c. load_pending ''approved'' n i c (w_req (sys_world s))) of
        Inl e \<Rightarrow> answer t (answer_code 200 (Inl e :: unit result)) s
      | Inr lr \<Rightarrow> park t (TApproveLoaded caller i lr) s)"

definition deduct_days ::
  "'b breaker_ops \<Rightarrow> nat \<Rightarrow> call_env \<Rightarrow> CallerIdentity \<Rightarrow> string \<Rightarrow> LeaveRequestResponse \<Rightarrow> 'b system \<Rightarrow> 'b system"
where
  "deduct_days ops t env caller i lr s =
     (let w = sys_world s in
      case approve_deduct ops env lr (w_mgr_bal_cb w, w_bal w) of
        ((cb, bal), r) \<Rightarrow>
          let s' = set_world (w\<lparr>w_mgr_bal_cb := cb, w_bal := bal\<rparr>) s
          in (case r of
                Inl e \<Rightarrow> answer t (answer_code 200 r) s'
              | Inr _ \<Rightarrow> park t (TApproveDeducted caller i lr) s'))"

definition mark_approved ::
  "'b breaker_ops \<Rightarrow> nat \<Rightarrow> call_env \<Rightarrow> datetime \<Rightarrow> CallerIdentity \<Rightarrow> string \<Rightarrow> LeaveRequestResponse
    \<Rightarrow> 'b system \<Rightarrow> 'b system" where
  "mark_approved ops t env now caller i lr s =
     (let w = sys_world s in
      case decide_update ops env now i (ci_user_id caller) APPROVED None (w_mgr_req_cb w, w_req w) of
        ((cb, req), r) \<Rightarrow>
          answer t (answer_code 200 r)
            (emit (if is_ok r then [approved_event lr i] else [])
              (set_world (w\<lparr>w_mgr_req_cb := cb, w_req := req\<rparr>) s)))"

definition start_reject :: "nat \<Rightarrow> net \<Rightarrow> string \<Rightarrow> string \<Rightarrow> CallerIdentity \<Rightarrow> 'b system \<Rightarrow> 'b system" where
  "start_reject t n i reason caller s =
     (case and_then (require_manager (Inr caller)) (\<lambda>c.
             if \<not> valid_RejectLeaveRequest reason then Inl (HTTPException 422 ValidationErrors)
             else load_pending ''rejected'' n i c (w_req (sys_world s))) of
          Inl e \<Rightarrow> answer t (answer_code 200 (Inl e :: unit result)) s
        | Inr lr \<Rightarrow> park t (TRejectLoaded caller i reason lr) s)"

definition mark_rejected ::
  "'b breaker_ops \<Rightarrow> nat \<Rightarrow> call_env \<Rightarrow> datetime \<Rightarrow> CallerIdentity \<Rightarrow> string \<Rightarrow> string \<Rightarrow> LeaveRequestResponse
    \<Rightarrow> 'b system \<Rightarrow> 'b system" where
  "mark_rejected ops t env now caller i reason lr s =
     (let w = sys_world s in
      case decide_update ops env now i (ci_user_id caller) REJECTED (Some reason) (w_mgr_req_cb w, w_req w) of
        ((cb, req), r) \<Rightarrow>
          answer t (answer_code 200 r)
            (emit (if is_ok r then [rejected_event lr i reason] else [])
              (set_world (w\<lparr>w_mgr_req_cb := cb, w_req := req\<rparr>) s)))"

text \<open>
  An event is enabled (the result is not \<open>None\<close>) when its task waits at that part, or is new; a
  fresh uuid is not yet the id of a request. Any caller may come to any route.
\<close>

fun sys_exec :: "'b breaker_ops \<Rightarrow> sys_event \<Rightarrow> 'b system \<Rightarrow> 'b system option" where
  "sys_exec ops (EvApply t today caller p) s =
     (if dict_has (sys_tasks s) t then None else Some (start_apply t today caller p s))"
| "sys_exec ops (EvFetch t env) s =
     (case dict_get (sys_tasks s) t of
        Some (TApply caller p m) \<Rightarrow> Some (fetch_balance ops t env caller p m s)
      | _ \<Rightarrow> None)"
| "sys_exec ops (EvInsert t i created updated) s =
     (case dict_get (sys_tasks s) t of
        Some (TFetched caller p m outcome) \<Rightarrow>
          if get_request (w_req (sys_world s)) i \<noteq> None then None
          else Some (insert_request t i created updated caller p m outcome s)
      | _ \<Rightarrow> None)"
| "sys_exec ops (EvCancel t now i caller) s =
     (if dict_has (sys_tasks s) t then None else Some (cancel_request t now i caller s))"
| "sys_exec ops (EvApprove t n i caller) s =
     (if dict_has (sys_tasks s) t then None else Some (start_approve t n i caller s))"
| "sys_exec ops (EvDeduct t env) s =
     (case dict_get (sys_tasks s) t of
        Some (TApproveLoaded caller i lr) \<Rightarrow> Some (deduct_days ops t env caller i lr s)
      | _ \<Rightarrow> None)"
| "sys_exec ops (EvSetApproved t env now) s =
     (case dict_get (sys_tasks s) t of
        Some (TApproveDeducted caller i lr) \<Rightarrow> Some (mark_approved ops t env now caller i lr s)
      | _ \<Rightarrow> None)"
| "sys_exec ops (EvReject t n i reason caller) s =
     (if dict_has (sys_tasks s) t then None else Some (start_reject t n i reason caller s))"
| "sys_exec ops (EvSetRejected t env now) s =
     (case dict_get (sys_tasks s) t of
        Some (TRejectLoaded caller i reason lr) \<Rightarrow> Some (mark_rejected ops t env now caller i reason lr s)
      | _ \<Rightarrow> None)"

fun sys_run :: "'b breaker_ops \<Rightarrow> sys_event list \<Rightarrow> 'b system \<Rightarrow> 'b system option" where
  "sys_run ops [] s = Some s"
| "sys_run ops (ev # evs) s =
     (case sys_exec ops ev s of None \<Rightarrow> None | Some s' \<Rightarrow> sys_run ops evs s')"

inductive sys_step :: "'b breaker_ops \<Rightarrow> 'b system \<Rightarrow> 'b system \<Rightarrow> bool" for ops where
  step: "sys_exec ops ev s = Some s' \<Longrightarrow> sys_step ops s s'"

inductive_cases sys_stepE: "sys_step ops s s'"

text \<open>The start: seeded balances, no request, no task, breakers in any state.\<close>

definition sys_init :: "'b system \<Rightarrow> bool" where
  "sys_init s \<longleftrightarrow>
     (\<exists>uuids. inj uuids \<and> seed_balances uuids empty_balances = Inr (w_bal (sys_world s)))
     \<and> w_req (sys_world s) = empty_requests
     \<and> sys_tasks s = [] \<and> sys_outbox s = [] \<and> sys_answers s = []"

lemma sys_run_steps: "sys_run ops evs s = Some s' \<Longrightarrow> (sys_step ops)\<^sup>*\<^sup>* s s'"
proof (induction evs arbitrary: s)
  case (Cons ev evs)
  then obtain t where "sys_exec ops ev s = Some t" "sys_run ops evs t = Some s'"
    by (auto split: option.splits)
  with Cons.IH show ?case by (meson converse_rtranclp_into_rtranclp sys_step.step)
qed simp

lemma sys_run_append:
  "sys_run ops (evs @ evs') s = (case sys_run ops evs s of None \<Rightarrow> None | Some t \<Rightarrow> sys_run ops evs' t)"
  by (induction evs arbitrary: s) (auto split: option.splits)


section \<open>What a step does to the requests\<close>

text \<open>The request store changes by one new pending request or by one decision on a pending request.\<close>

definition req_evolves :: "request_state \<Rightarrow> request_state \<Rightarrow> bool" where
  "req_evolves s t \<longleftrightarrow>
     t = s
     \<or> (\<exists>r. get_request s (lr_request_id r) = None \<and> request_ok r \<and> lr_status r = PENDING \<and> t = add_request r s)
     \<or> (\<exists>r r'. get_request s (lr_request_id r') = Some r \<and> lr_status r = PENDING \<and> same_terms r r'
          \<and> status_transition PENDING (lr_status r') \<and> request_ok r' \<and> t = replace_request r' s)"

lemma req_evolves_refl [simp]: "req_evolves s s"
  by (simp add: req_evolves_def)

lemma req_evolves_replaceI:
  "get_request s (lr_request_id r') = Some r \<Longrightarrow> lr_status r = PENDING \<Longrightarrow> same_terms r r' \<Longrightarrow>
   status_transition PENDING (lr_status r') \<Longrightarrow> request_ok r' \<Longrightarrow> req_evolves s (replace_request r' s)"
  unfolding req_evolves_def by blast

lemma req_evolves_addI:
  "get_request s (lr_request_id r) = None \<Longrightarrow> request_ok r \<Longrightarrow> lr_status r = PENDING \<Longrightarrow>
   req_evolves s (add_request r s)"
  unfolding req_evolves_def by blast

lemma req_evolves_wf: "req_evolves s t \<Longrightarrow> wf_requests s \<Longrightarrow> wf_requests t"
  unfolding req_evolves_def
  by (auto intro: add_request_wf replace_request_wf dest: same_terms_fields)

lemma req_evolves_evolved:
  "req_evolves s t \<Longrightarrow> get_request s i = Some r \<Longrightarrow> \<exists>r'. get_request t i = Some r' \<and> evolved r r'"
  unfolding req_evolves_def evolved_def by auto

lemma decided_same_terms [simp]: "same_terms r (decided now st why r)"
  by (simp add: same_terms_def decided_def)

lemma decided_status [simp]: "lr_status (decided now st why r) = st"
  by (simp add: decided_def)

lemma decided_ok:
  assumes "request_ok r" and "decision_ok \<lparr>sr_new_status = st, sr_manager_id = m, sr_rejection_reason = why\<rparr>"
  shows "request_ok (decided now st why r)" and "status_transition PENDING st"
  using assms by (auto simp: request_ok_def decided_def decision_ok_def intro: status_transition.intros)

lemma decide_update_evolves:
  assumes "wf_requests req" and "decide_update ops env now i m st why (cb, req) = ((cb', req'), res)"
  shows "req_evolves req req'"
  using decide_update_cases [OF assms(2)]
proof (elim disjE conjE exE)
  fix r assume d: "decision_ok \<lparr>sr_new_status = st, sr_manager_id = m, sr_rejection_reason = why\<rparr>"
    and r: "get_request req i = Some r" "lr_status r = PENDING"
    and req': "req' = replace_request (decided now st why r) req"
  note wf = wf_requestsD(3,4) [OF assms(1) r(1)]
  show ?thesis
    unfolding req' by (rule req_evolves_replaceI [of _ _ r]) (use wf r decided_ok [OF wf(2) d] in simp_all)
qed simp

lemma cancel_evolves:
  assumes "wf_requests req"
  shows "req_evolves req (fst (cancel_leave now i caller req))"
  using assms
proof (cases rule: cancelling.op_cases [of req "(now, i, caller)"])
  case (change r r' b)
  then show ?thesis by (simp add: req_evolves_replaceI [of _ _ r])
qed simp

section \<open>Tasks\<close>

text \<open>A view that a task carries still describes the stored request, up to its decision.\<close>

definition view_of :: "LeaveRequestResponse \<Rightarrow> LeaveRequest \<Rightarrow> bool" where
  "view_of lr r \<longleftrightarrow> (\<exists>r0. lr = LeaveRequestResponse_from_model r0 \<and> request_ok r0 \<and> same_terms r0 r)"

fun task_ok :: "request_state \<Rightarrow> task \<Rightarrow> bool" where
  "task_ok s (TApply caller p m) \<longleftrightarrow> (\<forall>i c u. request_ok (new_request i c u caller p m))"
| "task_ok s (TFetched caller p m outcome) \<longleftrightarrow> (\<forall>i c u. request_ok (new_request i c u caller p m))"
| "task_ok s (TApproveLoaded caller i lr) \<longleftrightarrow>
     ci_role caller = MANAGER \<and> (\<exists>r. get_request s i = Some r \<and> view_of lr r \<and> lr_reporting_manager_id r = ci_user_id caller)"
| "task_ok s (TApproveDeducted caller i lr) \<longleftrightarrow>
     ci_role caller = MANAGER \<and> (\<exists>r. get_request s i = Some r \<and> view_of lr r \<and> lr_reporting_manager_id r = ci_user_id caller)"
| "task_ok s (TRejectLoaded caller i reason lr) \<longleftrightarrow>
     ci_role caller = MANAGER \<and> (\<exists>r. get_request s i = Some r \<and> view_of lr r \<and> lr_reporting_manager_id r = ci_user_id caller)"

lemma view_of_evolved: "view_of lr r \<Longrightarrow> evolved r r' \<Longrightarrow> view_of lr r'"
  unfolding view_of_def evolved_def by (blast intro: same_terms_trans)

lemma view_of_fields:
  assumes "view_of lr r"
  shows "rr_employee_id lr = lr_employee_id r" "rr_leave_type lr = lr_leave_type r"
    "rr_number_of_days lr = lr_number_of_days r"
  using assms by (auto simp: view_of_def dest: same_terms_fields)

lemma task_ok_evolves:
  assumes "req_evolves s t" and "task_ok s k"
  shows "task_ok t k"
proof -
  have "\<exists>r. get_request t i = Some r \<and> view_of lr r \<and> lr_reporting_manager_id r = m"
    if r: "get_request s i = Some r" "view_of lr r" "lr_reporting_manager_id r = m" for i r lr m
  proof -
    obtain r' where "get_request t i = Some r'" "evolved r r'"
      using req_evolves_evolved [OF assms(1) r(1)] by auto
    then show ?thesis
      using r view_of_evolved [of lr r r'] same_terms_fields(7) [of r r'] by (auto simp: evolved_def)
  qed
  with assms(2) show ?thesis by (cases k) auto
qed

lemma loaded_view:
  assumes "wf_requests s" and "load_pending verb n i caller s = Inr lr"
  shows "\<exists>r. get_request s i = Some r \<and> view_of lr r \<and> lr_reporting_manager_id r = ci_user_id caller"
  using iffD1 [OF load_pending_ok_iff [OF assms(1)] assms(2)] wf_requestsD(4) [OF assms(1)]
  by (fastforce simp: view_of_def)

section \<open>Days approved and days in flight\<close>

definition approved_days :: "request_state \<Rightarrow> string \<times> LeaveType \<Rightarrow> int" where
  "approved_days s k =
     dict_sum (\<lambda>r. if lr_status r = APPROVED \<and> request_key r = k then lr_number_of_days r else 0)
       (requests_store s)"

fun task_days :: "string \<times> LeaveType \<Rightarrow> task \<Rightarrow> int" where
  "task_days k (TApproveDeducted caller i lr) =
     (if (rr_employee_id lr, rr_leave_type lr) = k then rr_number_of_days lr else 0)"
| "task_days k _ = 0"

definition inflight_days :: "(nat, task) dict \<Rightarrow> string \<times> LeaveType \<Rightarrow> int" where
  "inflight_days d k = dict_sum (task_days k) d"

lemma inflight_put:
  "inflight_days (dict_put d t task) k =
     inflight_days d k - (case dict_get d t of None \<Rightarrow> 0 | Some old \<Rightarrow> task_days k old) + task_days k task"
  by (auto simp: inflight_days_def dict_sum_put dict_sum_put_new split: option.splits)

lemma inflight_del:
  "wf_dict d \<Longrightarrow> inflight_days (dict_del d t) k =
     inflight_days d k - (case dict_get d t of None \<Rightarrow> 0 | Some old \<Rightarrow> task_days k old)"
  by (auto simp: inflight_days_def dict_sum_del dict_del_absent split: option.splits)

lemma approved_days_add:
  "get_request s (lr_request_id r) = None \<Longrightarrow> lr_status r = PENDING \<Longrightarrow>
   approved_days (add_request r s) k = approved_days s k"
  by (simp add: approved_days_def add_request_def get_request_def dict_sum_put_new)

lemma approved_days_replace:
  assumes "get_request s (lr_request_id r') = Some r" and "lr_status r = PENDING" and "same_terms r r'"
  shows "approved_days (replace_request r' s) k =
    approved_days s k + (if lr_status r' = APPROVED \<and> request_key r = k then lr_number_of_days r else 0)"
  using assms same_terms_fields [OF assms(3)]
  by (simp add: approved_days_def replace_request_def get_request_def dict_sum_put request_key_def)

text \<open>A step that approves nothing leaves the approved days.\<close>

lemma decide_update_days:
  assumes "wf_requests req" and "decide_update ops env now i m st why (cb, req) = ((cb', req'), res)"
  shows "approved_days req' k = approved_days req k
    \<or> st = APPROVED \<and> (\<exists>r. get_request req i = Some r \<and>
        approved_days req' k = approved_days req k + (if request_key r = k then lr_number_of_days r else 0))"
  using decide_update_cases [OF assms(2)]
proof (elim disjE conjE exE)
  fix r assume r: "get_request req i = Some r" "lr_status r = PENDING"
    and req': "req' = replace_request (decided now st why r) req"
  note wf = wf_requestsD(3) [OF assms(1) r(1)]
  show ?thesis
    unfolding req' using approved_days_replace [of req "decided now st why r" r k] wf r by auto
qed simp

lemma cancel_days:
  assumes "wf_requests req"
  shows "approved_days (fst (cancel_leave now i caller req)) k = approved_days req k"
  using assms
  by (cases rule: cancelling.op_cases [of req "(now, i, caller)"]) (auto simp: approved_days_replace)


section \<open>The invariant\<close>

text \<open>The allocation the seed gives: the table of default allocations for seeded employees.\<close>

definition seed_allocation :: "string \<times> LeaveType \<Rightarrow> int" where
  "seed_allocation k =
     (if fst k \<in> su_user_id ` set get_seed_employees
      then (case dict_get DEFAULT_LEAVE_ALLOCATIONS (snd k) of None \<Rightarrow> 0 | Some n \<Rightarrow> n) else 0)"

definition sys_inv :: "'b system \<Rightarrow> bool" where
  "sys_inv s \<longleftrightarrow>
     wf_balances (w_bal (sys_world s)) \<and> wf_requests (w_req (sys_world s)) \<and> wf_dict (sys_tasks s)
     \<and> (\<forall>t k. dict_get (sys_tasks s) t = Some k \<longrightarrow> task_ok (w_req (sys_world s)) k)
     \<and> (\<forall>k. approved_days (w_req (sys_world s)) k + inflight_days (sys_tasks s) k \<le> used_days (w_bal (sys_world s)) k)
     \<and> (\<forall>k. allocated_days (w_bal (sys_world s)) k = seed_allocation k)"

lemma sys_invD:
  assumes "sys_inv s"
  shows "wf_balances (w_bal (sys_world s))" "wf_requests (w_req (sys_world s))" "wf_dict (sys_tasks s)"
    and "\<And>t k. dict_get (sys_tasks s) t = Some k \<Longrightarrow> task_ok (w_req (sys_world s)) k"
    and "\<And>k. approved_days (w_req (sys_world s)) k + inflight_days (sys_tasks s) k \<le> used_days (w_bal (sys_world s)) k"
    and "\<And>k. allocated_days (w_bal (sys_world s)) k = seed_allocation k"
  using assms unfolding sys_inv_def by blast+

text \<open>
  The two ways a part ends: the task waits again, or it is answered. The days balance: what becomes
  approved or in flight was in flight before or is charged.
\<close>

lemma sys_inv_park:
  assumes "sys_inv s"
    and "sys_tasks s' = dict_put (sys_tasks s) t task"
    and "wf_balances (w_bal (sys_world s'))"
    and "\<And>k. allocated_days (w_bal (sys_world s')) k = allocated_days (w_bal (sys_world s)) k"
    and "req_evolves (w_req (sys_world s)) (w_req (sys_world s'))"
    and "task_ok (w_req (sys_world s')) task"
    and "\<And>k. approved_days (w_req (sys_world s')) k + task_days k task + used_days (w_bal (sys_world s)) k
      \<le> approved_days (w_req (sys_world s)) k
        + (case dict_get (sys_tasks s) t of None \<Rightarrow> 0 | Some old \<Rightarrow> task_days k old)
        + used_days (w_bal (sys_world s')) k"
  shows "sys_inv s'"
  unfolding sys_inv_def
proof (intro conjI allI impI)
  note i = sys_invD [OF assms(1)]
  show "wf_requests (w_req (sys_world s'))" using req_evolves_wf [OF assms(5) i(2)] .
  show "wf_dict (sys_tasks s')" using i(3) assms(2) by simp
  show "task_ok (w_req (sys_world s')) k" if "dict_get (sys_tasks s') x = Some k" for x k
    using that assms(2,6) i(4) task_ok_evolves [OF assms(5)] by (auto split: if_splits)
  show "approved_days (w_req (sys_world s')) k + inflight_days (sys_tasks s') k \<le> used_days (w_bal (sys_world s')) k" for k
    using assms(7) [of k] i(5) [of k] unfolding assms(2) inflight_put by linarith
qed (use assms sys_invD(6) [OF assms(1)] in simp_all)

lemma sys_inv_answer:
  assumes "sys_inv s"
    and "sys_tasks s' = dict_del (sys_tasks s) t"
    and "wf_balances (w_bal (sys_world s'))"
    and "\<And>k. allocated_days (w_bal (sys_world s')) k = allocated_days (w_bal (sys_world s)) k"
    and "req_evolves (w_req (sys_world s)) (w_req (sys_world s'))"
    and "\<And>k. approved_days (w_req (sys_world s')) k + used_days (w_bal (sys_world s)) k
      \<le> approved_days (w_req (sys_world s)) k
        + (case dict_get (sys_tasks s) t of None \<Rightarrow> 0 | Some old \<Rightarrow> task_days k old)
        + used_days (w_bal (sys_world s')) k"
  shows "sys_inv s'"
  unfolding sys_inv_def
proof (intro conjI allI impI)
  note i = sys_invD [OF assms(1)]
  show "wf_requests (w_req (sys_world s'))" using req_evolves_wf [OF assms(5) i(2)] .
  show "wf_dict (sys_tasks s')" using i(3) assms(2) by simp
  show "task_ok (w_req (sys_world s')) k" if "dict_get (sys_tasks s') x = Some k" for x k
    using that assms(2) i(4) task_ok_evolves [OF assms(5)] by (auto split: if_splits)
  show "approved_days (w_req (sys_world s')) k + inflight_days (sys_tasks s') k \<le> used_days (w_bal (sys_world s')) k" for k
    using assms(6) [of k] i(5) [of k] unfolding assms(2) inflight_del [OF i(3)] by linarith
qed (use assms sys_invD(6) [OF assms(1)] in simp_all)

section \<open>Every part keeps the invariant\<close>

lemma absent_days: "\<not> dict_has d t \<Longrightarrow> (case dict_get d t of None \<Rightarrow> 0 | Some old \<Rightarrow> task_days k old) = 0"
  by (simp add: dict_has_def)

lemma start_apply_inv:
  assumes "sys_inv s" and "\<not> dict_has (sys_tasks s) t"
  shows "sys_inv (start_apply t today caller p s)"
proof (cases "valid_ApplyLeaveRequest p")
  case False
  then show ?thesis
    by (intro sys_inv_answer [OF assms(1), of _ t])
      (use sys_invD(1) [OF assms(1)] absent_days [OF assms(2)] in \<open>auto simp: start_apply_def sys_edit_defs\<close>)
next
  case v: True
  show ?thesis
  proof (cases "apply_leave_begin today caller p (w_req (sys_world s))")
    case (Inl e)
    with v show ?thesis
      by (intro sys_inv_answer [OF assms(1), of _ t])
        (use sys_invD(1) [OF assms(1)] absent_days [OF assms(2)] in \<open>auto simp: start_apply_def sys_edit_defs\<close>)
  next
    case (Inr m)
    with v show ?thesis
      by (intro sys_inv_park [OF assms(1), of _ t "TApply caller p m"])
        (use sys_invD(1) [OF assms(1)] absent_days [OF assms(2)] apply_leave_begin_request_ok [OF v Inr]
          in \<open>auto simp: start_apply_def sys_edit_defs\<close>)
  qed
qed

lemma fetch_remaining_state [simp]: "fst (fetch_remaining n e t bal) = bal"
  by (cases n) (auto simp: fetch_remaining_def http_call_def)

lemma fetch_balance_inv:
  assumes "sys_inv s" and "dict_get (sys_tasks s) t = Some (TApply caller p m)"
  shows "sys_inv (fetch_balance ops t env caller p m s)"
proof -
  let ?w = "sys_world s"
  obtain cb bal outcome where i: "invoke_with_breaker ops (ce_before env) (ce_after env)
      (fetch_remaining (ce_net env) (ci_user_id caller) (al_leave_type p)) (w_req_bal_cb ?w, w_bal ?w) = ((cb, bal), outcome)"
    by (metis prod.collapse)
  have "bal = w_bal ?w"
    using invoke_world [of ops "ce_before env" "ce_after env" "fetch_remaining (ce_net env) (ci_user_id caller) (al_leave_type p)"
        "w_req_bal_cb ?w" "w_bal ?w"] i by (simp split: if_splits)
  with i show ?thesis
    by (intro sys_inv_park [OF assms(1), of _ t "TFetched caller p m outcome"])
      (use sys_invD(1,4) [OF assms(1)] assms(2) in \<open>fastforce simp: fetch_balance_def sys_edit_defs Let_def\<close>)+
qed

lemma insert_request_inv:
  assumes "sys_inv s" and "dict_get (sys_tasks s) t = Some (TFetched caller p m outcome)"
    and "get_request (w_req (sys_world s)) i = None"
  shows "sys_inv (insert_request t i c u caller p m outcome s)"
proof -
  let ?w = "sys_world s"
  have ok: "request_ok (new_request i c u caller p m)" using sys_invD(4) [OF assms(1,2)] by simp
  show ?thesis
  proof (cases rule: apply_leave_finish_cases [of i c u caller p m outcome "w_req ?w"])
    case (error e)
    then show ?thesis
      by (intro sys_inv_answer [OF assms(1), of _ t])
        (use sys_invD(1) [OF assms(1)] assms(2) in \<open>simp_all add: insert_request_def sys_edit_defs Let_def\<close>)
  next
    case (created n)
    then show ?thesis
      by (intro sys_inv_answer [OF assms(1), of _ t])
        (use sys_invD(1) [OF assms(1)] assms(2,3) ok in \<open>simp_all add: insert_request_def sys_edit_defs Let_def
          approved_days_add req_evolves_addI\<close>)
  qed
qed

lemma cancel_request_inv:
  assumes "sys_inv s" and "\<not> dict_has (sys_tasks s) t"
  shows "sys_inv (cancel_request t now i caller s)"
proof -
  let ?w = "sys_world s"
  obtain req r where c: "cancel_leave now i caller (w_req ?w) = (req, r)" by (cases "cancel_leave now i caller (w_req ?w)")
  note e = cancel_evolves [OF sys_invD(2) [OF assms(1)], of now i caller, unfolded c]
    and d = cancel_days [OF sys_invD(2) [OF assms(1)], of now i caller, unfolded c]
  from c show ?thesis
    by (intro sys_inv_answer [OF assms(1), of _ t])
      (use sys_invD(1) [OF assms(1)] absent_days [OF assms(2)] e d in
        \<open>simp_all add: cancel_request_def sys_edit_defs Let_def\<close>)
qed

text \<open>The manager routes get past their first part only for a manager, with the request loaded.\<close>

lemma start_approve_cases:
  obtains (refused) c where "start_approve t n i caller s = answer t c s"
  | (loaded) lr where "start_approve t n i caller s = park t (TApproveLoaded caller i lr) s"
      "ci_role caller = MANAGER" "load_pending ''approved'' n i caller (w_req (sys_world s)) = Inr lr"
proof (cases "and_then (require_manager (Inr caller)) (\<lambda>c. load_pending ''approved'' n i c (w_req (sys_world s)))")
  case (Inl e)
  then show ?thesis by (intro refused) (simp add: start_approve_def)
next
  case (Inr lr)
  then show ?thesis by (intro loaded) (auto simp: start_approve_def and_then_Inr_iff require_manager_ok_iff)
qed

lemma start_reject_cases:
  obtains (refused) c where "start_reject t n i reason caller s = answer t c s"
  | (loaded) lr where "start_reject t n i reason caller s = park t (TRejectLoaded caller i reason lr) s"
      "ci_role caller = MANAGER" "load_pending ''rejected'' n i caller (w_req (sys_world s)) = Inr lr"
proof (cases "and_then (require_manager (Inr caller)) (\<lambda>c. if \<not> valid_RejectLeaveRequest reason
    then Inl (HTTPException 422 ValidationErrors) else load_pending ''rejected'' n i c (w_req (sys_world s)))")
  case (Inl e)
  then show ?thesis by (intro refused) (simp add: start_reject_def)
next
  case (Inr lr)
  then show ?thesis
    by (intro loaded) (auto simp: start_reject_def and_then_Inr_iff require_manager_ok_iff split: if_splits)
qed

lemma start_approve_inv:
  assumes "sys_inv s" and "\<not> dict_has (sys_tasks s) t"
  shows "sys_inv (start_approve t n i caller s)"
proof (cases rule: start_approve_cases [of t n i caller s])
  case (refused c)
  then show ?thesis
    by (intro sys_inv_answer [OF assms(1), of _ t])
      (use sys_invD(1) [OF assms(1)] absent_days [OF assms(2)] in \<open>simp_all add: sys_edit_defs\<close>)
next
  case (loaded lr)
  then show ?thesis
    by (intro sys_inv_park [OF assms(1), of _ t "TApproveLoaded caller i lr"])
      (use sys_invD(1) [OF assms(1)] absent_days [OF assms(2)]
        loaded_view [OF sys_invD(2) [OF assms(1)] loaded(3)] in \<open>simp_all add: sys_edit_defs\<close>)
qed

lemma start_reject_inv:
  assumes "sys_inv s" and "\<not> dict_has (sys_tasks s) t"
  shows "sys_inv (start_reject t n i reason caller s)"
proof (cases rule: start_reject_cases [of t n i reason caller s])
  case (refused c)
  then show ?thesis
    by (intro sys_inv_answer [OF assms(1), of _ t])
      (use sys_invD(1) [OF assms(1)] absent_days [OF assms(2)] in \<open>simp_all add: sys_edit_defs\<close>)
next
  case (loaded lr)
  then show ?thesis
    by (intro sys_inv_park [OF assms(1), of _ t "TRejectLoaded caller i reason lr"])
      (use sys_invD(1) [OF assms(1)] absent_days [OF assms(2)]
        loaded_view [OF sys_invD(2) [OF assms(1)] loaded(3)] in \<open>simp_all add: sys_edit_defs\<close>)
qed

lemma approve_deduct_allocated:
  assumes "wf_balances bal" and "approve_deduct ops env lr (cb, bal) = ((cb', bal'), res)"
  shows "allocated_days bal' k = allocated_days bal k"
  using approve_deduct_bal [of ops env lr cb bal] assms(2) deduct_endpoint_allocated [OF assms(1), of "deduct_request_of lr" k]
  by auto

lemma deduct_days_inv:
  assumes "sys_inv s" and "dict_get (sys_tasks s) t = Some (TApproveLoaded caller i lr)"
  shows "sys_inv (deduct_days ops t env caller i lr s)"
proof -
  let ?w = "sys_world s"
  note inv = sys_invD [OF assms(1)]
  have ok: "task_ok (w_req ?w) (TApproveLoaded caller i lr)" using inv(4) [OF assms(2)] .
  then obtain r0 where r0: "lr = LeaveRequestResponse_from_model r0" "request_ok r0" by (auto simp: view_of_def)
  obtain cb bal res where d: "approve_deduct ops env lr (w_mgr_bal_cb ?w, w_bal ?w) = ((cb, bal), res)"
    by (metis prod.collapse)
  note e = approve_deduct_effect [OF inv(1) r0(2) d [unfolded r0(1)]]
    and a = approve_deduct_allocated [OF inv(1) d]
  have more: "used_days (w_bal ?w) k + (if is_ok res then task_days k (TApproveDeducted caller i lr) else 0) \<le> used_days bal k" for k
    using e(1)
  proof
    assume "charged (w_bal ?w) bal r0"
    then have "used_days bal k = used_days (w_bal ?w) k + (if k = request_key r0 then lr_number_of_days r0 else 0)"
      unfolding charged_def by blast
    then show ?thesis using request_ok_days_pos [OF r0(2)] unfolding r0(1) by (auto simp: request_key_def)
  qed simp
  show ?thesis
  proof (cases res)
    case (Inl x)
    with d show ?thesis
      by (intro sys_inv_answer [OF assms(1), of _ t])
        (use e(2) a more Inl assms(2) in \<open>simp_all add: deduct_days_def sys_edit_defs Let_def\<close>)
  next
    case (Inr x)
    then have "task_days k (TApproveDeducted caller i lr) + used_days (w_bal ?w) k \<le> used_days bal k" for k
      using more [of k] by simp
    with d Inr show ?thesis
      by (intro sys_inv_park [OF assms(1), of _ t "TApproveDeducted caller i lr"])
        (use e(2) a assms(2) ok in \<open>simp_all add: deduct_days_def sys_edit_defs Let_def del: task_days.simps(1)\<close>)
  qed
qed

lemma mark_approved_inv:
  assumes "sys_inv s" and "dict_get (sys_tasks s) t = Some (TApproveDeducted caller i lr)"
  shows "sys_inv (mark_approved ops t env now caller i lr s)"
proof -
  let ?w = "sys_world s"
  note inv = sys_invD [OF assms(1)]
  from inv(4) [OF assms(2)] obtain r where r: "get_request (w_req ?w) i = Some r" "view_of lr r" by auto
  note rok = wf_requestsD(4) [OF inv(2) r(1)]
  obtain cb req res where
    d: "decide_update ops env now i (ci_user_id caller) APPROVED None (w_mgr_req_cb ?w, w_req ?w) = ((cb, req), res)"
    by (metis prod.collapse)
  have days: "approved_days req k \<le> approved_days (w_req ?w) k + task_days k (TApproveDeducted caller i lr)" for k
    using decide_update_days [OF inv(2) d, of k] r view_of_fields [OF r(2)] request_ok_days_pos [OF rok]
    by (auto simp: request_key_def)
  from d show ?thesis
    by (intro sys_inv_answer [OF assms(1), of _ t])
      (use inv(1) assms(2) days decide_update_evolves [OF inv(2) d] in
        \<open>simp_all add: mark_approved_def sys_edit_defs Let_def\<close>)
qed

lemma mark_rejected_inv:
  assumes "sys_inv s" and "dict_get (sys_tasks s) t = Some (TRejectLoaded caller i reason lr)"
  shows "sys_inv (mark_rejected ops t env now caller i reason lr s)"
proof -
  let ?w = "sys_world s"
  note inv = sys_invD [OF assms(1)]
  obtain cb req res where
    d: "decide_update ops env now i (ci_user_id caller) REJECTED (Some reason) (w_mgr_req_cb ?w, w_req ?w) = ((cb, req), res)"
    by (metis prod.collapse)
  from d show ?thesis
    by (intro sys_inv_answer [OF assms(1), of _ t])
      (use inv(1) assms(2) decide_update_days [OF inv(2) d] decide_update_evolves [OF inv(2) d] in
        \<open>simp_all add: mark_rejected_def sys_edit_defs Let_def\<close>)
qed

lemma sys_exec_inv:
  assumes "sys_inv s" and "sys_exec ops ev s = Some s'"
  shows "sys_inv s'"
proof (cases ev)
  case (EvInsert t i c u)
  with assms insert_request_inv show ?thesis by (auto split: option.splits task.splits if_splits)
qed (use assms start_apply_inv fetch_balance_inv cancel_request_inv start_approve_inv deduct_days_inv
    mark_approved_inv start_reject_inv mark_rejected_inv in
    \<open>auto split: option.splits task.splits if_splits\<close>)



lemma seeded_days:
  assumes "inj uuids" and "seed_balances uuids empty_balances = Inr s"
  shows "wf_balances s" and "used_days s k = 0" and "allocated_days s k = seed_allocation k"
proof -
  from seed_balances_eq [OF assms(1), of uuids] assms(2) show wf: "wf_balances s" by simp
  have rows: "map (\<lambda>b. (lb_leave_type b, lb_total_allocated b, lb_used b)) (get_balances_for_employee s e) =
      (if e \<in> su_user_id ` set get_seed_employees then [(CASUAL, 12, 0), (SICK, 10, 0), (PRIVILEGE, 15, 0)] else [])" for e
    using seed_balances_eq [OF assms(1), of uuids] assms(2) by auto
  have row_iff: "(t, n, u) \<in> set (map (\<lambda>b. (lb_leave_type b, lb_total_allocated b, lb_used b)) (get_balances_for_employee s e))
      \<longleftrightarrow> (\<exists>b. get_balance s e t = Some b \<and> lb_total_allocated b = n \<and> lb_used b = u)" for e t n u
    using in_get_balances_iff [OF wf] get_balance_facts(3) [OF wf] by (fastforce simp: image_iff)
  obtain e t where k: "k = (e, t)" by (cases k)
  have "used_days s (e, t) = 0 \<and> allocated_days s (e, t) = seed_allocation (e, t)"
  proof (cases "get_balance s e t")
    case None
    then have "e \<notin> su_user_id ` set get_seed_employees"
      using row_iff [of t _ _ e] rows [of e] by (cases t) fastforce+
    with None show ?thesis by (simp add: used_days_def allocated_days_def seed_allocation_def)
  next
    case (Some b)
    then have "(t, lb_total_allocated b, lb_used b) \<in>
        set (if e \<in> su_user_id ` set get_seed_employees then [(CASUAL, 12, 0), (SICK, 10, 0), (PRIVILEGE, 15, 0)] else [])"
      using row_iff [of t "lb_total_allocated b" "lb_used b" e] rows [of e] by simp
    with Some show ?thesis
      by (auto simp: used_days_def allocated_days_def seed_allocation_def DEFAULT_LEAVE_ALLOCATIONS_def
          dict_get_def split: if_splits)
  qed
  then show "used_days s k = 0" "allocated_days s k = seed_allocation k" by (simp_all add: k)
qed

lemma sys_init_inv:
  assumes "sys_init s"
  shows "sys_inv s"
proof -
  from assms obtain uuids where u: "inj uuids" "seed_balances uuids empty_balances = Inr (w_bal (sys_world s))"
    and e: "w_req (sys_world s) = empty_requests" "sys_tasks s = []"
    by (auto simp: sys_init_def)
  have "approved_days empty_requests k = 0" for k by (simp add: approved_days_def empty_requests_def)
  then show ?thesis
    unfolding sys_inv_def e
    using seeded_days [OF u] by (auto simp: inflight_days_def wf_dict_def dict_get_def)
qed

lemma sys_step_inv: "sys_inv s \<Longrightarrow> sys_step ops s t \<Longrightarrow> sys_inv t"
  by (elim sys_stepE) (rule sys_exec_inv)

interpretation system: invariant_system sys_init "sys_step ops" sys_inv for ops
  by unfold_locales (rule sys_init_inv, assumption, rule sys_step_inv)

lemma inflight_nonneg:
  assumes "sys_inv s"
  shows "0 \<le> inflight_days (sys_tasks s) k"
  unfolding inflight_days_def
proof (rule dict_sum_nonneg)
  fix t task assume "dict_get (sys_tasks s) t = Some task"
  from sys_invD(4) [OF assms this] show "0 \<le> task_days k task"
    using request_ok_days_pos by (cases task) (fastforce simp: view_of_def)+
qed (rule sys_invD(3) [OF assms])

lemma sys_inv_bounds:
  assumes "sys_inv s"
  shows "approved_days (w_req (sys_world s)) k \<le> used_days (w_bal (sys_world s)) k"
    and "approved_days (w_req (sys_world s)) k + inflight_days (sys_tasks s) k \<le> used_days (w_bal (sys_world s)) k"
    and "used_days (w_bal (sys_world s)) k \<le> seed_allocation k"
  using sys_invD(5) [OF assms, of k] inflight_nonneg [OF assms, of k]
    ledger.within [OF sys_invD(1) [OF assms], of k] sys_invD(6) [OF assms, of k]
  by linarith+

text \<open>
  C5: the three services together never approve more leave than allocated. In every state reachable
  from the seeded start by any interleaving of the parts of any number of apply, cancel, approve and
  reject requests, with any calls lost, answered late or refused by a breaker: for every employee
  and leave type the days of the approved requests are at most the days deducted, these are at most
  the allocation, and the allocation is still the seeded one. The days deducted also cover the
  approvals that have deducted and not yet set the status.
\<close>

theorem approved_within_allocation:
  assumes "sys_init s0" and "(sys_step ops)\<^sup>*\<^sup>* s0 s"
  shows "approved_days (w_req (sys_world s)) k \<le> used_days (w_bal (sys_world s)) k
    \<and> approved_days (w_req (sys_world s)) k + inflight_days (sys_tasks s) k \<le> used_days (w_bal (sys_world s)) k
    \<and> used_days (w_bal (sys_world s)) k \<le> seed_allocation k"
  using sys_inv_bounds [OF system.inv_reachable [OF assms], of k] by blast

section \<open>Every request moves once\<close>

lemma sys_exec_evolves:
  assumes "sys_inv s" and "sys_exec ops ev s = Some s'"
  shows "req_evolves (w_req (sys_world s)) (w_req (sys_world s'))"
proof -
  note inv = sys_invD [OF assms(1)]
  let ?q = "\<lambda>s. w_req (sys_world s)"
  note edits = sys_edit_defs Let_def
  show ?thesis
  proof (cases ev)
    case (EvInsert t i c u)
    with assms obtain caller p m outcome where t: "dict_get (sys_tasks s) t = Some (TFetched caller p m outcome)"
      and new: "get_request (?q s) i = None" and s': "s' = insert_request t i c u caller p m outcome s"
      by (auto split: option.splits task.splits if_splits)
    have "request_ok (new_request i c u caller p m)" using inv(4) [OF t] by simp
    with new s' show ?thesis
      by (cases rule: apply_leave_finish_cases [of i c u caller p m outcome "?q s"])
        (simp_all add: insert_request_def edits req_evolves_addI)
  next
    case (EvCancel t now i caller)
    with assms(2) have s': "s' = cancel_request t now i caller s" by (simp split: if_splits)
    show ?thesis
      unfolding s' using cancel_evolves [OF inv(2), of now i caller]
      by (auto simp: cancel_request_def edits split: prod.splits)
  next
    case (EvSetApproved t env now)
    with assms(2) obtain caller i lr where s': "s' = mark_approved ops t env now caller i lr s"
      by (auto split: option.splits task.splits)
    show ?thesis
      unfolding s' using decide_update_evolves [OF inv(2)]
      by (auto simp: mark_approved_def edits split: prod.splits)
  next
    case (EvSetRejected t env now)
    with assms(2) obtain caller i reason lr where s': "s' = mark_rejected ops t env now caller i reason lr s"
      by (auto split: option.splits task.splits)
    show ?thesis
      unfolding s' using decide_update_evolves [OF inv(2)]
      by (auto simp: mark_rejected_def edits split: prod.splits)
  qed (use assms(2) in \<open>auto simp: start_apply_def fetch_balance_def start_approve_def deduct_days_def
        start_reject_def edits split: option.splits task.splits if_splits sum.splits prod.splits\<close>)
qed

lemma sys_steps_evolve:
  assumes "sys_init s0" and "(sys_step ops)\<^sup>*\<^sup>* s0 s" and "(sys_step ops)\<^sup>*\<^sup>* s t"
    and "get_request (w_req (sys_world s)) i = Some r"
  shows "\<exists>r'. get_request (w_req (sys_world t)) i = Some r' \<and> evolved r r'"
  using assms(3)
proof (induction rule: rtranclp_induct)
  case base
  then show ?case using assms(4) by auto
next
  case (step t t')
  have inv: "sys_inv t"
    using system.inv_reachable [OF assms(1) rtranclp_trans [OF assms(2) step.hyps(1)]] .
  from step.hyps(2) have "req_evolves (w_req (sys_world t)) (w_req (sys_world t'))"
    by (elim sys_stepE) (rule sys_exec_evolves [OF inv])
  with step.IH show ?case by (meson req_evolves_evolved evolved_trans)
qed

text \<open>
  C6: in the system of all services, whatever is interleaved, lost or retried, a stored request stays
  stored under its id with the same employee, type, dates, days, reason, manager and creation time;
  it is either untouched or has moved from PENDING to exactly one of APPROVED, REJECTED and
  CANCELLED, so a request that is decided or cancelled never changes again.
\<close>

theorem requests_move_once:
  assumes "sys_init s0" and "(sys_step ops)\<^sup>*\<^sup>* s0 s" and "(sys_step ops)\<^sup>*\<^sup>* s t"
    and "get_request (w_req (sys_world s)) i = Some r"
  shows "\<exists>r'. get_request (w_req (sys_world t)) i = Some r' \<and> same_terms r r'
    \<and> (r' = r \<or> status_transition (lr_status r) (lr_status r'))"
  using sys_steps_evolve [OF assms] by (simp add: evolved_def)

section \<open>Notifications\<close>

text \<open>The request id an event carries.\<close>

definition event_request :: "event \<Rightarrow> string option" where
  "event_request ev =
     (case dict_get (snd ev) ''leave_request_id'' of Some (JStr i) \<Rightarrow> Some i | _ \<Rightarrow> None)"

definition applied_ids :: "event list \<Rightarrow> string list" where
  "applied_ids evs = List.map_filter (\<lambda>ev. if fst ev = LEAVE_APPLIED then event_request ev else None) evs"

text \<open>The decisions the outbox announces.\<close>

definition event_decision :: "event \<Rightarrow> (string \<times> LeaveStatus) option" where
  "event_decision ev =
     (case fst ev of
        LEAVE_APPROVED \<Rightarrow> map_option (\<lambda>i. (i, APPROVED)) (event_request ev)
      | LEAVE_REJECTED \<Rightarrow> map_option (\<lambda>i. (i, REJECTED)) (event_request ev)
      | _ \<Rightarrow> None)"

definition decisions :: "event list \<Rightarrow> (string \<times> LeaveStatus) list" where
  "decisions evs = List.map_filter event_decision evs"

lemma notice_simps [simp]:
  "applied_ids (evs @ evs') = applied_ids evs @ applied_ids evs'"
  "decisions (evs @ evs') = decisions evs @ decisions evs'"
  "applied_ids [] = []" "decisions [] = []"
  "applied_ids [applied_event c m i] = [i]" "decisions [applied_event c m i] = []"
  "applied_ids [approved_event lr i] = []" "decisions [approved_event lr i] = [(i, APPROVED)]"
  "applied_ids [rejected_event lr i why] = []" "decisions [rejected_event lr i why] = [(i, REJECTED)]"
  by (simp_all add: applied_ids_def decisions_def map_filter_def event_decision_def event_request_def
      applied_event_def approved_event_def rejected_event_def dict_get_def)

definition request_ids :: "request_state \<Rightarrow> string list" where
  "request_ids s = map fst (requests_store s)"

lemma request_ids_simps:
  "get_request s (lr_request_id r) = None \<Longrightarrow> request_ids (add_request r s) = request_ids s @ [lr_request_id r]"
  "get_request s (lr_request_id r) = Some r0 \<Longrightarrow> request_ids (replace_request r s) = request_ids s"
  by (auto simp: request_ids_def get_request_def add_request_def replace_request_def dict_put_def
      dict_get_def update_keys map_of_eq_None_iff dest!: map_of_SomeD intro: rev_image_eqI)

definition notices_ok :: "'b system \<Rightarrow> bool" where
  "notices_ok s \<longleftrightarrow>
     applied_ids (sys_outbox s) = request_ids (w_req (sys_world s))
     \<and> distinct (map fst (decisions (sys_outbox s)))
     \<and> (\<forall>(i, st) \<in> set (decisions (sys_outbox s)).
          st \<noteq> PENDING \<and> (\<exists>r. get_request (w_req (sys_world s)) i = Some r \<and> lr_status r = st))"

lemma decision_kept:
  "req_evolves s t \<Longrightarrow> get_request s i = Some r \<Longrightarrow> lr_status r \<noteq> PENDING \<Longrightarrow> get_request t i = Some r"
  using req_evolves_evolved [of s t i r] evolved_frozen [of r] by auto

definition announces :: "request_state \<Rightarrow> string \<times> LeaveStatus \<Rightarrow> bool" where
  "announces s d \<longleftrightarrow> snd d \<noteq> PENDING \<and> (\<exists>r. get_request s (fst d) = Some r \<and> lr_status r = snd d)"

lemma announces_kept: "req_evolves s t \<Longrightarrow> announces s d \<Longrightarrow> announces t d"
  using decision_kept unfolding announces_def by metis

lemma notices_ok_iff:
  "notices_ok s \<longleftrightarrow>
     applied_ids (sys_outbox s) = request_ids (w_req (sys_world s))
     \<and> distinct (map fst (decisions (sys_outbox s)))
     \<and> (\<forall>d \<in> set (decisions (sys_outbox s)). announces (w_req (sys_world s)) d)"
  unfolding notices_ok_def announces_def by (simp add: case_prod_beta)

lemma notices_update:
  assumes "notices_ok s" and "sys_outbox s' = sys_outbox s @ evs"
    and "req_evolves (w_req (sys_world s)) (w_req (sys_world s'))"
    and "request_ids (w_req (sys_world s')) = request_ids (w_req (sys_world s)) @ applied_ids evs"
    and "decisions evs = [] \<or> (\<exists>d r. decisions evs = [d] \<and> get_request (w_req (sys_world s)) (fst d) = Some r
      \<and> lr_status r = PENDING \<and> announces (w_req (sys_world s')) d)"
  shows "notices_ok s'"
  unfolding notices_ok_iff
proof (intro conjI ballI)
  note n = assms(1) [unfolded notices_ok_iff]
  show "applied_ids (sys_outbox s') = request_ids (w_req (sys_world s'))"
    using n assms(2,4) by simp
  show "announces (w_req (sys_world s')) d" if "d \<in> set (decisions (sys_outbox s'))" for d
  proof (cases "d \<in> set (decisions (sys_outbox s))")
    case True
    with n show ?thesis by (blast intro: announces_kept [OF assms(3)])
  next
    case False
    with that assms(5) show ?thesis unfolding assms(2) by auto
  qed
  show "distinct (map fst (decisions (sys_outbox s')))"
    using assms(5)
  proof (elim disjE exE conjE)
    fix d r assume d: "decisions evs = [d]" and r: "get_request (w_req (sys_world s)) (fst d) = Some r" "lr_status r = PENDING"
    have "fst d \<notin> fst ` set (decisions (sys_outbox s))"
    proof
      assume "fst d \<in> fst ` set (decisions (sys_outbox s))"
      then obtain d' where "d' \<in> set (decisions (sys_outbox s))" "fst d' = fst d" by auto
      with n have "announces (w_req (sys_world s)) d'" by blast
      with r \<open>fst d' = fst d\<close> show False by (auto simp: announces_def)
    qed
    with n d show ?thesis unfolding assms(2) by simp
  next
    assume "decisions evs = []"
    with n show ?thesis unfolding assms(2) by simp
  qed
qed

lemma decide_update_ids:
  assumes "wf_requests req" and "decide_update ops env now i m st why (cb, req) = ((cb', req'), res)"
  shows "request_ids req' = request_ids req"
    and "is_ok res \<Longrightarrow> \<exists>r. get_request req i = Some r \<and> lr_status r = PENDING \<and> announces req' (i, st)"
proof -
  show "request_ids req' = request_ids req"
    using decide_update_cases [OF assms(2)] wf_requestsD(3) [OF assms(1)]
    by (auto simp: request_ids_simps(2))
  show "\<exists>r. get_request req i = Some r \<and> lr_status r = PENDING \<and> announces req' (i, st)" if "is_ok res"
    using decide_update_cases [OF assms(2)] that wf_requestsD(3) [OF assms(1)]
    by (fastforce simp: announces_def decision_ok_def)
qed

lemma cancel_ids:
  assumes "wf_requests req"
  shows "request_ids (fst (cancel_leave now i caller req)) = request_ids req"
  using assms
  by (cases rule: cancelling.op_cases [of req "(now, i, caller)"]) (auto simp: request_ids_simps(2))

lemma sys_exec_notices:
  assumes "sys_inv s" and "notices_ok s" and "sys_exec ops ev s = Some s'"
  shows "notices_ok s'"
proof -
  note inv = sys_invD [OF assms(1)] and ev = sys_exec_evolves [OF assms(1,3)]
  let ?q = "\<lambda>s. w_req (sys_world s)"
  note edits = sys_edit_defs Let_def
  have silent: ?thesis if "sys_outbox s' = sys_outbox s" "request_ids (?q s') = request_ids (?q s)"
    by (rule notices_update [OF assms(2) _ ev, of "[]"]) (use that in simp_all)
  show ?thesis
  proof (cases ev)
    case (EvInsert t i c u)
    with assms(3) obtain caller p m outcome where new: "get_request (?q s) i = None"
      and s': "s' = insert_request t i c u caller p m outcome s"
      by (auto split: option.splits task.splits if_splits)
    show ?thesis
    proof (cases rule: apply_leave_finish_cases [of i c u caller p m outcome "?q s"])
      case (error e)
      with s' show ?thesis by (intro silent) (simp_all add: insert_request_def edits)
    next
      case (created n)
      with s' new show ?thesis
        by (intro notices_update [OF assms(2) _ ev, of "[applied_event caller m i]"])
          (simp_all add: insert_request_def edits request_ids_simps)
    qed
  next
    case (EvCancel t now i caller)
    with assms(3) have s': "s' = cancel_request t now i caller s" by (simp split: if_splits)
    show ?thesis
      using cancel_ids [OF inv(2), of now i caller] unfolding s'
      by (intro silent [unfolded s']) (auto simp: cancel_request_def edits split: prod.splits)
  next
    case (EvSetApproved t env now)
    with assms(3) obtain caller i lr where s': "s' = mark_approved ops t env now caller i lr s"
      by (auto split: option.splits task.splits)
    obtain cb req res where
      d: "decide_update ops env now i (ci_user_id caller) APPROVED None (w_mgr_req_cb (sys_world s), ?q s) = ((cb, req), res)"
      by (metis prod.collapse)
    show ?thesis
      by (rule notices_update [OF assms(2) _ ev, of "if is_ok res then [approved_event lr i] else []"])
        (use d decide_update_ids [OF inv(2) d] in \<open>simp_all add: s' mark_approved_def edits\<close>)
  next
    case (EvSetRejected t env now)
    with assms(3) obtain caller i reason lr where s': "s' = mark_rejected ops t env now caller i reason lr s"
      by (auto split: option.splits task.splits)
    obtain cb req res where
      d: "decide_update ops env now i (ci_user_id caller) REJECTED (Some reason) (w_mgr_req_cb (sys_world s), ?q s) = ((cb, req), res)"
      by (metis prod.collapse)
    show ?thesis
      by (rule notices_update [OF assms(2) _ ev, of "if is_ok res then [rejected_event lr i reason] else []"])
        (use d decide_update_ids [OF inv(2) d] in \<open>simp_all add: s' mark_rejected_def edits\<close>)
  qed (intro silent; use assms(3) in \<open>auto simp: start_apply_def fetch_balance_def start_approve_def deduct_days_def
        start_reject_def edits split: option.splits task.splits if_splits sum.splits prod.splits\<close>)+
qed

interpretation notices: invariant_system sys_init "sys_step ops" "\<lambda>s. sys_inv s \<and> notices_ok s" for ops
proof
  fix s :: "'a system"
  assume i: "sys_init s"
  then show "sys_inv s \<and> notices_ok s"
    using sys_init_inv [OF i] by (simp add: sys_init_def notices_ok_def request_ids_def empty_requests_def)
next
  fix s t :: "'a system"
  assume "sys_inv s \<and> notices_ok s" and "sys_step ops s t"
  then show "sys_inv t \<and> notices_ok t"
    by (elim sys_stepE) (auto intro: sys_exec_inv sys_exec_notices)
qed

text \<open>
  C7: notifications tell the truth, whatever is interleaved, lost or retried. The LEAVE_APPLIED events
  handed to the publisher name exactly the stored requests, each once and in submission order; at
  most one decision event is published for a request, and an event that announces an approval or a
  rejection is about a stored request that has exactly that status, now and for good.
\<close>

theorem notifications_truthful:
  assumes "sys_init s0" and "(sys_step ops)\<^sup>*\<^sup>* s0 s"
  shows "applied_ids (sys_outbox s) = request_ids (w_req (sys_world s))
    \<and> distinct (request_ids (w_req (sys_world s)))
    \<and> distinct (map fst (decisions (sys_outbox s)))
    \<and> (\<forall>(i, st) \<in> set (decisions (sys_outbox s)).
         st \<in> {APPROVED, REJECTED} \<and> (\<exists>r. get_request (w_req (sys_world s)) i = Some r \<and> lr_status r = st))"
proof -
  note inv = notices.inv_reachable [OF assms]
  have "st \<in> {APPROVED, REJECTED}" if "(i, st) \<in> set (decisions evs)" for i st evs
    using that
    by (auto simp: decisions_def map_filter_def event_decision_def split: NotificationEventType.splits)
  with inv wf_requestsD(1) [OF sys_invD(2)] show ?thesis
    unfolding notices_ok_def request_ids_def wf_dict_def by fastforce
qed

section \<open>Uninterrupted handlers\<close>

text \<open>Running the parts of one task, and nothing else, for as long as it is not answered.\<close>

fun run_task :: "'b breaker_ops \<Rightarrow> nat \<Rightarrow> sys_event list \<Rightarrow> 'b system \<Rightarrow> 'b system option" where
  "run_task ops t [] s = Some s"
| "run_task ops t (ev # evs) s =
     (case sys_exec ops ev s of
        None \<Rightarrow> None
      | Some s' \<Rightarrow> if dict_has (sys_tasks s') t then run_task ops t evs s' else Some s')"

lemma put_put: "dict_put (dict_put d k v) k v' = dict_put d k v'"
  by (induction d) (auto simp: dict_put_def)

lemmas run_simps = dict_has_def sys_edit_defs Let_def del_put_absent put_put dict_del_absent

text \<open>
  The parts compose to the handlers. Running the parts of one task without anything in between has, for
  every fate of its calls and every outcome, exactly the effect of the whole handler: the same stores and
  breakers, the same events, the same status.
\<close>

lemma approve_uninterrupted:
  assumes "\<not> dict_has (sys_tasks s) t" and "ci_role caller = MANAGER"
    and "approve_request ops n env1 env2 now i caller (sys_world s) = (w', evs, resp)"
  shows "run_task ops t [EvApprove t n i caller, EvDeduct t env1, EvSetApproved t env2 now] s =
    Some (s\<lparr>sys_world := w', sys_outbox := sys_outbox s @ evs,
            sys_answers := sys_answers s @ [(t, answer_code 200 resp)]\<rparr>)"
proof (cases "load_pending ''approved'' n i caller (w_req (sys_world s))")
  case (Inl e)
  with assms show ?thesis
    by (auto simp: start_approve_def approve_request_def run_simps answer_code_def respond_def split: exn.splits)
next
  case (Inr lr)
  obtain cb bal dres where d: "approve_deduct ops env1 lr (w_mgr_bal_cb (sys_world s), w_bal (sys_world s)) = ((cb, bal), dres)"
    by (metis prod.collapse)
  show ?thesis
  proof (cases dres)
    case (Inl e)
    with assms d \<open>load_pending _ _ _ _ _ = _\<close> show ?thesis
      by (auto simp: start_approve_def deduct_days_def approve_request_def run_simps answer_code_def respond_def
          split: exn.splits)
  next
    case (Inr x)
    obtain cb' req ures where u: "decide_update ops env2 now i (ci_user_id caller) APPROVED None
        (w_mgr_req_cb (sys_world s), w_req (sys_world s)) = ((cb', req), ures)"
      by (metis prod.collapse)
    from Inr assms d u \<open>load_pending _ _ _ _ _ = _\<close> show ?thesis
      by (cases ures) (auto simp: start_approve_def deduct_days_def mark_approved_def approve_request_def
          run_simps answer_code_def respond_def split: exn.splits)
  qed
qed


lemma reject_uninterrupted:
  assumes "\<not> dict_has (sys_tasks s) t" and "ci_role caller = MANAGER" and "valid_RejectLeaveRequest reason"
    and "reject_request ops n env now i reason caller (sys_world s) = (w', evs, resp)"
  shows "run_task ops t [EvReject t n i reason caller, EvSetRejected t env now] s =
    Some (s\<lparr>sys_world := w', sys_outbox := sys_outbox s @ evs,
            sys_answers := sys_answers s @ [(t, answer_code 200 resp)]\<rparr>)"
proof (cases "load_pending ''rejected'' n i caller (w_req (sys_world s))")
  case (Inl e)
  with assms show ?thesis
    by (auto simp: start_reject_def reject_request_def run_simps answer_code_def respond_def split: exn.splits)
next
  case (Inr lr)
  obtain cb' req ures where u: "decide_update ops env now i (ci_user_id caller) REJECTED (Some reason)
      (w_mgr_req_cb (sys_world s), w_req (sys_world s)) = ((cb', req), ures)"
    by (metis prod.collapse)
  from Inr assms u show ?thesis
    by (cases ures) (auto simp: start_reject_def mark_rejected_def reject_request_def
        run_simps answer_code_def respond_def split: exn.splits)
qed

lemma apply_uninterrupted:
  assumes "\<not> dict_has (sys_tasks s) t" and "valid_ApplyLeaveRequest p"
    and "get_request (w_req (sys_world s)) i = None"
    and "invoke_with_breaker ops (ce_before env) (ce_after env)
        (fetch_remaining (ce_net env) (ci_user_id caller) (al_leave_type p))
        (w_req_bal_cb (sys_world s), w_bal (sys_world s)) = ((cb, bal), outcome)"
    and "apply_leave i today c u caller p outcome (w_req (sys_world s)) = (req, evs, resp)"
  shows "run_task ops t [EvApply t today caller p, EvFetch t env, EvInsert t i c u] s =
    Some (s\<lparr>sys_world :=
              (if is_ok (apply_leave_begin today caller p (w_req (sys_world s)))
               then (sys_world s)\<lparr>w_req_bal_cb := cb, w_bal := bal, w_req := req\<rparr> else sys_world s),
            sys_outbox := sys_outbox s @ evs,
            sys_answers := sys_answers s @ [(t, answer_code 201 resp)]\<rparr>)"
proof (cases "apply_leave_begin today caller p (w_req (sys_world s))")
  case (Inl e)
  with assms show ?thesis
    by (auto simp: start_apply_def apply_leave_def run_simps answer_code_def respond_def split: exn.splits)
next
  case (Inr m)
  with assms show ?thesis
    by (auto simp: start_apply_def fetch_balance_def insert_request_def apply_leave_def run_simps)
qed

end
