(* ===== verification/Leave_Runs.thy ===== *)
theory Leave_Runs
  imports Leave_System
begin

text \<open>
  Concrete runs: a seeded system with the sample breakers, an employee, a manager and a three-day
  application; what interleaving can do to it; and the instances that show the hypotheses of the
  properties of the balance, request and manager components can hold.
\<close>

section \<open>The example\<close>

definition demo_date :: "nat \<Rightarrow> date" where
  "demo_date d = Date 2030 1 d"

definition demo_time :: datetime where
  "demo_time = \<lparr>dt_date = demo_date 1, dt_hour = 9, dt_minute = 0, dt_second = 0, dt_microsecond = 0\<rparr>"

definition demo_uuids :: "nat \<Rightarrow> string" where
  "demo_uuids n = replicate n (CHR ''u'')"

definition demo_balances :: balance_state where
  "demo_balances = (case seed_balances demo_uuids empty_balances of Inl e \<Rightarrow> empty_balances | Inr s \<Rightarrow> s)"

definition demo_start :: "sample_cb system" where
  "demo_start =
     \<lparr>sys_world = \<lparr>w_bal = demo_balances, w_req = empty_requests, w_req_bal_cb = sample_closed,
                   w_mgr_bal_cb = sample_closed, w_mgr_req_cb = sample_closed\<rparr>,
      sys_tasks = [], sys_outbox = [], sys_answers = []\<rparr>"

abbreviation demo_ops :: "sample_cb breaker_ops" where
  "demo_ops \<equiv> sample_ops leave_balance_cb"

definition demo_employee :: CallerIdentity where
  "demo_employee = \<lparr>ci_user_id = EMP1_ID, ci_role = EMPLOYEE\<rparr>"

definition demo_manager :: CallerIdentity where
  "demo_manager = \<lparr>ci_user_id = MANAGER1_ID, ci_role = MANAGER\<rparr>"

definition demo_payload :: ApplyLeaveRequest where
  "demo_payload = \<lparr>al_leave_type = CASUAL, al_start_date = demo_date 7, al_end_date = demo_date 9,
     al_number_of_days = 3, al_reason = ''trip'', al_reporting_manager_id = None\<rparr>"

definition demo_env :: call_env where
  "demo_env = \<lparr>ce_net = Delivered, ce_before = 0, ce_after = 1\<rparr>"

definition demo_apply :: "nat \<Rightarrow> string \<Rightarrow> sys_event list" where
  "demo_apply t i = [EvApply t (demo_date 1) demo_employee demo_payload, EvFetch t demo_env,
     EvInsert t i demo_time demo_time]"

lemma demo_dates [simp]:
  "toordinal (demo_date d) = days_before_year 2030 + d"
  "valid_date (demo_date d) \<longleftrightarrow> 1 \<le> d \<and> d \<le> 31"
  "demo_date d < demo_date e \<longleftrightarrow> d < e" "demo_date d \<le> demo_date e \<longleftrightarrow> d \<le> e" "demo_date d = demo_date e \<longleftrightarrow> d = e"
  by (auto simp: demo_date_def days_before_month_def days_in_month_def month_table_def less_eq_date_def)

lemma demo_uuids_eq [simp]: "demo_uuids m = demo_uuids n \<longleftrightarrow> m = n"
  by (auto simp: demo_uuids_def dest: arg_cong [of _ _ length])

definition demo_row :: "nat \<Rightarrow> string \<Rightarrow> LeaveType \<Rightarrow> int \<Rightarrow> int \<Rightarrow> LeaveBalance" where
  "demo_row i e t n u = \<lparr>lb_balance_id = demo_uuids i, lb_employee_id = e, lb_leave_type = t,
     lb_total_allocated = n, lb_used = u\<rparr>"

lemma demo_seed: "seed_balances demo_uuids empty_balances = Inr
  \<lparr>balances_store = map (\<lambda>b. (lb_balance_id b, b))
     [demo_row 0 EMP1_ID CASUAL 12 0, demo_row 1 EMP1_ID SICK 10 0, demo_row 2 EMP1_ID PRIVILEGE 15 0,
      demo_row 3 EMP2_ID CASUAL 12 0, demo_row 4 EMP2_ID SICK 10 0, demo_row 5 EMP2_ID PRIVILEGE 15 0],
   employee_leavetype_index = map (\<lambda>b. ((lb_employee_id b, lb_leave_type b), lb_balance_id b))
     [demo_row 0 EMP1_ID CASUAL 12 0, demo_row 1 EMP1_ID SICK 10 0, demo_row 2 EMP1_ID PRIVILEGE 15 0,
      demo_row 3 EMP2_ID CASUAL 12 0, demo_row 4 EMP2_ID SICK 10 0, demo_row 5 EMP2_ID PRIVILEGE 15 0]\<rparr>"
  by (simp add: seed_eval demo_row_def dict_put_def dict_get_def numeral_2_eq_2)

lemmas demo_defs = demo_start_def demo_employee_def demo_manager_def demo_payload_def demo_env_def demo_time_def
  demo_balances_def demo_seed demo_row_def sample_closed_def
lemmas apply_evals = start_apply_def valid_ApplyLeaveRequest_def apply_leave_begin_def validate_dates_def
  resolve_manager_def get_manager_id_eq check_overlap_def get_requests_for_employee_def empty_requests_def
  dict_get_or_def days_between_def active_iff active_def
lemmas dict_evals = dict_get_def dict_put_def dict_del_def dict_has_def dict_values_def
lemmas fetch_evals = fetch_balance_def invoke_with_breaker_def fetch_remaining_def
  employee_balances_endpoint_def employee_balances_def get_caller_def str_falsy_def balances_response_def
  get_balances_for_employee_def BalanceItem_from_model_def sample_ops_def sample_record_def Role_of_def enum_of_value_def lb_remaining_def
lemmas insert_evals = insert_request_def apply_leave_finish_def new_request_def add_request_def index_append_def get_request_def
  answer_code_def
lemmas sys_evals = sys_edit_defs

lemmas approve_evals = start_approve_def require_manager_def load_pending_def load_team_request_def client_get_request_def
  list_requests_def keep_if_def LeaveRequestResponse_from_model_def map_call_error_def
  deduct_days_def approve_deduct_def client_deduct_balance_def deduct_endpoint_def valid_DeductRequest_def
  deduct_balance_def apply_deduction_def get_balance_def
  mark_approved_def decide_update_def set_request_status_def update_status_endpoint_def
  valid_StatusUpdateRequest_def update_request_status_def set_status_def replace_request_def
  cancel_request_def cancel_leave_def
lemmas run_evals = demo_defs apply_evals dict_evals sys_evals fetch_evals insert_evals approve_evals Let_def Suc_le_eq

lemma demo_init: "sys_init demo_start"
  unfolding sys_init_def
  by (auto simp: demo_start_def demo_balances_def demo_seed inj_def intro!: exI [of _ demo_uuids])

section \<open>Runs\<close>

definition demo_double :: "sys_event list" where
  "demo_double = [EvApply 0 (demo_date 1) demo_employee demo_payload,
     EvApply 1 (demo_date 1) demo_employee demo_payload,
     EvFetch 0 demo_env, EvFetch 1 demo_env,
     EvInsert 0 ''a'' demo_time demo_time, EvInsert 1 ''b'' demo_time demo_time]"

definition demo_cancel_race :: "sys_event list" where
  "demo_cancel_race = demo_apply 0 ''a'' @
     [EvApprove 1 Delivered ''a'' demo_manager, EvDeduct 1 demo_env,
      EvCancel 2 demo_time ''a'' demo_employee, EvSetApproved 1 demo_env demo_time]"

definition demo_two_approvals :: "sys_event list" where
  "demo_two_approvals = demo_apply 0 ''a'' @
     [EvApprove 1 Delivered ''a'' demo_manager, EvApprove 2 Delivered ''a'' demo_manager,
      EvDeduct 1 demo_env, EvDeduct 2 demo_env,
      EvSetApproved 1 demo_env demo_time, EvSetApproved 2 demo_env demo_time]"

definition demo_lost_env :: call_env where
  "demo_lost_env = \<lparr>ce_net = RequestLost ConnectError, ce_before = 0, ce_after = 1\<rparr>"

definition demo_retry :: "sys_event list" where
  "demo_retry = demo_apply 0 ''a'' @
     [EvApprove 1 Delivered ''a'' demo_manager, EvDeduct 1 demo_env, EvSetApproved 1 demo_lost_env demo_time,
      EvApprove 2 Delivered ''a'' demo_manager, EvDeduct 2 demo_env, EvSetApproved 2 demo_env demo_time]"

definition demo_approval :: "sys_event list" where
  "demo_approval = [EvApprove 1 Delivered ''a'' demo_manager, EvDeduct 1 demo_env, EvSetApproved 1 demo_env demo_time]"

lemmas count_evals = used_days_def approved_days_def dict_sum_def request_key_def

lemma double_run: "\<exists>s r q. sys_run demo_ops demo_double demo_start = Some s
   \<and> sys_tasks s = [] \<and> sys_answers s = [(0, 201), (1, 201)]
   \<and> get_request (w_req (sys_world s)) ''a'' = Some r \<and> get_request (w_req (sys_world s)) ''b'' = Some q
   \<and> lr_employee_id r = EMP1_ID \<and> lr_employee_id q = EMP1_ID \<and> active r \<and> active q
   \<and> request_span r = request_span q \<and> demo_date 8 \<in> request_span r"
  unfolding demo_double_def by (simp add: run_evals request_span_def date_span_def)

lemma cancel_race_run: "\<exists>s. sys_run demo_ops demo_cancel_race demo_start = Some s \<and> sys_tasks s = []
   \<and> sys_answers s = [(0, 201), (2, 200), (1, 409)]
   \<and> used_days (w_bal (sys_world s)) (EMP1_ID, CASUAL) = 3
   \<and> approved_days (w_req (sys_world s)) (EMP1_ID, CASUAL) = 0"
  unfolding demo_cancel_race_def demo_apply_def by (simp add: run_evals count_evals)

lemma two_approvals_run: "\<exists>s. sys_run demo_ops demo_two_approvals demo_start = Some s \<and> sys_tasks s = []
   \<and> sys_answers s = [(0, 201), (1, 200), (2, 409)]
   \<and> used_days (w_bal (sys_world s)) (EMP1_ID, CASUAL) = 6
   \<and> approved_days (w_req (sys_world s)) (EMP1_ID, CASUAL) = 3"
  unfolding demo_two_approvals_def demo_apply_def by (simp add: run_evals count_evals)

lemma retry_run: "\<exists>s. sys_run demo_ops demo_retry demo_start = Some s \<and> sys_tasks s = []
   \<and> sys_answers s = [(0, 201), (1, 503), (2, 200)]
   \<and> used_days (w_bal (sys_world s)) (EMP1_ID, CASUAL) = 6
   \<and> approved_days (w_req (sys_world s)) (EMP1_ID, CASUAL) = 3"
  unfolding demo_retry_def demo_apply_def
  by (simp add: run_evals count_evals demo_lost_env_def downstream_unavailable_def leave_balance_cb_def
      http_call_def)

lemma apply_run: "\<exists>s r. sys_run demo_ops (demo_apply 0 ''a'') demo_start = Some s
   \<and> get_request (w_req (sys_world s)) ''a'' = Some r \<and> lr_status r = PENDING"
  unfolding demo_apply_def by (simp add: run_evals)

lemma approval_run: "\<exists>s r. sys_run demo_ops (demo_apply 0 ''a'' @ demo_approval) demo_start = Some s
   \<and> get_request (w_req (sys_world s)) ''a'' = Some r \<and> lr_status r = APPROVED
   \<and> approved_days (w_req (sys_world s)) (EMP1_ID, CASUAL) = 3"
  unfolding demo_apply_def demo_approval_def by (simp add: run_evals count_evals)

section \<open>What interleaving can do\<close>

text \<open>
  C37: the overlap check does not hold across its await. Two applications of one employee for the
  same three days, both validated before either is inserted, are both accepted (201) by a run of the
  system from the seeded start; in its final state nothing is in progress and two pending requests
  of the employee cover the same days.
\<close>

theorem double_booking_reachable:
  "sys_init demo_start \<and> (\<exists>s r q. sys_run demo_ops demo_double demo_start = Some s
     \<and> sys_tasks s = [] \<and> sys_answers s = [(0, 201), (1, 201)]
     \<and> get_request (w_req (sys_world s)) ''a'' = Some r \<and> get_request (w_req (sys_world s)) ''b'' = Some q
     \<and> lr_employee_id r = EMP1_ID \<and> lr_employee_id q = EMP1_ID \<and> active r \<and> active q
     \<and> request_span r = request_span q \<and> demo_date 8 \<in> request_span r)"
  using demo_init double_run by (rule conjI)

text \<open>
  C38: the converse of the days bound fails: days can stay deducted that no approved request accounts
  for, with no handler in progress. It happens when the employee cancels between the deduction and
  the status update (the manager gets 409, three days are gone for a cancelled request), when two
  approvals of one request overlap, and when the status update is lost and the manager retries after
  the 503 (six days are gone for a three-day request).
\<close>

theorem deduction_can_leak:
  "sys_init demo_start
   \<and> (\<exists>s. sys_run demo_ops demo_cancel_race demo_start = Some s \<and> sys_tasks s = []
        \<and> sys_answers s = [(0, 201), (2, 200), (1, 409)]
        \<and> used_days (w_bal (sys_world s)) (EMP1_ID, CASUAL) = 3
        \<and> approved_days (w_req (sys_world s)) (EMP1_ID, CASUAL) = 0)
   \<and> (\<exists>s. sys_run demo_ops demo_two_approvals demo_start = Some s \<and> sys_tasks s = []
        \<and> sys_answers s = [(0, 201), (1, 200), (2, 409)]
        \<and> used_days (w_bal (sys_world s)) (EMP1_ID, CASUAL) = 6
        \<and> approved_days (w_req (sys_world s)) (EMP1_ID, CASUAL) = 3)
   \<and> (\<exists>s. sys_run demo_ops demo_retry demo_start = Some s \<and> sys_tasks s = []
        \<and> sys_answers s = [(0, 201), (1, 503), (2, 200)]
        \<and> used_days (w_bal (sys_world s)) (EMP1_ID, CASUAL) = 6
        \<and> approved_days (w_req (sys_world s)) (EMP1_ID, CASUAL) = 3)"
  using demo_init cancel_race_run two_approvals_run retry_run by (intro conjI)

section \<open>Instances of the system properties\<close>

theorem approved_within_allocation_witness:
  "\<exists>s. (sys_step demo_ops)\<^sup>*\<^sup>* demo_start s
     \<and> approved_days (w_req (sys_world s)) (EMP1_ID, CASUAL) = 3
     \<and> 3 \<le> used_days (w_bal (sys_world s)) (EMP1_ID, CASUAL)
     \<and> used_days (w_bal (sys_world s)) (EMP1_ID, CASUAL) \<le> seed_allocation (EMP1_ID, CASUAL)"
proof -
  from approval_run obtain s where "sys_run demo_ops (demo_apply 0 ''a'' @ demo_approval) demo_start = Some s"
    and a: "approved_days (w_req (sys_world s)) (EMP1_ID, CASUAL) = 3" by blast
  then have r: "(sys_step demo_ops)\<^sup>*\<^sup>* demo_start s" by (intro sys_run_steps)
  from approved_within_allocation [OF demo_init r, of "(EMP1_ID, CASUAL)"] a r show ?thesis by auto
qed

lemma demo_two_states:
  obtains s t r where "(sys_step demo_ops)\<^sup>*\<^sup>* demo_start s" "(sys_step demo_ops)\<^sup>*\<^sup>* s t"
    "get_request (w_req (sys_world s)) ''a'' = Some r" "lr_status r = PENDING"
    "\<exists>q. get_request (w_req (sys_world t)) ''a'' = Some q \<and> lr_status q = APPROVED"
proof -
  from apply_run obtain s r where s: "sys_run demo_ops (demo_apply 0 ''a'') demo_start = Some s"
    "get_request (w_req (sys_world s)) ''a'' = Some r" "lr_status r = PENDING" by blast
  from approval_run obtain t q where "sys_run demo_ops (demo_apply 0 ''a'' @ demo_approval) demo_start = Some t"
    and q: "get_request (w_req (sys_world t)) ''a'' = Some q" "lr_status q = APPROVED" by blast
  with s have "sys_run demo_ops demo_approval s = Some t" by (simp add: sys_run_append)
  with s q that show thesis by (blast intro: sys_run_steps)
qed

theorem requests_move_once_witness:
  "\<exists>s t r r'. (sys_step demo_ops)\<^sup>*\<^sup>* s t \<and> get_request (w_req (sys_world s)) ''a'' = Some r
     \<and> lr_status r = PENDING \<and> get_request (w_req (sys_world t)) ''a'' = Some r'
     \<and> same_terms r r' \<and> status_transition (lr_status r) (lr_status r')"
proof -
  obtain s t r where st: "(sys_step demo_ops)\<^sup>*\<^sup>* demo_start s" "(sys_step demo_ops)\<^sup>*\<^sup>* s t"
    "get_request (w_req (sys_world s)) ''a'' = Some r" "lr_status r = PENDING"
    "\<exists>q. get_request (w_req (sys_world t)) ''a'' = Some q \<and> lr_status q = APPROVED"
    by (rule demo_two_states)
  from requests_move_once [OF demo_init st(1-3)] st show ?thesis by fastforce
qed

theorem notifications_truthful_witness:
  "\<exists>s. (sys_step demo_ops)\<^sup>*\<^sup>* demo_start s \<and> get_request (w_req (sys_world s)) ''a'' \<noteq> None
     \<and> applied_ids (sys_outbox s) = request_ids (w_req (sys_world s))"
proof -
  obtain s t r where st: "(sys_step demo_ops)\<^sup>*\<^sup>* demo_start s" "(sys_step demo_ops)\<^sup>*\<^sup>* s t"
    "get_request (w_req (sys_world s)) ''a'' = Some r" "lr_status r = PENDING"
    "\<exists>q. get_request (w_req (sys_world t)) ''a'' = Some q \<and> lr_status q = APPROVED"
    by (rule demo_two_states)
  from notifications_truthful [OF demo_init st(1)] st show ?thesis by auto
qed

section \<open>A pending request\<close>

definition demo_request :: LeaveRequest where
  "demo_request = new_request ''a'' demo_time demo_time demo_employee demo_payload MANAGER1_ID"

definition demo_requests :: request_state where
  "demo_requests = add_request demo_request empty_requests"

definition demo_world :: "sample_cb world" where
  "demo_world = (sys_world demo_start)\<lparr>w_req := demo_requests\<rparr>"

definition demo_system :: "sample_cb system" where
  "demo_system = demo_start\<lparr>sys_world := demo_world\<rparr>"

lemma get_empty_requests [simp]: "get_request empty_requests i = None"
  by (simp add: get_request_def empty_requests_def dict_get_def)

lemma demo_request_simps [simp]:
  "lr_request_id demo_request = ''a''" "lr_employee_id demo_request = EMP1_ID"
  "lr_leave_type demo_request = CASUAL" "lr_number_of_days demo_request = 3"
  "lr_status demo_request = PENDING" "lr_reporting_manager_id demo_request = MANAGER1_ID"
  "lr_start_date demo_request = demo_date 7" "lr_end_date demo_request = demo_date 9"
  "request_span demo_request = date_span (demo_date 7) (demo_date 9)"
  "request_key demo_request = (EMP1_ID, CASUAL)"
  by (simp_all add: demo_request_def new_request_def demo_employee_def demo_payload_def request_span_def
      request_key_def)

lemma demo_request_ok: "request_ok demo_request"
  by (simp add: request_ok_def days_between_def get_manager_id_eq) (simp add: demo_request_def new_request_def)

lemma demo_requests_wf: "wf_requests demo_requests"
  unfolding demo_requests_def by (intro add_request_wf wf_empty_requests demo_request_ok) simp

lemma demo_requests_get [simp]: "get_request demo_requests i = (if i = ''a'' then Some demo_request else None)"
  by (simp add: demo_requests_def)

lemma demo_requests_values: "dict_values (requests_store demo_requests) = [demo_request]"
  by (simp add: demo_requests_def add_request_def empty_requests_def dict_put_def dict_values_def)

lemma demo_balances_ok:
  "wf_balances demo_balances" "used_days demo_balances k = 0" "allocated_days demo_balances k = seed_allocation k"
  using seeded_days [of demo_uuids demo_balances] by (simp_all add: inj_def demo_balances_def demo_seed)

lemma demo_allocation [simp]: "seed_allocation (EMP1_ID, CASUAL) = 12"
  by (simp add: seed_allocation_def get_seed_employees_def SEED_USERS_def DEFAULT_LEAVE_ALLOCATIONS_def dict_get_def)

lemma demo_world_simps [simp]:
  "w_req demo_world = demo_requests" "w_bal demo_world = demo_balances"
  "w_mgr_bal_cb demo_world = sample_closed" "w_mgr_req_cb demo_world = sample_closed"
  by (simp_all add: demo_world_def demo_start_def)

lemma demo_healthy: "breaker_healthy (sample_ops cfg) sample_closed"
  by (simp add: breaker_healthy_def sample_ops_def sample_closed_def)

lemma demo_env_simps [simp]: "ce_net demo_env = Delivered"
  by (simp add: demo_env_def)

lemma demo_callers [simp]:
  "ci_role demo_manager = MANAGER" "ci_user_id demo_manager = MANAGER1_ID"
  "ci_role demo_employee = EMPLOYEE" "ci_user_id demo_employee = EMP1_ID"
  by (simp_all add: demo_manager_def demo_employee_def)

lemma demo_load_status: "load_status demo_requests ''a'' MANAGER1_ID = 200"
  by (simp add: load_status_def)

lemma demo_deduct_status: "deduct_status demo_balances demo_request = 200"
  using deduct_status_200_iff [OF demo_request_ok, of demo_balances] by (simp add: demo_balances_ok)

lemma demo_approve_status: "approve_status demo_world ''a'' MANAGER1_ID = 200"
  by (simp add: approve_status_def demo_load_status demo_deduct_status)

lemma demo_approve_ok:
  assumes "approve_request demo_ops Delivered demo_env demo_env demo_time ''a'' demo_manager demo_world = (w', evs, resp)"
  shows "is_ok resp"
  using approve_answered [OF sample_passes_success sample_stored_state _ _ _ _ _ assms]
  by (auto simp: demo_healthy demo_requests_wf demo_approve_status)

section \<open>Instances of the component properties\<close>

theorem approve_all_or_nothing_witness:
  "\<exists>w' evs resp. approve_request demo_ops Delivered demo_env demo_env demo_time ''a'' demo_manager demo_world = (w', evs, resp)
     \<and> is_ok resp \<and> used_days (w_bal w') (EMP1_ID, CASUAL) = 3"
proof -
  obtain w' evs resp where
    run: "approve_request demo_ops Delivered demo_env demo_env demo_time ''a'' demo_manager demo_world = (w', evs, resp)"
    by (cases "approve_request demo_ops Delivered demo_env demo_env demo_time ''a'' demo_manager demo_world")
  from approve_all_or_nothing [OF sample_passes_success sample_stored_state _ _ _ _ _ _ run]
  have "is_ok resp \<and> used_days (w_bal w') (EMP1_ID, CASUAL) = 3"
    by (auto simp: demo_healthy demo_requests_wf demo_balances_ok demo_approve_status)
  with run show ?thesis by blast
qed

theorem approve_outcomes_witness:
  "\<exists>w' evs resp. approve_request demo_ops Delivered demo_env demo_lost_env demo_time ''a'' demo_manager demo_world = (w', evs, resp)
     \<and> (w_bal w' = demo_balances \<or> charged demo_balances (w_bal w') demo_request)"
proof -
  obtain w' evs resp where
    run: "approve_request demo_ops Delivered demo_env demo_lost_env demo_time ''a'' demo_manager demo_world = (w', evs, resp)"
    by (cases "approve_request demo_ops Delivered demo_env demo_lost_env demo_time ''a'' demo_manager demo_world")
  from approve_outcomes [OF _ _ run] run show ?thesis
    by (fastforce simp: demo_requests_wf demo_balances_ok)
qed

theorem reject_outcomes_witness:
  "\<exists>w' evs resp. reject_request demo_ops Delivered demo_env demo_time ''a'' ''no cover'' demo_manager demo_world = (w', evs, resp)
     \<and> is_ok resp \<and> w_bal w' = demo_balances"
proof -
  obtain w' evs resp where
    run: "reject_request demo_ops Delivered demo_env demo_time ''a'' ''no cover'' demo_manager demo_world = (w', evs, resp)"
    by (cases "reject_request demo_ops Delivered demo_env demo_time ''a'' ''no cover'' demo_manager demo_world")
  have "str_strip ''no cover'' \<noteq> []" by code_simp
  with reject_outcomes [OF _ run] run show ?thesis
    by (simp add: demo_requests_wf demo_healthy demo_load_status)
qed

lemma manager_routes_guarded_witness:
  "\<exists>d. approve_endpoint demo_ops Delivered demo_env demo_env demo_time ''a'' (Some EMP1_ID) (Some ''EMPLOYEE'') demo_world
     = (demo_world, [], Error_response 403 d)"
  using manager_routes_guarded [of "Some EMP1_ID" "Some ''EMPLOYEE''" demo_ops Delivered demo_env demo_env demo_time
      "''a''" demo_world "''no''" "\<lambda>_. None" None None None None]
  by (auto simp: Let_def split: if_splits) (metis Role_value.simps(1))

theorem team_list_scoped_witness:
  "manager_list_requests (\<lambda>_. None) Delivered demo_manager (Some ''PENDING'') None None None demo_requests
     = Inr [ManagerRequestView_from_payload (LeaveRequestResponse_from_model demo_request)]"
  using team_list_scoped [OF demo_requests_wf, of "\<lambda>_. None" demo_manager "Some ''PENDING''" None None None]
  by (simp add: team_filter_def str_falsy_def demo_requests_values LeaveStatus_of_def enum_of_value_def)

theorem apply_validations_exact_witness:
  "\<exists>m. apply_leave_begin (demo_date 1) demo_employee demo_payload empty_requests = Inr m"
proof -
  have v: "valid_ApplyLeaveRequest demo_payload"
    by (simp add: valid_ApplyLeaveRequest_def demo_payload_def)
  have c: "int (card (date_span (demo_date 7) (demo_date 9))) = 3"
    by (subst card_date_span) (simp_all add: days_between_def)
  show ?thesis
    using apply_validations_exact [OF wf_empty_requests v, of "demo_date 1" demo_employee MANAGER1_ID] c
    by (auto simp: demo_payload_def get_manager_id_eq)
qed

theorem serial_no_double_booking_witness:
  "{i. \<exists>r. get_request demo_requests i = Some r \<and> active r \<and> lr_employee_id r = EMP1_ID
      \<and> demo_date 8 \<in> request_span r} = {''a''}"
proof -
  have "apply_leave ''a'' (demo_date 1) demo_time demo_time demo_employee demo_payload (Inr 12) empty_requests
      = (demo_requests, [applied_event demo_employee MANAGER1_ID ''a''], Inr (LeaveRequestResponse_from_model demo_request))"
    by (simp add: apply_leave_def apply_evals apply_leave_finish_def demo_requests_def demo_request_def
        demo_payload_def dict_get_def Let_def)
  moreover have "valid_ApplyLeaveRequest demo_payload"
    by (simp add: valid_ApplyLeaveRequest_def demo_payload_def)
  ultimately have "serial_step empty_requests demo_requests"
    using serial_step.do_apply [of demo_payload empty_requests "''a''" "demo_date 1" demo_time demo_time demo_employee "Inr 12"]
    by simp
  then have r: "serial_step\<^sup>*\<^sup>* empty_requests demo_requests" by simp
  have d: "demo_date 8 \<in> request_span demo_request" by (simp add: date_span_def)
  have a: "get_request demo_requests ''a'' = Some demo_request" "active demo_request"
    by (simp_all add: active_def)
  have "i = ''a''" if "get_request demo_requests i = Some q" "active q" "lr_employee_id q = EMP1_ID"
      "demo_date 8 \<in> request_span q" for i q
    using serial_no_double_booking [OF r that(1,2,4) a d] that(3) by simp
  then show ?thesis using a d demo_request_simps(2) by blast
qed


theorem history_pages_partition_witness:
  "history_items demo_requests demo_employee None 1 10 = [LeaveRequestResponse_from_model demo_request]"
  using history_pages_partition [OF demo_requests_wf, of 10 None demo_employee]
  by (simp add: history_filter_ok_def history_selection_def demo_requests_values)

definition demo_deduction :: DeductRequest where
  "demo_deduction = \<lparr>dr_employee_id = EMP1_ID, dr_leave_type = CASUAL, dr_days = 3\<rparr>"

theorem deductions_never_overdraw_witness:
  "used_days (fst (run_deductions [demo_deduction, demo_deduction] demo_balances)) (EMP1_ID, CASUAL) \<le> 12"
  using deductions_never_overdraw [OF demo_balances_ok(1), of "[demo_deduction, demo_deduction]"
      "fst (run_deductions [demo_deduction, demo_deduction] demo_balances)"
      "snd (run_deductions [demo_deduction, demo_deduction] demo_balances)" "(EMP1_ID, CASUAL)"]
  by (simp add: demo_balances_ok)

theorem deduct_endpoint_refines_ledger_witness:
  "fst (ledger_deduct demo_deduction (abs_ledger demo_balances)) = abs_ledger (fst (deduct_endpoint demo_deduction demo_balances))"
  using deduct_endpoint_refines_ledger [OF demo_balances_ok(1), of demo_deduction
      "fst (deduct_endpoint demo_deduction demo_balances)" "snd (deduct_endpoint demo_deduction demo_balances)"]
  by simp

lemma seed_balances_correct_witness:
  "\<exists>s. seed_balances demo_uuids empty_balances = Inr s \<and> wf_balances s"
  using seed_balances_correct [of demo_uuids demo_uuids] by (auto simp: inj_def)

theorem open_breaker_never_recovers_witness:
  "invoke_all demo_ops [(100, 101, \<lambda>s. (s, Inr True))] (sample_closed\<lparr>scb_state := ''open''\<rparr>, 0 :: nat)
     = ((sample_closed\<lparr>scb_state := ''open''\<rparr>, 0), [Inl breaker_open_error])"
proof -
  have "cb_current_state demo_ops 0 (sample_closed\<lparr>scb_state := ''open''\<rparr>) = ''open''"
    by (simp add: sample_ops_def)
  from open_breaker_never_recovers [OF sample_stored_state this, of "[(100, 101, \<lambda>s. (s, Inr True))]" "0 :: nat"]
  show ?thesis by simp
qed

end
