(* ===== verification/Notification_Service.thy ===== *)
theory Notification_Service
  imports Py_Json Py_Date Leave_System
begin

text \<open>
  The Notification Service (\<open>notification_service/\<close>): the log entry, the append-only store with its
  lookups, the message texts, the processing of one payload, and the consumer loop as a machine
  whose events are what the broker does.
\<close>

section \<open>Model and store\<close>

text \<open>The four reference fields hold whatever \<open>payload.get\<close> returns; absent is \<open>None\<close>.\<close>

record NotificationLog =
  nl_log_id :: string
  nl_event_type :: NotificationEventType
  nl_employee_id :: json
  nl_manager_id :: json
  nl_leave_request_id :: json
  nl_reason :: json
  nl_message :: string
  nl_timestamp :: datetime

definition add_log :: "NotificationLog \<Rightarrow> NotificationLog list \<Rightarrow> NotificationLog list" where
  "add_log log logs = logs @ [log]"

definition get_logs_by_event_type :: "NotificationLog list \<Rightarrow> NotificationEventType \<Rightarrow> NotificationLog list" where
  "get_logs_by_event_type logs event_type = filter (\<lambda>log. nl_event_type log = event_type) logs"

definition get_logs_for_employee :: "NotificationLog list \<Rightarrow> string \<Rightarrow> NotificationLog list" where
  "get_logs_for_employee logs employee_id = filter (\<lambda>log. nl_employee_id log = JStr employee_id) logs"

definition get_logs_for_request :: "NotificationLog list \<Rightarrow> string \<Rightarrow> NotificationLog list" where
  "get_logs_for_request logs leave_request_id =
     filter (\<lambda>log. nl_leave_request_id log = JStr leave_request_id) logs"

section \<open>One payload\<close>

definition build_message :: "datetime \<Rightarrow> NotificationEventType \<Rightarrow> payload \<Rightarrow> string" where
  "build_message now event_type p =
     (let stamp = ''['' @ strftime_utc now @ '']'' in
      case event_type of
        LEAVE_APPLIED \<Rightarrow>
          stamp @ '' LEAVE_APPLIED: Employee '' @ json_str (field p ''employee_id'')
            @ '' submitted leave request '' @ json_str (field p ''leave_request_id'')
            @ ''. Manager '' @ json_str (field p ''manager_id'') @ '' notified.''
      | LEAVE_APPROVED \<Rightarrow>
          stamp @ '' LEAVE_APPROVED: Leave request '' @ json_str (field p ''leave_request_id'')
            @ '' approved. Employee '' @ json_str (field p ''employee_id'') @ '' notified.''
      | LEAVE_REJECTED \<Rightarrow>
          stamp @ '' LEAVE_REJECTED: Leave request '' @ json_str (field p ''leave_request_id'')
            @ '' rejected. Reason: '' @ json_str (field p ''reason'')
            @ ''. Employee '' @ json_str (field p ''employee_id'') @ '' notified.''
      | SYSTEM_ERROR \<Rightarrow> stamp @ '' SYSTEM_ERROR: '' @ json_str (field p ''message''))"

text \<open>
  \<open>_process_payload\<close> on any decoded value: the clock is read once for the message and once for the
  entry, the id is a fresh \<open>uuid4\<close>.
\<close>

definition process_payload ::
  "datetime \<Rightarrow> datetime \<Rightarrow> string \<Rightarrow> json \<Rightarrow> NotificationLog list
    \<Rightarrow> NotificationLog list \<times> NotificationLog result" where
  "process_payload now now' log_id payload logs =
     (case json_get payload ''event_type'' JNull of
        Inl e \<Rightarrow> (logs, Inl e)
      | Inr raw_event_type \<Rightarrow>
          (case NotificationEventType_of (json_str raw_event_type) of
             None \<Rightarrow> (logs, Inl (ValueError (repr_str (json_str raw_event_type)
                       @ '' is not a valid NotificationEventType'')))
           | Some event_type \<Rightarrow>
               let p = (case payload of JObj kvs \<Rightarrow> kvs | _ \<Rightarrow> []);
                   entry = \<lparr>nl_log_id = log_id, nl_event_type = event_type,
                     nl_employee_id = field p ''employee_id'', nl_manager_id = field p ''manager_id'',
                     nl_leave_request_id = field p ''leave_request_id'', nl_reason = field p ''reason'',
                     nl_message = build_message now event_type p, nl_timestamp = now'\<rparr>
               in (add_log entry logs, Inr entry)))"

section \<open>The consumer\<close>

text \<open>
  A message on the queue, as \<open>json.loads(body.decode())\<close> sees it. The consumer is connecting,
  consuming, or stopped; \<open>message.process()\<close> acknowledges the message when its block ends without
  an exception and drops it when the block raises, and then the exception ends the loop.
\<close>

datatype message = Undecodable | Decoded json

datatype phase = Connecting | Consuming | Stopped

record consumer =
  cs_phase :: phase
  cs_queue :: "message list"
  cs_logs :: "NotificationLog list"

text \<open>
  What the broker does next: it accepts or refuses a connection; it delivers the first message of
  the queue (with the clock readings and the id of the entry, and whether the acknowledgement gets
  through, as the message is delivered again when it does not); it drops the connection; the
  process shuts down.
\<close>

datatype broker_event =
    Connect bool
  | Deliver datetime datetime string bool
  | Drop
  | Cancel

definition consume :: "datetime \<Rightarrow> datetime \<Rightarrow> string \<Rightarrow> bool \<Rightarrow> message \<Rightarrow> message list \<Rightarrow> consumer \<Rightarrow> consumer" where
  "consume now now' log_id acked m ms c =
     (let after_ack = (\<lambda>c. if acked then c\<lparr>cs_queue := ms\<rparr> else c\<lparr>cs_phase := Connecting\<rparr>) in
      case m of
        Undecodable \<Rightarrow> after_ack c
      | Decoded payload \<Rightarrow>
          (case process_payload now now' log_id payload (cs_logs c) of
             (logs, Inr entry) \<Rightarrow> after_ack (c\<lparr>cs_logs := logs\<rparr>)
           | (logs, Inl (KeyError e)) \<Rightarrow> after_ack (c\<lparr>cs_logs := logs\<rparr>)
           | (logs, Inl (ValueError e)) \<Rightarrow> after_ack (c\<lparr>cs_logs := logs\<rparr>)
           | (logs, Inl e) \<Rightarrow> c\<lparr>cs_phase := Connecting, cs_queue := (if acked then ms else m # ms), cs_logs := logs\<rparr>))"

fun consumer_step :: "broker_event \<Rightarrow> consumer \<Rightarrow> consumer" where
  "consumer_step (Connect ok) c =
     (if cs_phase c = Connecting \<and> ok then c\<lparr>cs_phase := Consuming\<rparr> else c)"
| "consumer_step (Deliver now now' log_id acked) c =
     (if cs_phase c \<noteq> Consuming then c
      else case cs_queue c of [] \<Rightarrow> c | m # ms \<Rightarrow> consume now now' log_id acked m ms c)"
| "consumer_step Drop c = (if cs_phase c = Consuming then c\<lparr>cs_phase := Connecting\<rparr> else c)"
| "consumer_step Cancel c = c\<lparr>cs_phase := Stopped\<rparr>"

definition run_consumer :: "broker_event list \<Rightarrow> consumer \<Rightarrow> consumer" where
  "run_consumer evs c = fold consumer_step evs c"

section \<open>What one payload becomes\<close>

text \<open>The part of an entry that does not depend on the clock and the id.\<close>

definition entry_of :: "json \<Rightarrow> (NotificationEventType \<times> json \<times> json \<times> json \<times> json) option" where
  "entry_of payload =
     (case payload of
        JObj p \<Rightarrow>
          map_option (\<lambda>t. (t, field p ''employee_id'', field p ''manager_id'',
              field p ''leave_request_id'', field p ''reason''))
            (NotificationEventType_of (json_str (field p ''event_type'')))
      | _ \<Rightarrow> None)"

definition log_core :: "NotificationLog \<Rightarrow> NotificationEventType \<times> json \<times> json \<times> json \<times> json" where
  "log_core l = (nl_event_type l, nl_employee_id l, nl_manager_id l, nl_leave_request_id l, nl_reason l)"

fun message_entry :: "message \<Rightarrow> (NotificationEventType \<times> json \<times> json \<times> json \<times> json) option" where
  "message_entry Undecodable = None"
| "message_entry (Decoded payload) = entry_of payload"

text \<open>A message that ends the loop when it is delivered: decoded, and not an object.\<close>

definition poisonous :: "message \<Rightarrow> bool" where
  "poisonous m \<longleftrightarrow> (\<exists>j. m = Decoded j \<and> (\<forall>kvs. j \<noteq> JObj kvs))"

lemma field_default: "(case dict_get p k of None \<Rightarrow> JNull | Some v \<Rightarrow> v) = field p k"
  by (simp add: field_def)

lemma process_payload_cases:
  obtains (logged) entry where "process_payload now now' i payload logs = (logs @ [entry], Inr entry)"
      "entry_of payload = Some (log_core entry)"
    | (unsupported) e where "process_payload now now' i payload logs = (logs, Inl (ValueError e))"
      "entry_of payload = None" "\<not> poisonous (Decoded payload)"
    | (not_a_dict) e where "process_payload now now' i payload logs = (logs, Inl (AttributeError e))"
      "entry_of payload = None" "poisonous (Decoded payload)"
proof (cases payload)
  case (JObj p)
  show thesis
  proof (cases "NotificationEventType_of (json_str (field p ''event_type''))")
    case None
    with JObj show thesis
      by (intro unsupported) (simp_all add: process_payload_def json_get_def field_default entry_of_def poisonous_def)
  next
    case (Some t)
    let ?e = "\<lparr>nl_log_id = i, nl_event_type = t, nl_employee_id = field p ''employee_id'',
      nl_manager_id = field p ''manager_id'', nl_leave_request_id = field p ''leave_request_id'',
      nl_reason = field p ''reason'', nl_message = build_message now t p, nl_timestamp = now'\<rparr>"
    from JObj Some show thesis
      by (intro logged [of ?e])
        (simp_all add: process_payload_def json_get_def field_default entry_of_def log_core_def add_log_def Let_def)
  qed
qed (auto intro!: not_a_dict simp: process_payload_def json_get_def entry_of_def poisonous_def)

section \<open>Events of the services\<close>

lemma service_event_fields:
  "message_body (fst (applied_event caller m i)) (snd (applied_event caller m i)) =
     [(''event_type'', JStr ''LEAVE_APPLIED''), (''employee_id'', JStr (ci_user_id caller)),
      (''manager_id'', JStr m), (''leave_request_id'', JStr i)]"
  "message_body (fst (approved_event lr i)) (snd (approved_event lr i)) =
     [(''event_type'', JStr ''LEAVE_APPROVED''), (''employee_id'', JStr (rr_employee_id lr)),
      (''leave_request_id'', JStr i)]"
  "message_body (fst (rejected_event lr i why)) (snd (rejected_event lr i why)) =
     [(''event_type'', JStr ''LEAVE_REJECTED''), (''employee_id'', JStr (rr_employee_id lr)),
      (''leave_request_id'', JStr i), (''reason'', JStr why)]"
  by (simp_all add: message_body_def applied_event_def approved_event_def rejected_event_def
      dict_merge_def dict_put_def)

lemma event_type_parse [simp]:
  "NotificationEventType_of ''LEAVE_APPLIED'' = Some LEAVE_APPLIED"
  "NotificationEventType_of ''LEAVE_APPROVED'' = Some LEAVE_APPROVED"
  "NotificationEventType_of ''LEAVE_REJECTED'' = Some LEAVE_REJECTED"
  by (simp_all add: NotificationEventType_of_def enum_of_value_def)

definition process_event ::
  "datetime \<Rightarrow> datetime \<Rightarrow> string \<Rightarrow> event \<Rightarrow> NotificationLog list \<Rightarrow> NotificationLog list \<times> NotificationLog result" where
  "process_event now now' log_id ev = process_payload now now' log_id (JObj (message_body (fst ev) (snd ev)))"

text \<open>
  An event of the services becomes one log entry, appended at the end, that carries the ids of
  the event and the sentence of its kind; fields the event does not have are \<open>None\<close>. (The body of a
  message is the event's dictionary with its type in front; JSON encoding and decoding are the
  identity on it.)
\<close>

lemma service_events_are_logged:
  "process_event now now' n (applied_event caller m i) logs =
     (let entry = \<lparr>nl_log_id = n, nl_event_type = LEAVE_APPLIED, nl_employee_id = JStr (ci_user_id caller),
        nl_manager_id = JStr m, nl_leave_request_id = JStr i, nl_reason = JNull,
        nl_message = ''['' @ strftime_utc now @ ''] LEAVE_APPLIED: Employee '' @ ci_user_id caller
          @ '' submitted leave request '' @ i @ ''. Manager '' @ m @ '' notified.'', nl_timestamp = now'\<rparr>
      in (logs @ [entry], Inr entry))
   \<and> process_event now now' n (approved_event lr i) logs =
     (let entry = \<lparr>nl_log_id = n, nl_event_type = LEAVE_APPROVED, nl_employee_id = JStr (rr_employee_id lr),
        nl_manager_id = JNull, nl_leave_request_id = JStr i, nl_reason = JNull,
        nl_message = ''['' @ strftime_utc now @ ''] LEAVE_APPROVED: Leave request '' @ i
          @ '' approved. Employee '' @ rr_employee_id lr @ '' notified.'', nl_timestamp = now'\<rparr>
      in (logs @ [entry], Inr entry))
   \<and> process_event now now' n (rejected_event lr i why) logs =
     (let entry = \<lparr>nl_log_id = n, nl_event_type = LEAVE_REJECTED, nl_employee_id = JStr (rr_employee_id lr),
        nl_manager_id = JNull, nl_leave_request_id = JStr i, nl_reason = JStr why,
        nl_message = ''['' @ strftime_utc now @ ''] LEAVE_REJECTED: Leave request '' @ i
          @ '' rejected. Reason: '' @ why @ ''. Employee '' @ rr_employee_id lr @ '' notified.'',
        nl_timestamp = now'\<rparr>
      in (logs @ [entry], Inr entry))"
  unfolding process_event_def service_event_fields
  by (simp add: process_payload_def json_get_def dict_get_def field_def build_message_def add_log_def Let_def)

section \<open>The audit trail\<close>

text \<open>The entries a list of messages should give.\<close>

definition expected :: "message list \<Rightarrow> (NotificationEventType \<times> json \<times> json \<times> json \<times> json) list" where
  "expected ms = List.map_filter message_entry ms"

lemma expected_simps [simp]:
  "expected [] = []" "expected (ms @ ms') = expected ms @ expected ms'"
  "expected [m] = (case message_entry m of None \<Rightarrow> [] | Some e \<Rightarrow> [e])"
  "expected (m # ms) = (case message_entry m of None \<Rightarrow> [] | Some e \<Rightarrow> [e]) @ expected ms"
  by (simp_all add: expected_def map_filter_def split: option.splits)

text \<open>One delivery: it logs what the message should give, and an acknowledgement removes it.\<close>

lemma consume_effect:
  assumes "cs_queue c = m # ms"
  obtains new where "cs_logs (consume now now' i acked m ms c) = cs_logs c @ new"
    "map log_core new = expected [m]"
    "cs_queue (consume now now' i acked m ms c) = (if acked then ms else cs_queue c)"
    "cs_phase (consume now now' i acked m ms c) = (if acked \<and> \<not> poisonous m then cs_phase c else Connecting)"
proof (cases m)
  case Undecodable
  then show thesis using that [of "[]"] assms by (simp add: consume_def Let_def poisonous_def)
next
  case (Decoded payload)
  show thesis
  proof (cases rule: process_payload_cases [of now now' i payload "cs_logs c"])
    case (logged entry)
    then have "\<not> poisonous m" using Decoded by (auto simp: poisonous_def entry_of_def split: json.splits)
    with Decoded logged show thesis using that [of "[entry]"] assms by (simp add: consume_def Let_def)
  next
    case (unsupported e)
    with Decoded show thesis using that [of "[]"] assms by (simp add: consume_def Let_def)
  next
    case (not_a_dict e)
    with Decoded show thesis using that [of "[]"] assms by (simp add: consume_def Let_def)
  qed
qed

fun acknowledged :: "broker_event \<Rightarrow> bool" where
  "acknowledged (Deliver now now' i acked) = acked"
| "acknowledged ev = True"

text \<open>
  How far the consumer is between a start and a later state: a prefix of the queue is gone, the log
  has grown by entries of the queue's messages, and the prefix's entries are among them in order.
\<close>

definition progress :: "consumer \<Rightarrow> consumer \<Rightarrow> bool" where
  "progress c d \<longleftrightarrow>
     (\<exists>pre new. cs_queue c = pre @ cs_queue d \<and> cs_logs d = cs_logs c @ new
        \<and> subseq (expected pre) (map log_core new)
        \<and> set (map log_core new) \<subseteq> set (expected (cs_queue c)))"

definition exact_progress :: "consumer \<Rightarrow> consumer \<Rightarrow> bool" where
  "exact_progress c d \<longleftrightarrow>
     (\<exists>pre new. cs_queue c = pre @ cs_queue d \<and> cs_logs d = cs_logs c @ new
        \<and> map log_core new = expected pre)"

lemma consumer_step_idle:
  assumes "\<nexists>now now' i acked m ms. ev = Deliver now now' i acked \<and> cs_phase c = Consuming \<and> cs_queue c = m # ms"
  shows "cs_queue (consumer_step ev c) = cs_queue c \<and> cs_logs (consumer_step ev c) = cs_logs c"
  using assms by (cases ev) (auto split: list.splits)

lemma progress_step:
  assumes "progress c d"
  shows "progress c (consumer_step ev d)"
proof (cases "\<exists>now now' i acked m ms. ev = Deliver now now' i acked \<and> cs_phase d = Consuming \<and> cs_queue d = m # ms")
  case False
  with assms consumer_step_idle [of ev d] show ?thesis unfolding progress_def by simp
next
  case True
  then obtain now now' i acked m ms where ev: "ev = Deliver now now' i acked" "cs_phase d = Consuming"
    and q: "cs_queue d = m # ms" by blast
  from assms obtain pre new where p: "cs_queue c = pre @ cs_queue d" "cs_logs d = cs_logs c @ new"
    "subseq (expected pre) (map log_core new)" "set (map log_core new) \<subseteq> set (expected (cs_queue c))"
    unfolding progress_def by blast
  obtain new' where n: "cs_logs (consume now now' i acked m ms d) = cs_logs d @ new'"
    "map log_core new' = expected [m]"
    "cs_queue (consume now now' i acked m ms d) = (if acked then ms else cs_queue d)"
    by (rule consume_effect [OF q])
  have step: "consumer_step ev d = consume now now' i acked m ms d" using ev q by simp
  have "subseq (expected pre @ expected [m]) (map log_core (new @ new'))"
    unfolding map_append n(2) using p(3) by (intro list_emb_append_mono) simp_all
  moreover have "subseq (expected pre) (map log_core (new @ new'))"
    using list_emb_append_mono [OF p(3) list_emb_Nil, of "map log_core new'"] by simp
  moreover have "set (map log_core (new @ new')) \<subseteq> set (expected (cs_queue c))"
    using p(4) unfolding map_append n(2) p(1) q by auto
  ultimately show ?thesis
    unfolding progress_def step n(1,3) p(1,2)
    by (cases acked) (auto intro!: exI [of _ "pre @ [m]"] exI [of _ pre] exI [of _ "new @ new'"] simp: q)
qed

lemma exact_progress_step:
  assumes "exact_progress c d" and "acknowledged ev"
  shows "exact_progress c (consumer_step ev d)"
proof (cases "\<exists>now now' i acked m ms. ev = Deliver now now' i acked \<and> cs_phase d = Consuming \<and> cs_queue d = m # ms")
  case False
  with assms consumer_step_idle [of ev d] show ?thesis unfolding exact_progress_def by simp
next
  case True
  then obtain now now' i acked m ms where ev: "ev = Deliver now now' i acked" "cs_phase d = Consuming"
    and q: "cs_queue d = m # ms" by blast
  from assms obtain pre new where p: "cs_queue c = pre @ cs_queue d" "cs_logs d = cs_logs c @ new"
    "map log_core new = expected pre"
    unfolding exact_progress_def by blast
  obtain new' where n: "cs_logs (consume now now' i acked m ms d) = cs_logs d @ new'"
    "map log_core new' = expected [m]"
    "cs_queue (consume now now' i acked m ms d) = (if acked then ms else cs_queue d)"
    by (rule consume_effect [OF q])
  have "consumer_step ev d = consume now now' i acked m ms d" "acked" using ev q assms(2) by simp_all
  with n p q show ?thesis
    unfolding exact_progress_def
    by (intro exI [of _ "pre @ [m]"] exI [of _ "new @ new'"]) (simp split: option.splits)
qed

lemma run_progress:
  "progress c (run_consumer evs c)"
  "list_all acknowledged evs \<Longrightarrow> exact_progress c (run_consumer evs c)"
proof -
  have "progress c (fold consumer_step evs d)" if "progress c d" for d
    using that by (induction evs arbitrary: d) (auto intro: progress_step)
  moreover have "progress c c" by (simp add: progress_def)
  ultimately show "progress c (run_consumer evs c)" by (simp add: run_consumer_def)
  have "exact_progress c (fold consumer_step evs d)" if "exact_progress c d" "list_all acknowledged evs" for d
    using that by (induction evs arbitrary: d) (auto intro: exact_progress_step)
  moreover have "exact_progress c c" by (simp add: exact_progress_def)
  ultimately show "list_all acknowledged evs \<Longrightarrow> exact_progress c (run_consumer evs c)"
    by (simp add: run_consumer_def)
qed

text \<open>
  C23: the audit trail is append-only and complete. Whatever the broker does (connections refused and
  lost, acknowledgements lost, messages that are not JSON, not objects, or of no known type), the
  messages leave the queue from the front; every message that has left and that can be logged has
  its entry, in queue order, after the entries that were there before; every new entry is of a
  message of the queue. If no acknowledgement is lost, there is exactly one entry for each.
\<close>

theorem consumer_audit_trail:
  "\<exists>pre new. cs_queue c = pre @ cs_queue (run_consumer evs c)
     \<and> cs_logs (run_consumer evs c) = cs_logs c @ new
     \<and> subseq (expected pre) (map log_core new)
     \<and> set (map log_core new) \<subseteq> set (expected (cs_queue c))
     \<and> (list_all acknowledged evs \<longrightarrow> map log_core new = expected pre)"
proof (cases "list_all acknowledged evs")
  case True
  then obtain pre new where e: "cs_queue c = pre @ cs_queue (run_consumer evs c)"
    "cs_logs (run_consumer evs c) = cs_logs c @ new" "map log_core new = expected pre"
    using run_progress(2) unfolding exact_progress_def by blast
  then have "set (map log_core new) \<subseteq> set (expected (pre @ cs_queue (run_consumer evs c)))"
    unfolding e(3) by simp
  with e show ?thesis by (metis subseq_order.order_refl)
next
  case False
  with run_progress(1) [of c evs] show ?thesis unfolding progress_def by blast
qed

text \<open>One round: a connection is available, and the first message is delivered and acknowledged.\<close>

fun rounds :: "(datetime \<times> datetime \<times> string) list \<Rightarrow> broker_event list" where
  "rounds [] = []"
| "rounds ((now, now', i) # xs) = [Connect True, Deliver now now' i True] @ rounds xs"

lemma rounds_acknowledged: "list_all acknowledged (rounds xs)"
  by (induction xs rule: rounds.induct) auto

lemma one_round:
  assumes "cs_phase c \<noteq> Stopped"
  shows "cs_queue (consumer_step (Deliver now now' i True) (consumer_step (Connect True) c)) = tl (cs_queue c)"
    and "cs_phase (consumer_step (Deliver now now' i True) (consumer_step (Connect True) c)) \<noteq> Stopped"
proof -
  let ?c = "consumer_step (Connect True) c"
  have c: "cs_phase ?c = Consuming" "cs_queue ?c = cs_queue c" using assms by (cases "cs_phase c"; simp)+
  show "cs_queue (consumer_step (Deliver now now' i True) ?c) = tl (cs_queue c)"
    and "cs_phase (consumer_step (Deliver now now' i True) ?c) \<noteq> Stopped"
  proof (atomize (full), cases "cs_queue c")
    case Nil
    with c assms show "cs_queue (consumer_step (Deliver now now' i True) ?c) = tl (cs_queue c)
        \<and> cs_phase (consumer_step (Deliver now now' i True) ?c) \<noteq> Stopped" by simp
  next
    case (Cons m ms)
    with c have q: "cs_queue ?c = m # ms" by simp
    show "cs_queue (consumer_step (Deliver now now' i True) ?c) = tl (cs_queue c)
        \<and> cs_phase (consumer_step (Deliver now now' i True) ?c) \<noteq> Stopped"
      by (rule consume_effect [OF q, of now now' i True]) (use c q Cons in auto)
  qed
qed

lemma rounds_drain:
  "cs_phase c \<noteq> Stopped \<Longrightarrow> cs_queue (run_consumer (rounds xs) c) = drop (length xs) (cs_queue c)"
proof (induction xs arbitrary: c rule: rounds.induct)
  case (2 now now' i xs)
  note r = one_round [OF 2(2), of now now' i]
  from 2(1) [OF r(2)] r(1) show ?case
    by (simp add: run_consumer_def drop_Suc del: consumer_step.simps)
qed (simp add: run_consumer_def)

text \<open>
  C24: a consumer that is not shut down makes progress and never gets stuck on a message: when the
  broker accepts connections, each round takes one message off the queue, so after as many rounds as
  there are messages the queue is empty and the log holds exactly the entries of the loggable ones,
  in order. A message that is not an object costs a reconnection and nothing else.
\<close>

theorem consumer_drains:
  assumes "cs_phase c \<noteq> Stopped" and "length xs = length (cs_queue c)"
  shows "cs_queue (run_consumer (rounds xs) c) = []
    \<and> (\<exists>new. cs_logs (run_consumer (rounds xs) c) = cs_logs c @ new \<and> map log_core new = expected (cs_queue c))"
proof -
  have q: "cs_queue (run_consumer (rounds xs) c) = []" using rounds_drain [OF assms(1), of xs] assms(2) by simp
  with run_progress(2) [OF rounds_acknowledged, of c xs] show ?thesis unfolding exact_progress_def by auto
qed

end
