(* ===== verification/Audit_Pipeline.thy ===== *)
theory Audit_Pipeline
  imports Notification_Service "HOL-Library.Multiset"
begin

text \<open>
  From the services through the broker to the audit log: the events that the interleaved system
  hands to the publisher are well typed, and the log that the consumer builds while they are published,
  in whatever order that happens and whatever is lost or delivered again, agrees with the request store.
\<close>

section \<open>Typed events\<close>

definition string_field :: "payload \<Rightarrow> string \<Rightarrow> bool" where
  "string_field p k \<longleftrightarrow> (case dict_get p k of Some (JStr s) \<Rightarrow> True | _ \<Rightarrow> False)"

text \<open>The fields that each kind of leave event has, in order; all hold texts.\<close>

definition event_fields :: "NotificationEventType \<Rightarrow> string list" where
  "event_fields t =
     (case t of
        LEAVE_APPLIED \<Rightarrow> [''employee_id'', ''manager_id'', ''leave_request_id'']
      | LEAVE_APPROVED \<Rightarrow> [''employee_id'', ''leave_request_id'']
      | LEAVE_REJECTED \<Rightarrow> [''employee_id'', ''leave_request_id'', ''reason'']
      | SYSTEM_ERROR \<Rightarrow> [''message'', ''service'', ''path''])"

definition typed_event :: "event \<Rightarrow> bool" where
  "typed_event ev \<longleftrightarrow> map fst (snd ev) = event_fields (fst ev)
     \<and> list_all (string_field (snd ev)) (event_fields (fst ev))"

lemma service_events_typed:
  "typed_event (applied_event caller m i)" "typed_event (approved_event lr i)"
  "typed_event (rejected_event lr i why)"
  by (simp_all add: typed_event_def event_fields_def string_field_def applied_event_def approved_event_def
      rejected_event_def dict_get_def)

lemma handler_error_typed:
  "list_all typed_event (snd (unhandled_exception_handler tx service path e))"
  by (cases e) (simp_all add: unhandled_exception_handler_def typed_event_def event_fields_def
      string_field_def dict_get_def)

definition leave_event :: "event \<Rightarrow> bool" where
  "leave_event ev \<longleftrightarrow> typed_event ev \<and> fst ev \<noteq> SYSTEM_ERROR"

lemma service_events_leave:
  "leave_event (applied_event caller m i)" "leave_event (approved_event lr i)"
  "leave_event (rejected_event lr i why)"
  using service_events_typed by (simp_all add: leave_event_def applied_event_def approved_event_def rejected_event_def)

definition outbox_ok :: "'b system \<Rightarrow> bool" where
  "outbox_ok s \<longleftrightarrow> list_all leave_event (sys_outbox s)"

lemma sys_exec_outbox:
  assumes "outbox_ok s" and "sys_exec ops ev s = Some s'"
  shows "outbox_ok s'"
proof -
  note edits = sys_edit_defs Let_def outbox_ok_def
  have silent: ?thesis if "sys_outbox s' = sys_outbox s" using that assms(1) by (simp add: outbox_ok_def)
  show ?thesis
  proof (cases ev)
    case (EvInsert t i c u)
    with assms(2) obtain caller p m outcome where
      s': "s' = insert_request t i c u caller p m outcome s"
      by (auto split: option.splits task.splits if_splits)
    show ?thesis
    proof (cases rule: apply_leave_finish_cases [of i c u caller p m outcome "w_req (sys_world s)"])
      case (error e)
      with s' show ?thesis by (intro silent) (simp_all add: insert_request_def edits)
    next
      case (created n)
      with s' assms(1) show ?thesis by (simp add: insert_request_def edits service_events_leave)
    qed
  next
    case (EvCancel t now i caller)
    with assms(2) show ?thesis by (intro silent) (auto simp: cancel_request_def edits split: prod.splits if_splits)
  next
    case (EvSetApproved t env now)
    with assms(2) obtain caller i lr where s': "s' = mark_approved ops t env now caller i lr s"
      by (auto split: option.splits task.splits)
    with assms(1) show ?thesis
      by (auto simp: mark_approved_def edits service_events_leave split: prod.splits sum.splits)
  next
    case (EvSetRejected t env now)
    with assms(2) obtain caller i reason lr where s': "s' = mark_rejected ops t env now caller i reason lr s"
      by (auto split: option.splits task.splits)
    with assms(1) show ?thesis
      by (auto simp: mark_rejected_def edits service_events_leave split: prod.splits sum.splits)
  qed (intro silent; use assms(2) in \<open>auto simp: start_apply_def fetch_balance_def start_approve_def deduct_days_def
        start_reject_def edits split: option.splits task.splits if_splits sum.splits prod.splits\<close>)+
qed

interpretation outbox: invariant_system sys_init "sys_step ops" outbox_ok for ops
  by unfold_locales (auto simp: sys_init_def outbox_ok_def elim!: sys_stepE intro: sys_exec_outbox
      [unfolded outbox_ok_def])

lemma typed_body:
  assumes "typed_event ev"
  shows "message_body (fst ev) (snd ev) = (''event_type'', JStr (NotificationEventType_value (fst ev))) # snd ev"
proof -
  obtain t p where ev: "ev = (t, p)" by (cases ev)
  with assms have keys: "map fst p = event_fields t" by (simp add: typed_event_def)
  then have "distinct (map fst p)" "''event_type'' \<notin> set (map fst p)"
    unfolding keys by (cases t; simp add: event_fields_def)+
  then have "fold (\<lambda>(k, v) d. dict_put d k v) p d = d @ p" if "set (map fst d) \<inter> set (map fst p) = {}" for d
    using that
  proof (induction p arbitrary: d)
    case (Cons kv p)
    obtain k v where kv: "kv = (k, v)" by (cases kv)
    with Cons.prems have "dict_get d k = None" by (force simp: dict_get_def map_of_eq_None_iff)
    then have "dict_put d k v = d @ [(k, v)]" by (rule dict_put_new)
    with Cons kv show ?case by auto
  qed simp
  from this [of "[(''event_type'', JStr (NotificationEventType_value t))]"] \<open>''event_type'' \<notin> _\<close>
  show ?thesis by (simp add: ev message_body_def dict_merge_def)
qed

text \<open>
  C34: every event the services publish is well typed. In each reachable state of the interleaved
  services the events handed to the publisher are leave events with exactly the fields of their kind,
  all texts; what the global exception handler publishes is a system error with its three texts; and
  the message on the wire is that dictionary with the event's type in front.
\<close>

theorem published_events_typed:
  assumes "sys_init s0" and "(sys_step ops)\<^sup>*\<^sup>* s0 s"
  shows "list_all leave_event (sys_outbox s)
    \<and> list_all typed_event (snd (unhandled_exception_handler tx service path e))
    \<and> map (\<lambda>ev. message_body (fst ev) (snd ev)) (sys_outbox s) =
        map (\<lambda>ev. (''event_type'', JStr (NotificationEventType_value (fst ev))) # snd ev) (sys_outbox s)"
proof -
  have "outbox_ok s" using outbox.inv_reachable [OF assms] .
  then have "list_all leave_event (sys_outbox s)" by (simp add: outbox_ok_def)
  moreover from this have "map (\<lambda>ev. message_body (fst ev) (snd ev)) (sys_outbox s) =
      map (\<lambda>ev. (''event_type'', JStr (NotificationEventType_value (fst ev))) # snd ev) (sys_outbox s)"
    by (intro map_cong refl typed_body) (auto simp: list_all_iff leave_event_def)
  ultimately show ?thesis using handler_error_typed by (intro conjI)
qed

section \<open>Publishing and consuming\<close>

text \<open>
  Every event is published by a task and a connection of its own, so events may reach the queue in any
  order and at any time between the steps of the consumer: one attempt with the broker's two answers, or
  one step of the broker and the consumer.
\<close>

datatype pipe_event = Publish bool bool event | Broker broker_event

fun pipe_step :: "pipe_event \<Rightarrow> consumer \<Rightarrow> consumer" where
  "pipe_step (Publish connected published ev) c =
     c\<lparr>cs_queue := cs_queue c @ map (Decoded \<circ> JObj) (publish_event connected published ev [])\<rparr>"
| "pipe_step (Broker ev) c = consumer_step ev c"

definition run_pipe :: "pipe_event list \<Rightarrow> consumer \<Rightarrow> consumer" where
  "run_pipe pes c = fold pipe_step pes c"

text \<open>The events whose publication was attempted, and those that reached the queue, in that order.\<close>

fun attempted :: "pipe_event \<Rightarrow> event option" where
  "attempted (Publish connected published ev) = Some ev"
| "attempted (Broker ev) = None"

fun landed :: "pipe_event \<Rightarrow> event option" where
  "landed (Publish connected published ev) = (if connected \<and> published then Some ev else None)"
| "landed (Broker ev) = None"

definition attempts :: "pipe_event list \<Rightarrow> event list" where
  "attempts pes = List.map_filter attempted pes"

definition landings :: "pipe_event list \<Rightarrow> event list" where
  "landings pes = List.map_filter landed pes"

fun ack_kept :: "pipe_event \<Rightarrow> bool" where
  "ack_kept (Publish connected published ev) = True"
| "ack_kept (Broker ev) = acknowledged ev"

lemma map_filter_app: "List.map_filter f (xs @ ys) = List.map_filter f xs @ List.map_filter f ys"
  by (simp add: map_filter_def)

lemma mset_map_filter: "mset (List.map_filter f xs) = image_mset (the \<circ> f) (filter_mset (\<lambda>x. f x \<noteq> None) (mset xs))"
  by (induction xs) (auto simp: map_filter_def)

lemma map_filter_mset_mono: "mset xs \<subseteq># mset ys \<Longrightarrow> mset (List.map_filter f xs) \<subseteq># mset (List.map_filter f ys)"
  unfolding mset_map_filter by (intro image_mset_subseteq_mono multiset_filter_mono)

lemma mset_distinct:
  assumes "mset xs \<subseteq># mset ys" and "distinct ys"
  shows "distinct xs"
proof -
  from assms(1) obtain zs where "mset ys = mset xs + mset zs" by (metis ex_mset subset_mset.le_iff_add)
  then have "mset ys = mset (xs @ zs)" by simp
  with assms(2) have "distinct (xs @ zs)" using mset_eq_imp_distinct_iff by blast
  then show ?thesis by simp
qed

lemma landings_attempted: "mset (landings pes) \<subseteq># mset (attempts pes)"
proof (induction pes)
  case (Cons pe pes)
  then show ?case
    by (cases pe) (auto simp: landings_def attempts_def map_filter_def subseteq_mset_def le_SucI)
qed (simp add: landings_def map_filter_def)

definition on_queue :: "event \<Rightarrow> message" where
  "on_queue ev = Decoded (JObj (message_body (fst ev) (snd ev)))"

text \<open>At any time the log has the entries of the events that reached the queue and left it, in that order,
  and perhaps some again; without lost acknowledgements exactly those.\<close>

definition pipe_inv :: "event list \<Rightarrow> bool \<Rightarrow> consumer \<Rightarrow> bool" where
  "pipe_inv es exact c \<longleftrightarrow> (\<exists>gone rest. es = gone @ rest \<and> cs_queue c = map on_queue rest
     \<and> subseq (expected (map on_queue gone)) (map log_core (cs_logs c))
     \<and> set (map log_core (cs_logs c)) \<subseteq> set (expected (map on_queue es))
     \<and> (if exact then map log_core (cs_logs c) = expected (map on_queue gone) else True))"

lemma pipe_inv_publish:
  assumes "pipe_inv es exact c"
  shows "pipe_inv (es @ List.map_filter landed [Publish connected published ev]) exact
    (pipe_step (Publish connected published ev) c)"
proof (cases "connected \<and> published")
  case True
  from assms obtain gone rest where "es = gone @ rest" "cs_queue c = map on_queue rest"
    "subseq (expected (map on_queue gone)) (map log_core (cs_logs c))"
    "set (map log_core (cs_logs c)) \<subseteq> set (expected (map on_queue es))"
    "if exact then map log_core (cs_logs c) = expected (map on_queue gone) else True"
    unfolding pipe_inv_def by blast
  with True show ?thesis
    unfolding pipe_inv_def
    by (intro exI [of _ gone] exI [of _ "rest @ [ev]"]) (auto simp: map_filter_def publish_event_def on_queue_def)
next
  case False
  with assms show ?thesis by (auto simp: map_filter_def publish_event_def)
qed

lemma consumer_step_progress:
  obtains pre new where "cs_queue c = pre @ cs_queue (consumer_step ev c)" "cs_logs (consumer_step ev c) = cs_logs c @ new"
    "subseq (expected pre) (map log_core new)" "set (map log_core new) \<subseteq> set (expected (cs_queue c))"
    "acknowledged ev \<longrightarrow> map log_core new = expected pre"
proof (cases "acknowledged ev")
  case True
  then obtain pre new where p: "cs_queue c = pre @ cs_queue (consumer_step ev c)"
    "cs_logs (consumer_step ev c) = cs_logs c @ new" "map log_core new = expected pre"
    using run_progress(2) [where evs = "[ev]" and c = c] by (auto simp: run_consumer_def exact_progress_def)
  then have "set (map log_core new) \<subseteq> set (expected (pre @ cs_queue (consumer_step ev c)))" by simp
  with p that show ?thesis by (metis subseq_order.order_refl)
next
  case False
  with run_progress(1) [where evs = "[ev]" and c = c] that show ?thesis
    by (auto simp: run_consumer_def progress_def)
qed

lemma pipe_inv_broker:
  assumes "pipe_inv es exact c"
  shows "pipe_inv es (exact \<and> acknowledged ev) (consumer_step ev c)"
proof -
  from assms obtain gone rest where g: "es = gone @ rest" "cs_queue c = map on_queue rest"
    "subseq (expected (map on_queue gone)) (map log_core (cs_logs c))"
    "set (map log_core (cs_logs c)) \<subseteq> set (expected (map on_queue es))"
    "if exact then map log_core (cs_logs c) = expected (map on_queue gone) else True"
    unfolding pipe_inv_def by blast
  obtain pre new where d: "cs_queue c = pre @ cs_queue (consumer_step ev c)"
    "cs_logs (consumer_step ev c) = cs_logs c @ new" "subseq (expected pre) (map log_core new)"
    "set (map log_core new) \<subseteq> set (expected (cs_queue c))" "acknowledged ev \<longrightarrow> map log_core new = expected pre"
    by (rule consumer_step_progress)
  from d(1) g(2) obtain r1 r2 where r: "rest = r1 @ r2" "pre = map on_queue r1"
    "cs_queue (consumer_step ev c) = map on_queue r2"
    by (auto simp: map_eq_append_conv)
  have "subseq (expected (map on_queue gone) @ expected pre) (map log_core (cs_logs c) @ map log_core new)"
    using g(3) d(3) by (rule list_emb_append_mono)
  with g d r show ?thesis
    unfolding pipe_inv_def by (intro exI [of _ "gone @ r1"] exI [of _ r2]) auto
qed

lemma run_pipe_inv:
  assumes "cs_queue c = []" and "cs_logs c = []"
  shows "pipe_inv (landings pes) (list_all ack_kept pes) (run_pipe pes c)"
proof (induction pes rule: rev_induct)
  case Nil
  show ?case using assms by (simp add: pipe_inv_def landings_def map_filter_def run_pipe_def)
next
  case (snoc pe pes)
  have run: "run_pipe (pes @ [pe]) c = pipe_step pe (run_pipe pes c)" by (simp add: run_pipe_def)
  show ?case
  proof (cases pe)
    case (Publish connected published ev)
    with pipe_inv_publish [OF snoc.IH, of connected published ev] show ?thesis
      unfolding run by (simp add: landings_def map_filter_app)
  next
    case (Broker ev)
    with pipe_inv_broker [OF snoc.IH, of ev] show ?thesis
      unfolding run by (simp add: landings_def map_filter_app map_filter_def)
  qed
qed

section \<open>What the entries say\<close>

text \<open>The kind and the request an entry is about; and, of a list of these, the applications and decisions.\<close>

definition log_ref :: "NotificationLog \<Rightarrow> NotificationEventType \<times> json" where
  "log_ref l = (nl_event_type l, nl_leave_request_id l)"

definition event_ref :: "event \<Rightarrow> NotificationEventType \<times> json" where
  "event_ref ev = (fst ev, field (snd ev) ''leave_request_id'')"

definition ref_applied :: "NotificationEventType \<times> json \<Rightarrow> json option" where
  "ref_applied r = (if fst r = LEAVE_APPLIED then Some (snd r) else None)"

definition ref_decided :: "NotificationEventType \<times> json \<Rightarrow> (json \<times> LeaveStatus) option" where
  "ref_decided r =
     (case fst r of
        LEAVE_APPROVED \<Rightarrow> Some (snd r, APPROVED)
      | LEAVE_REJECTED \<Rightarrow> Some (snd r, REJECTED)
      | _ \<Rightarrow> None)"

definition log_decisions :: "NotificationLog list \<Rightarrow> (json \<times> LeaveStatus) list" where
  "log_decisions logs = List.map_filter ref_decided (map log_ref logs)"

lemma applied_log: "map nl_leave_request_id (get_logs_by_event_type logs LEAVE_APPLIED)
    = List.map_filter ref_applied (map log_ref logs)"
  by (induction logs) (auto simp: get_logs_by_event_type_def map_filter_def ref_applied_def log_ref_def)

lemma typed_entry:
  assumes "typed_event ev"
  shows "\<exists>x. message_entry (on_queue ev) = Some x \<and> (fst x, fst (snd (snd (snd x)))) = event_ref ev"
proof -
  obtain t p where ev: "ev = (t, p)" by (cases ev)
  note body = typed_body [OF assms, unfolded ev fst_conv snd_conv]
  have "NotificationEventType_of (NotificationEventType_value t) = Some t"
    by (cases t) (simp_all add: NotificationEventType_of_def enum_of_value_def)
  then show ?thesis
    by (simp add: ev on_queue_def event_ref_def body entry_of_def field_def dict_get_def)
qed

lemma typed_refs:
  assumes "list_all typed_event es"
  shows "map (\<lambda>x. (fst x, fst (snd (snd (snd x))))) (expected (map on_queue es)) = map event_ref es"
  using assms
proof (induction es)
  case (Cons ev es)
  then have "typed_event ev" by simp
  from typed_entry [OF this] obtain x where "message_entry (on_queue ev) = Some x"
    "(fst x, fst (snd (snd (snd x)))) = event_ref ev" by blast
  with Cons show ?case by simp
qed simp

lemma log_refs: "map log_ref logs = map (\<lambda>x. (fst x, fst (snd (snd (snd x))))) (map log_core logs)"
  by (simp add: log_ref_def log_core_def)

lemma leave_event_id: "leave_event ev \<Longrightarrow> \<exists>i. event_request ev = Some i \<and> event_ref ev = (fst ev, JStr i)"
  by (cases "fst ev") (auto simp: leave_event_def typed_event_def event_fields_def string_field_def event_request_def
      event_ref_def field_def split: option.splits json.splits)

lemma leave_refs:
  assumes "\<forall>ev \<in> set es. fst ev \<noteq> SYSTEM_ERROR \<longrightarrow> leave_event ev"
  shows "List.map_filter ref_applied (map event_ref es) = map JStr (applied_ids es)"
    and "List.map_filter ref_decided (map event_ref es) = map (\<lambda>(i, st). (JStr i, st)) (decisions es)"
proof -
  have one: "ref_applied (event_ref ev) = map_option JStr (if fst ev = LEAVE_APPLIED then event_request ev else None)"
    "ref_decided (event_ref ev) = map_option (\<lambda>(i, st). (JStr i, st)) (event_decision ev)" if "ev \<in> set es" for ev
    using assms that leave_event_id [of ev]
    by (cases "fst ev"; auto simp: ref_applied_def ref_decided_def event_decision_def event_ref_def)+
  show "List.map_filter ref_applied (map event_ref es) = map JStr (applied_ids es)"
    using one(1) unfolding applied_ids_def by (induction es) (auto simp: map_filter_def)
  show "List.map_filter ref_decided (map event_ref es) = map (\<lambda>(i, st). (JStr i, st)) (decisions es)"
    using one(2) unfolding decisions_def by (induction es) (auto simp: map_filter_def)
qed

text \<open>System errors are neither applications nor decisions.\<close>

definition no_errors :: "event list \<Rightarrow> event list" where
  "no_errors es = filter (\<lambda>ev. fst ev \<noteq> SYSTEM_ERROR) es"

lemma no_errors_same: "applied_ids (no_errors es) = applied_ids es" "decisions (no_errors es) = decisions es"
  by (induction es) (auto simp: no_errors_def applied_ids_def decisions_def map_filter_def event_decision_def)

lemma no_errors_mono: "mset xs \<subseteq># mset ys \<Longrightarrow> mset (no_errors xs) \<subseteq># mset (no_errors ys)"
  by (simp add: no_errors_def multiset_filter_mono)

lemma subseq_set: "subseq xs ys \<Longrightarrow> set xs \<subseteq> set ys"
  by (induction rule: list_emb.induct) auto

lemma map_filter_set_mono: "set xs \<subseteq> set ys \<Longrightarrow> set (List.map_filter f xs) \<subseteq> set (List.map_filter f ys)"
  by (auto simp: map_filter_def)

lemma map_filter_same: "set xs = set ys \<Longrightarrow> set (List.map_filter f xs) = set (List.map_filter f ys)"
  by (simp add: map_filter_set_mono subset_antisym)

lemma distinct_json_ids: "distinct (map fst ds) \<Longrightarrow> distinct (map fst (map (\<lambda>(i, st). (JStr i, st)) ds))"
proof -
  have "map fst (map (\<lambda>(i, st). (JStr i, st)) ds) = map JStr (map fst ds)" by auto
  then show "distinct (map fst ds) \<Longrightarrow> distinct (map fst (map (\<lambda>(i, st). (JStr i, st)) ds))"
    by (simp only: distinct_map) (simp add: inj_on_def)
qed

section \<open>The log and the store\<close>

text \<open>What the log of a run refers to: only events that reached the queue; all that left it; without lost
  acknowledgements no more than that.\<close>

lemma run_pipe_refs:
  assumes "cs_queue c = []" and "cs_logs c = []" and "list_all typed_event (landings pes)"
  defines "refs \<equiv> map log_ref (cs_logs (run_pipe pes c))"
  shows "set refs \<subseteq> event_ref ` set (landings pes)"
    and "cs_queue (run_pipe pes c) = [] \<Longrightarrow> event_ref ` set (landings pes) \<subseteq> set refs"
    and "list_all ack_kept pes \<Longrightarrow> \<exists>gone rest. landings pes = gone @ rest \<and> refs = map event_ref gone"
proof -
  let ?c = "run_pipe pes c" and ?es = "landings pes" and ?ref = "\<lambda>x :: NotificationEventType \<times> json \<times> json \<times> json \<times> json.
      (fst x, fst (snd (snd (snd x))))"
  from run_pipe_inv [OF assms(1,2), of pes] obtain gone rest where g: "landings pes = gone @ rest"
    "cs_queue ?c = map on_queue rest" "subseq (expected (map on_queue gone)) (map log_core (cs_logs ?c))"
    "set (map log_core (cs_logs ?c)) \<subseteq> set (expected (map on_queue (landings pes)))"
    "if list_all ack_kept pes then map log_core (cs_logs ?c) = expected (map on_queue gone) else True"
    unfolding pipe_inv_def by blast
  have typed: "list_all typed_event gone" using assms(3) unfolding g(1) by simp
  have refs: "refs = map ?ref (map log_core (cs_logs ?c))" unfolding refs_def by (rule log_refs)
  have image: "?ref ` set (expected (map on_queue es)) = event_ref ` set es" if "list_all typed_event es" for es
    using arg_cong [OF typed_refs [OF that], of set] by simp
  have "set refs = ?ref ` set (map log_core (cs_logs ?c))" unfolding refs by (rule set_map)
  then show "set refs \<subseteq> event_ref ` set (landings pes)"
    using image_mono [OF g(4), of ?ref] unfolding image [OF assms(3)] by simp
  have "set (expected (map on_queue gone)) \<subseteq> set (map log_core (cs_logs ?c))"
    using g(3) by (rule subseq_set)
  then show "event_ref ` set (landings pes) \<subseteq> set refs" if "cs_queue ?c = []"
  proof -
    have "?es = gone" using that g(1,2) by simp
    with image_mono [OF \<open>_ \<subseteq> set (map log_core (cs_logs ?c))\<close>, of ?ref] image [OF typed] \<open>set refs = _\<close>
    show ?thesis by simp
  qed
  show "\<exists>gone rest. landings pes = gone @ rest \<and> refs = map event_ref gone" if "list_all ack_kept pes"
    using that g(1,5) typed_refs [OF typed] unfolding refs by auto
qed

lemma exactly_once:
  assumes "\<exists>gone rest. es = gone @ rest \<and> refs = map event_ref gone"
    and "\<forall>ev \<in> set es. fst ev \<noteq> SYSTEM_ERROR \<longrightarrow> leave_event ev"
    and "mset (applied_ids es) \<subseteq># mset ids" and "mset (decisions es) \<subseteq># mset ds"
    and "distinct ids" and "distinct (map fst ds)"
  shows "distinct (List.map_filter ref_applied refs) \<and> distinct (map fst (List.map_filter ref_decided refs))"
proof -
  from assms(1) obtain gone rest where g: "es = gone @ rest" "refs = map event_ref gone" by blast
  with assms(2) have leave: "\<forall>ev \<in> set gone. fst ev \<noteq> SYSTEM_ERROR \<longrightarrow> leave_event ev" by simp
  have "distinct (applied_ids es)" by (rule mset_distinct [OF assms(3,5)])
  moreover have "distinct (map fst (decisions es))"
    using image_mset_subseteq_mono [OF assms(4), of fst] by (intro mset_distinct [OF _ assms(6)]) simp
  ultimately show ?thesis
    unfolding g leave_refs [OF leave]
    by (intro conjI distinct_json_ids) (auto simp: distinct_map inj_on_def)
qed

lemma published_all:
  assumes "mset (no_errors es) = mset out"
  shows "set (applied_ids es) = set (applied_ids out)" and "set (decisions es) = set (decisions out)"
proof -
  have "set (no_errors es) = set out" using assms by (rule mset_eq_setD)
  from map_filter_same [OF this]
  show "set (applied_ids es) = set (applied_ids out)" "set (decisions es) = set (decisions out)"
    unfolding no_errors_same [of es, symmetric] by (simp_all add: applied_ids_def decisions_def)
qed

text \<open>
  C13: the audit log agrees with the request store, end to end. Let the services reach any state, let each of
  their events be published by a task of its own, in any order and at any time or not yet, next to the system
  errors; let the broker refuse any of them, drop connections, lose acknowledgements and deliver again. Then
  every application the consumer has logged is of a stored request, and every approval or rejection is of a
  stored request that has exactly that status. If no acknowledgement was lost, no application and no decision
  is logged twice. If every event was published and the queue is empty, all are logged.
\<close>

theorem audit_log_agrees:
  assumes "sys_init s0" and "(sys_step ops)\<^sup>*\<^sup>* s0 s"
    and "mset (no_errors (attempts pes)) \<subseteq># mset (sys_outbox s)"
    and "\<forall>ev \<in> set (attempts pes). fst ev = SYSTEM_ERROR \<longrightarrow> typed_event ev"
    and "cs_queue c = []" and "cs_logs c = []"
  shows "let logs = cs_logs (run_pipe pes c);
      applied = map nl_leave_request_id (get_logs_by_event_type logs LEAVE_APPLIED);
      stored = map JStr (request_ids (w_req (sys_world s)))
    in set applied \<subseteq> set stored
      \<and> (\<forall>(j, st) \<in> set (log_decisions logs). \<exists>i r. j = JStr i
           \<and> get_request (w_req (sys_world s)) i = Some r \<and> lr_status r = st)
      \<and> (list_all ack_kept pes \<longrightarrow> distinct applied \<and> distinct (map fst (log_decisions logs)))
      \<and> (mset (no_errors (landings pes)) = mset (sys_outbox s) \<and> cs_queue (run_pipe pes c) = [] \<longrightarrow>
           set applied = set stored
           \<and> set (log_decisions logs) = (\<lambda>(i, st). (JStr i, st)) ` set (decisions (sys_outbox s)))"
proof -
  let ?out = "sys_outbox s" and ?req = "w_req (sys_world s)" and ?es = "landings pes"
  let ?logs = "cs_logs (run_pipe pes c)" and ?json = "\<lambda>(i, st). (JStr i, st)"
  note notices = notices.inv_reachable [OF assms(1,2), THEN conjunct2, unfolded notices_ok_iff]
  note wf = wf_requestsD(1) [OF sys_invD(2) [OF notices.inv_reachable [OF assms(1,2), THEN conjunct1]]]
  have part: "mset (no_errors ?es) \<subseteq># mset ?out"
    using no_errors_mono [OF landings_attempted] assms(3) by (rule subset_mset.order_trans)
  have tried: "set ?es \<subseteq> set (attempts pes)" using set_mset_mono [OF landings_attempted] by simp
  have leave: "\<forall>ev \<in> set ?es. fst ev \<noteq> SYSTEM_ERROR \<longrightarrow> leave_event ev"
    using outbox.inv_reachable [OF assms(1,2)] set_mset_mono [OF part]
    by (auto simp: outbox_ok_def list_all_iff no_errors_def)
  then have typed: "list_all typed_event ?es"
    using assms(4) tried by (auto simp: list_all_iff leave_event_def)
  note refs = run_pipe_refs [OF assms(5,6) typed]
  have within: "set (List.map_filter ref_applied (map log_ref ?logs)) \<subseteq> JStr ` set (applied_ids ?es)"
    "set (log_decisions ?logs) \<subseteq> ?json ` set (decisions ?es)"
    using map_filter_set_mono [of "map log_ref ?logs" "map event_ref ?es" ref_applied]
      map_filter_set_mono [of "map log_ref ?logs" "map event_ref ?es" ref_decided] refs(1)
    unfolding log_decisions_def leave_refs [OF leave] set_map by blast+
  have ids: "mset (applied_ids ?es) \<subseteq># mset (request_ids ?req)" "mset (decisions ?es) \<subseteq># mset (decisions ?out)"
    using map_filter_mset_mono [OF part] unfolding notices [THEN conjunct1, symmetric] no_errors_same [of ?es, symmetric]
    by (simp_all add: applied_ids_def decisions_def)
  have stored: "distinct (request_ids ?req)" using wf by (simp add: request_ids_def wf_dict_def)
  have one: "set (List.map_filter ref_applied (map log_ref ?logs)) \<subseteq> set (map JStr (request_ids ?req))"
    using within(1) set_mset_mono [OF ids(1)] by auto
  have two: "\<forall>(j, st) \<in> set (log_decisions ?logs). \<exists>i r. j = JStr i \<and> get_request ?req i = Some r \<and> lr_status r = st"
    using within(2) set_mset_mono [OF ids(2)] notices by (fastforce simp: announces_def)
  have three: "distinct (List.map_filter ref_applied (map log_ref ?logs)) \<and> distinct (map fst (log_decisions ?logs))"
    if "list_all ack_kept pes"
    unfolding log_decisions_def by (rule exactly_once [OF refs(3) [OF that] leave ids stored]) (use notices in blast)
  have four: "set (List.map_filter ref_applied (map log_ref ?logs)) = set (map JStr (request_ids ?req))
      \<and> set (log_decisions ?logs) = ?json ` set (decisions ?out)"
    if "mset (no_errors ?es) = mset ?out" "cs_queue (run_pipe pes c) = []"
  proof -
    have "set (map log_ref ?logs) = set (map event_ref ?es)" using refs(1) refs(2) [OF that(2)] by auto
    from map_filter_same [OF this, of ref_applied] map_filter_same [OF this, of ref_decided] show ?thesis
      unfolding log_decisions_def leave_refs [OF leave] set_map published_all [OF that(1)] notices [THEN conjunct1] by blast
  qed
  show ?thesis unfolding Let_def applied_log using one two three four by blast
qed

end
