(* ===== verification/Service_Discovery.thy ===== *)
theory Service_Discovery
  imports Py_Json "HOL-Library.Multiset"
begin

text \<open>
  Service discovery: registration with the Consul agent (\<open>shared/consul_client.py\<close>), the resolver
  that the services use to call each other (\<open>shared/service_client.py\<close>) and the gateway's resolver
  with its round-robin cursors (\<open>api_gateway/consul_resolver.py\<close>). Consul's answer to a lookup is an
  argument: the decoded body, or the exception that \<open>httpx.get\<close>, \<open>raise_for_status\<close> or \<open>json\<close> raised.
\<close>

section \<open>Registration\<close>

definition service_id :: "string \<Rightarrow> string \<Rightarrow> int \<Rightarrow> string" where
  "service_id name host port = name @ ''-'' @ host @ ''-'' @ str_of_int port"

definition instance_base_url :: "string \<Rightarrow> int \<Rightarrow> string" where
  "instance_base_url host port = ''http://'' @ host @ '':'' @ str_of_int port"

definition register_payload :: "string \<Rightarrow> string \<Rightarrow> int \<Rightarrow> payload" where
  "register_payload name host port =
     [(''ID'', JStr (service_id name host port)),
      (''Name'', JStr name),
      (''Address'', JStr host),
      (''Port'', JInt port),
      (''Check'', JObj
        [(''HTTP'', JStr (instance_base_url host port @ ''/health'')),
         (''Interval'', JStr ''10s''),
         (''Timeout'', JStr ''5s''),
         (''DeregisterCriticalServiceAfter'', JStr ''1m'')])]"

text \<open>Only \<open>httpx.HTTPError\<close> is caught, and logged; the reply is that of the PUT.\<close>

definition swallow_http_error :: "unit result \<Rightarrow> unit result" where
  "swallow_http_error reply = (case reply of Inl (HTTPXError e) \<Rightarrow> Inr () | _ \<Rightarrow> reply)"

definition register_service ::
  "string \<Rightarrow> (string \<Rightarrow> payload \<Rightarrow> unit result) \<Rightarrow> string \<Rightarrow> string \<Rightarrow> int \<Rightarrow> unit result" where
  "register_service consul put name host port =
     swallow_http_error
       (put (consul @ ''/v1/agent/service/register'') (register_payload name host port))"

definition deregister_service ::
  "string \<Rightarrow> (string \<Rightarrow> payload \<Rightarrow> unit result) \<Rightarrow> string \<Rightarrow> string \<Rightarrow> int \<Rightarrow> unit result" where
  "deregister_service consul put name host port =
     swallow_http_error
       (put (consul @ ''/v1/agent/service/deregister/'' @ service_id name host port) [])"

section \<open>Static addresses\<close>

definition STATIC_SERVICE_MAP :: "(string, string \<times> int) dict" where
  "STATIC_SERVICE_MAP =
     [(''auth-service'', (''auth-service'', 8001)),
      (''leave-balance-service'', (''leave-balance-service'', 8002)),
      (''leave-request-service'', (''leave-request-service'', 8003)),
      (''manager-service'', (''manager-service'', 8004)),
      (''notification-service'', (''notification-service'', 8005))]"

definition static_base_url :: "string \<Rightarrow> string result" where
  "static_base_url service_name =
     (case dict_get STATIC_SERVICE_MAP service_name of
        None \<Rightarrow> Inl (KeyError (''Unknown downstream service '' @ [CHR 0x27] @ service_name @ [CHR 0x27]))
      | Some (host, port) \<Rightarrow> Inr (''http://'' @ host @ '':'' @ str_of_int port))"

text \<open>The gateway keeps its own copy of the map and of the function.\<close>

definition GATEWAY_STATIC_SERVICE_MAP :: "(string, string \<times> int) dict" where
  "GATEWAY_STATIC_SERVICE_MAP =
     [(''auth-service'', (''auth-service'', 8001)),
      (''leave-balance-service'', (''leave-balance-service'', 8002)),
      (''leave-request-service'', (''leave-request-service'', 8003)),
      (''manager-service'', (''manager-service'', 8004)),
      (''notification-service'', (''notification-service'', 8005))]"

definition gateway_static_base_url :: "string \<Rightarrow> string result" where
  "gateway_static_base_url service_name =
     (case dict_get GATEWAY_STATIC_SERVICE_MAP service_name of
        None \<Rightarrow> Inl (KeyError (''Unknown downstream service '' @ [CHR 0x27] @ service_name @ [CHR 0x27]))
      | Some (host, port) \<Rightarrow> Inr (''http://'' @ host @ '':'' @ str_of_int port))"

section \<open>Reading Consul's answer\<close>

text \<open>\<open>for entry in entries\<close> over a decoded value: a list, the keys of an object, the characters of a
  text; anything else is not iterable.\<close>

definition json_items :: "json \<Rightarrow> json list result" where
  "json_items j =
     (case j of
        JList xs \<Rightarrow> Inr xs
      | JObj kvs \<Rightarrow> Inr (map (JStr \<circ> fst) kvs)
      | JStr s \<Rightarrow> Inr (map (\<lambda>c. JStr [c]) s)
      | _ \<Rightarrow> Inl (TypeError ([CHR 0x27] @ json_type j @ [CHR 0x27] @ '' object is not iterable'')))"

text \<open>The loop body: the base URL of one entry, if it has an address and a port. The node's address
  is looked up only when the service has none.\<close>

definition entry_url :: "json \<Rightarrow> string option result" where
  "entry_url entry =
     and_then (json_get entry ''Service'' (JObj [])) (\<lambda>service.
     and_then (json_get entry ''Node'' (JObj [])) (\<lambda>node.
     and_then (json_get service ''Address'' JNull) (\<lambda>own.
     and_then (if json_truthy own then Inr own else json_get node ''Address'' JNull) (\<lambda>address.
     and_then (json_get service ''Port'' JNull) (\<lambda>port.
       Inr (if json_truthy address \<and> json_truthy port
            then Some (''http://'' @ json_str address @ '':'' @ json_str port) else None))))))"

fun all_urls :: "json list \<Rightarrow> string list result" where
  "all_urls [] = Inr []"
| "all_urls (entry # entries) =
     and_then (entry_url entry) (\<lambda>u.
     and_then (all_urls entries) (\<lambda>us. Inr (case u of None \<Rightarrow> us | Some x \<Rightarrow> x # us)))"

fun first_url :: "json list \<Rightarrow> string option result" where
  "first_url [] = Inr None"
| "first_url (entry # entries) =
     and_then (entry_url entry) (\<lambda>u. case u of Some x \<Rightarrow> Inr (Some x) | None \<Rightarrow> first_url entries)"

definition query_consul :: "json result \<Rightarrow> string option result" where
  "query_consul reply =
     (case reply of
        Inl (HTTPXError e) \<Rightarrow> Inr None
      | Inl (ValueError m) \<Rightarrow> Inr None
      | Inl e \<Rightarrow> Inl e
      | Inr entries \<Rightarrow> and_then (json_items entries) first_url)"

definition gateway_query_consul :: "json result \<Rightarrow> string list result" where
  "gateway_query_consul reply =
     (case reply of
        Inl (HTTPXError e) \<Rightarrow> Inr []
      | Inl (ValueError m) \<Rightarrow> Inr []
      | Inl e \<Rightarrow> Inl e
      | Inr entries \<Rightarrow> and_then (json_items entries) all_urls)"

section \<open>Resolution\<close>

text \<open>\<open>_query_consul(name) or _static_base_url(name)\<close>\<close>

definition resolve_service :: "json result \<Rightarrow> string \<Rightarrow> string result" where
  "resolve_service reply service_name =
     and_then (query_consul reply) (\<lambda>found.
       if found \<noteq> None \<and> found \<noteq> Some [] then Inr (the found) else static_base_url service_name)"

text \<open>
  The gateway's cursor of a service: the instances it was built from and the position of its
  \<open>itertools.cycle\<close>.
\<close>

type_synonym cursors = "(string, string list \<times> nat) dict"

definition gateway_resolve :: "json result \<Rightarrow> string \<Rightarrow> cursors \<Rightarrow> cursors \<times> string result" where
  "gateway_resolve reply service_name rr =
     (case gateway_query_consul reply of
        Inl e \<Rightarrow> (rr, Inl e)
      | Inr instances \<Rightarrow>
          if instances = [] then (rr, gateway_static_base_url service_name)
          else let pos = (case dict_get rr service_name of
                            None \<Rightarrow> 0
                          | Some (key, cursor) \<Rightarrow> if key \<noteq> instances then 0 else cursor)
               in (dict_put rr service_name (instances, Suc pos mod length instances),
                   Inr (instances ! pos)))"

text \<open>A sequence of resolutions, each with Consul's answer at that time.\<close>

fun gateway_resolve_all :: "(string \<times> json result) list \<Rightarrow> cursors \<Rightarrow> cursors \<times> string result list" where
  "gateway_resolve_all [] rr = (rr, [])"
| "gateway_resolve_all ((name, reply) # calls) rr =
     (case gateway_resolve reply name rr of
        (rr', r) \<Rightarrow> (case gateway_resolve_all calls rr' of (rr'', rs) \<Rightarrow> (rr'', r # rs)))"

section \<open>A cursor turns around its instances\<close>

definition wf_cursors :: "cursors \<Rightarrow> bool" where
  "wf_cursors rr \<longleftrightarrow>
     (\<forall>name key pos. dict_get rr name = Some (key, pos) \<longrightarrow> pos < length key)"

text \<open>Where the next lookup of a service with these instances starts.\<close>

definition cursor_at :: "cursors \<Rightarrow> string \<Rightarrow> string list \<Rightarrow> nat" where
  "cursor_at rr name instances =
     (case dict_get rr name of None \<Rightarrow> 0 | Some (key, cursor) \<Rightarrow> if key \<noteq> instances then 0 else cursor)"

lemma gateway_resolve_hit:
  assumes "gateway_query_consul reply = Inr instances" and "instances \<noteq> []"
  shows "gateway_resolve reply name rr =
    (dict_put rr name (instances, Suc (cursor_at rr name instances) mod length instances),
     Inr (instances ! cursor_at rr name instances))"
  using assms by (simp add: gateway_resolve_def cursor_at_def Let_def)

lemma gateway_resolve_other:
  "name \<noteq> s \<Longrightarrow> dict_get (fst (gateway_resolve reply name rr)) s = dict_get rr s"
  by (auto simp: gateway_resolve_def Let_def split: sum.splits)

lemma gateway_resolve_wf: "wf_cursors rr \<Longrightarrow> wf_cursors (fst (gateway_resolve reply name rr))"
  by (auto simp: gateway_resolve_def wf_cursors_def Let_def split: sum.splits)

lemma cursor_at_less: "wf_cursors rr \<Longrightarrow> instances \<noteq> [] \<Longrightarrow> cursor_at rr name instances < length instances"
  by (auto simp: cursor_at_def wf_cursors_def split: option.splits)

lemma cursor_at_put: "cursor_at (dict_put rr s (instances, p)) s instances = p"
  by (simp add: cursor_at_def)

lemma wf_cursors_empty [simp]: "wf_cursors []"
  by (simp add: wf_cursors_def dict_get_def)

text \<open>The answers that the calls for one service got.\<close>

definition answers_for :: "string \<Rightarrow> (string \<times> json result) list \<Rightarrow> string result list \<Rightarrow> string result list" where
  "answers_for s calls rs = map snd (filter (\<lambda>(call, r). fst call = s) (zip calls rs))"

definition calls_for :: "string \<Rightarrow> (string \<times> json result) list \<Rightarrow> nat" where
  "calls_for s calls = length (filter (\<lambda>call. fst call = s) calls)"

lemma answers_cycle:
  assumes "\<And>reply. (s, reply) \<in> set calls \<Longrightarrow> gateway_query_consul reply = Inr instances" and "instances \<noteq> []"
    and "wf_cursors rr"
  shows "answers_for s calls (snd (gateway_resolve_all calls rr)) =
    map (\<lambda>i. Inr (instances ! ((cursor_at rr s instances + i) mod length instances))) [0..<calls_for s calls]"
  using assms(1,3)
proof (induction calls arbitrary: rr)
  case Nil
  then show ?case by (simp add: answers_for_def calls_for_def)
next
  case (Cons call calls)
  obtain name reply where call: "call = (name, reply)" by (cases call)
  let ?rr = "fst (gateway_resolve reply name rr)" and ?n = "length instances"
  have wf: "wf_cursors ?rr" using gateway_resolve_wf [OF Cons.prems(2)] .
  have IH: "answers_for s calls (snd (gateway_resolve_all calls ?rr)) =
      map (\<lambda>i. Inr (instances ! ((cursor_at ?rr s instances + i) mod ?n))) [0..<calls_for s calls]"
    using Cons.prems(1) by (intro Cons.IH wf) auto
  have split: "answers_for s (call # calls) (snd (gateway_resolve_all (call # calls) rr)) =
      (if name = s then [snd (gateway_resolve reply name rr)] else []) @
      answers_for s calls (snd (gateway_resolve_all calls ?rr))"
    by (simp add: call answers_for_def split: prod.splits)
  show ?case
  proof (cases "name = s")
    case False
    then have "cursor_at ?rr s instances = cursor_at rr s instances"
      using gateway_resolve_other [of name s reply rr] by (simp add: cursor_at_def)
    with False IH show ?thesis unfolding split by (simp add: call calls_for_def)
  next
    case True
    then have q: "gateway_query_consul reply = Inr instances" using Cons.prems(1) call by simp
    let ?p = "cursor_at rr s instances"
    have hit: "gateway_resolve reply s rr =
        (dict_put rr s (instances, Suc ?p mod ?n), Inr (instances ! ?p))"
      using gateway_resolve_hit [OF q assms(2), of name rr] True by simp
    have "?p mod ?n = ?p" using cursor_at_less [OF Cons.prems(2) assms(2)] by simp
    moreover have "cursor_at ?rr s instances = Suc ?p mod ?n"
      using True by (simp add: hit cursor_at_put)
    ultimately show ?thesis
      unfolding split IH using True
      by (simp add: call calls_for_def hit map_upt_Suc mod_add_left_eq del: upt_Suc)
  qed
qed

lemma turn_is_rotation:
  "map (\<lambda>i. xs ! ((p + i) mod length xs)) [0..<length xs] = rotate p xs"
  by (rule nth_equalityI) (simp_all add: nth_rotate)

lemma mset_rotate: "mset (rotate p xs) = mset xs"
  unfolding rotate_drop_take by (metis append_take_drop_id mset_append union_commute)

lemma turns_mset:
  assumes "n = length xs"
  shows "mset (map (\<lambda>i. xs ! ((p + i) mod n)) [0..<k * n]) = repeat_mset k (mset xs)"
proof (induction k)
  case (Suc k)
  have "map (\<lambda>i. xs ! ((p + i) mod n)) [k * n..<k * n + n] = map (\<lambda>i. xs ! ((p + i) mod n)) [0..<n]"
  proof (rule nth_equalityI)
    fix i
    have "p + (k * n + i) = p + i + k * n" by simp
    then have "(p + (k * n + i)) mod n = (p + i) mod n" by (simp only: mod_mult_self1)
    moreover assume "i < length (map (\<lambda>i. xs ! ((p + i) mod n)) [k * n..<k * n + n])"
    ultimately show "map (\<lambda>i. xs ! ((p + i) mod n)) [k * n..<k * n + n] ! i =
        map (\<lambda>i. xs ! ((p + i) mod n)) [0..<n] ! i" by simp
  qed simp
  then have "mset (map (\<lambda>i. xs ! ((p + i) mod n)) [k * n..<k * n + n]) = mset xs"
    by (simp add: assms turn_is_rotation mset_rotate)
  moreover have "[0..<Suc k * n] = [0..<k * n] @ [k * n..<k * n + n]"
    using upt_add_eq_append [of 0 "k * n" n] by (simp add: add.commute)
  ultimately show ?case using Suc by simp
qed simp

lemma image_repeat_mset: "image_mset f (repeat_mset k M) = repeat_mset k (image_mset f M)"
  by (induction k) simp_all

text \<open>
  C32: round robin is fair. While Consul reports the same instances for a service, its lookups take
  them in turn from where the cursor stands, whatever lookups of other services come between and
  whatever these find; so k lookups for each of n instances give each instance exactly k times.
\<close>

theorem round_robin_fair:
  assumes "wf_cursors rr" and "instances \<noteq> []"
    and "\<forall>reply. (s, reply) \<in> set calls \<longrightarrow> gateway_query_consul reply = Inr instances"
    and "calls_for s calls = k * length instances"
  shows "answers_for s calls (snd (gateway_resolve_all calls rr)) =
      map (\<lambda>i. Inr (instances ! ((cursor_at rr s instances + i) mod length instances))) [0..<k * length instances]
    \<and> mset (answers_for s calls (snd (gateway_resolve_all calls rr))) =
      repeat_mset k (image_mset Inr (mset instances))"
proof -
  have a: "answers_for s calls (snd (gateway_resolve_all calls rr)) =
      map Inr (map (\<lambda>i. instances ! ((cursor_at rr s instances + i) mod length instances)) [0..<k * length instances])"
    using answers_cycle [of s calls instances rr] assms by (simp add: comp_def)
  have "mset (answers_for s calls (snd (gateway_resolve_all calls rr))) =
      image_mset Inr (repeat_mset k (mset instances))"
    unfolding a mset_map [of Inr] by (simp only: turns_mset)
  with a show ?thesis by (simp add: comp_def image_repeat_mset)
qed

section \<open>What resolution answers\<close>

lemma static_maps_agree: "gateway_static_base_url = static_base_url"
  by (simp add: fun_eq_iff gateway_static_base_url_def static_base_url_def GATEWAY_STATIC_SERVICE_MAP_def
      STATIC_SERVICE_MAP_def)

definition known_services :: "string list" where
  "known_services = map fst STATIC_SERVICE_MAP"

lemma static_base_url_known:
  "is_ok (static_base_url name) \<longleftrightarrow> name \<in> set known_services"
  by (auto simp: static_base_url_def known_services_def STATIC_SERVICE_MAP_def dict_get_def)

lemma first_of_all: "all_urls entries = Inr us \<Longrightarrow>
    first_url entries = Inr (case us of [] \<Rightarrow> None | u # _ \<Rightarrow> Some u)"
proof (induction entries arbitrary: us)
  case (Cons entry entries)
  then obtain u us' where "entry_url entry = Inr u" "all_urls entries = Inr us'"
    "us = (case u of None \<Rightarrow> us' | Some x \<Rightarrow> x # us')" by (auto simp: and_then_Inr_iff)
  with Cons.IH show ?case by (cases u) simp_all
qed simp

lemma entry_url_nonempty: "entry_url entry = Inr (Some u) \<Longrightarrow> u \<noteq> []"
  by (auto simp: entry_url_def and_then_Inr_iff split: if_splits)

lemma all_urls_nonempty: "all_urls entries = Inr us \<Longrightarrow> [] \<notin> set us"
proof (induction entries arbitrary: us)
  case (Cons entry entries)
  then obtain u us' where "entry_url entry = Inr u" "all_urls entries = Inr us'"
    "us = (case u of None \<Rightarrow> us' | Some x \<Rightarrow> x # us')" by (auto simp: and_then_Inr_iff)
  with Cons.IH entry_url_nonempty [of entry] show ?case by (cases u) auto
qed simp

lemma query_agrees:
  assumes "gateway_query_consul reply = Inr us"
  shows "query_consul reply = Inr (case us of [] \<Rightarrow> None | u # _ \<Rightarrow> Some u)" and "[] \<notin> set us"
  using assms
  by (auto simp: gateway_query_consul_def query_consul_def and_then_Inr_iff first_of_all
      split: sum.splits exn.splits dest: all_urls_nonempty)

text \<open>
  C33: the two resolvers agree and are total on the platform's services. Whenever Consul's answer can
  be read (also as "unreachable" or "not JSON", which read as no instance), the services' resolver
  answers the first instance that the gateway's would see, and the gateway's answers an instance of
  the list; without an instance both answer the same static address, which exists exactly for the
  five service names and is a KeyError for any other; the cursors stay well-formed.
\<close>

theorem resolvers_agree:
  assumes "gateway_query_consul reply = Inr instances" and "wf_cursors rr"
  shows "resolve_service reply name =
      (case instances of [] \<Rightarrow> static_base_url name | u # _ \<Rightarrow> Inr u)
    \<and> (if instances = [] then snd (gateway_resolve reply name rr) = static_base_url name
       else snd (gateway_resolve reply name rr) \<in> Inr ` set instances)
    \<and> (is_ok (static_base_url name) \<longleftrightarrow> name \<in> set known_services)
    \<and> wf_cursors (fst (gateway_resolve reply name rr))"
proof (intro conjI)
  show "resolve_service reply name = (case instances of [] \<Rightarrow> static_base_url name | u # _ \<Rightarrow> Inr u)"
    using query_agrees [OF assms(1)] by (cases instances) (auto simp: resolve_service_def)
  show "if instances = [] then snd (gateway_resolve reply name rr) = static_base_url name
       else snd (gateway_resolve reply name rr) \<in> Inr ` set instances"
  proof (cases "instances = []")
    case True
    with assms(1) show ?thesis by (simp add: gateway_resolve_def static_maps_agree)
  next
    case False
    with gateway_resolve_hit [OF assms(1) False, of name rr] cursor_at_less [OF assms(2) False, of name]
    show ?thesis by simp
  qed
qed (rule static_base_url_known, rule gateway_resolve_wf [OF assms(2)])

text \<open>
  Registration and resolution fit together. If Consul lists an instance with the address and port
  of its registration, both resolvers turn the entry into the URL whose health path was registered,
  and deregistering names the id that was registered. A Consul that is down stops neither.
\<close>

lemma registration_roundtrip:
  assumes "dict_get entry ''Service'' = Some (JObj service)"
    and "dict_get service ''Address'' = dict_get (register_payload name host port) ''Address''"
    and "dict_get service ''Port'' = dict_get (register_payload name host port) ''Port''"
    and "host \<noteq> []" and "port \<noteq> 0"
  shows "resolve_service (Inr (JList [JObj entry])) s = Inr (instance_base_url host port)
    \<and> snd (gateway_resolve (Inr (JList [JObj entry])) s []) = Inr (instance_base_url host port)
    \<and> (\<exists>check. dict_get (register_payload name host port) ''Check'' = Some (JObj check)
         \<and> dict_get check ''HTTP'' = Some (JStr (instance_base_url host port @ ''/health'')))
    \<and> dict_get (register_payload name host port) ''ID'' = Some (JStr (service_id name host port))
    \<and> register_service consul (\<lambda>_ _. Inl (HTTPXError e)) name host port = Inr ()
    \<and> deregister_service consul (\<lambda>_ _. Inl (HTTPXError e)) name host port = Inr ()"
proof -
  have addr: "dict_get service ''Address'' = Some (JStr host)" and prt: "dict_get service ''Port'' = Some (JInt port)"
    using assms(2,3) by (simp_all add: register_payload_def dict_get_def)
  have u: "entry_url (JObj entry) = Inr (Some (instance_base_url host port))"
    using assms(1,4,5) addr prt
    by (simp add: entry_url_def json_get_def instance_base_url_def json_str_def)
  have q: "gateway_query_consul (Inr (JList [JObj entry])) = Inr [instance_base_url host port]"
    by (simp add: gateway_query_consul_def json_items_def u)
  have "snd (gateway_resolve (Inr (JList [JObj entry])) s []) = Inr (instance_base_url host port)"
    by (simp add: gateway_resolve_def q dict_get_def)
  moreover have "resolve_service (Inr (JList [JObj entry])) s = Inr (instance_base_url host port)"
    using query_agrees(1) [OF q] by (simp add: resolve_service_def instance_base_url_def)
  ultimately show ?thesis
    by (simp add: register_payload_def dict_get_def register_service_def deregister_service_def
        swallow_http_error_def)
qed

end
