(* ===== verification/Auth_Service.thy ===== *)
theory Auth_Service
  imports Py_Json Seed_Config Config "HOL-Library.Countable"
begin

text \<open>
  The Auth Service (\<open>auth_service/\<close>) and the token helpers every service shares
  (\<open>shared/jwt_utils.py\<close>): the user store, the seed loader, login, issuing and reading access tokens.
  The password hashing library and the token library are arguments; time is counted in seconds.
\<close>

section \<open>Libraries\<close>

text \<open>
  \<open>CryptContext.hash\<close> with its random salt and \<open>CryptContext.verify\<close>; \<open>jwt.encode\<close> and
  \<open>jwt.decode\<close> with the clock of the decoding, \<open>None\<close> for a \<open>JWTError\<close>.
\<close>

record password_lib =
  pl_hash :: "string \<Rightarrow> string \<Rightarrow> string"
  pl_verify :: "string \<Rightarrow> string \<Rightarrow> bool result"

record jwt_lib =
  jl_encode :: "payload \<Rightarrow> string \<Rightarrow> string \<Rightarrow> string"
  jl_decode :: "int \<Rightarrow> string \<Rightarrow> string \<Rightarrow> string \<Rightarrow> payload option"

section \<open>Store\<close>

record User =
  us_user_id :: string
  us_username :: string
  us_hashed_password :: string
  us_role :: Role
  us_manager_id :: "string option"

record auth_state =
  users_store :: "(string, User) dict"
  username_index :: "(string, string) dict"

definition empty_users :: auth_state where
  "empty_users = \<lparr>users_store = [], username_index = []\<rparr>"

definition add_user :: "User \<Rightarrow> auth_state \<Rightarrow> auth_state" where
  "add_user user s =
     s\<lparr>users_store := dict_put (users_store s) (us_user_id user) user,
       username_index := dict_put (username_index s) (us_username user) (us_user_id user)\<rparr>"

definition get_by_username :: "auth_state \<Rightarrow> string \<Rightarrow> User option" where
  "get_by_username s username =
     (case dict_get (username_index s) username of
        None \<Rightarrow> None
      | Some user_id \<Rightarrow> dict_get (users_store s) user_id)"

definition hash_password :: "password_lib \<Rightarrow> string \<Rightarrow> string \<Rightarrow> string" where
  [simp]: "hash_password pl salt plaintext = pl_hash pl salt plaintext"

definition verify_password :: "password_lib \<Rightarrow> string \<Rightarrow> string \<Rightarrow> bool result" where
  [simp]: "verify_password pl plaintext hashed = pl_verify pl plaintext hashed"

text \<open>The n-th hash of the process is salted with \<open>salts n\<close>.\<close>

definition user_of_seed :: "password_lib \<Rightarrow> string \<Rightarrow> SeedUser \<Rightarrow> User" where
  "user_of_seed pl salt u =
     \<lparr>us_user_id = su_user_id u, us_username = su_username u,
      us_hashed_password = hash_password pl salt (su_password u), us_role = su_role u,
      us_manager_id = su_manager_id u\<rparr>"

definition seed_users :: "password_lib \<Rightarrow> (nat \<Rightarrow> string) \<Rightarrow> auth_state \<Rightarrow> auth_state" where
  "seed_users pl salts s =
     (if users_store s \<noteq> [] then s
      else fold (\<lambda>(n, u). add_user (user_of_seed pl (salts n) u)) (List.enumerate 0 SEED_USERS) s)"

section \<open>Tokens\<close>

definition token_claims :: "Settings \<Rightarrow> int \<Rightarrow> string \<Rightarrow> Role \<Rightarrow> payload" where
  "token_claims cfg now user_id role =
     [(''sub'', JStr user_id), (''role'', JStr (Role_value role)),
      (''exp'', JInt (now + 60 * jwt_expiration_minutes cfg))]"

definition create_access_token :: "jwt_lib \<Rightarrow> Settings \<Rightarrow> int \<Rightarrow> string \<Rightarrow> Role \<Rightarrow> string" where
  "create_access_token jl cfg now user_id role =
     jl_encode jl (token_claims cfg now user_id role) (jwt_secret_key cfg) (jwt_algorithm cfg)"

definition decode_token :: "jwt_lib \<Rightarrow> Settings \<Rightarrow> int \<Rightarrow> string \<Rightarrow> payload result" where
  "decode_token jl cfg now token =
     (case jl_decode jl now token (jwt_secret_key cfg) (jwt_algorithm cfg) of
        None \<Rightarrow> Inl (HTTPException 401 (Msg ''Invalid or expired authentication token''))
      | Some claims \<Rightarrow> Inr claims)"

section \<open>Login\<close>

record LoginRequest =
  lq_username :: string
  lq_password :: string

definition valid_LoginRequest :: "LoginRequest \<Rightarrow> bool" where
  "valid_LoginRequest p \<longleftrightarrow> 1 \<le> length (lq_username p) \<and> 1 \<le> length (lq_password p)"

record LoginResponse =
  lp_access_token :: string
  lp_token_type :: string

definition invalid_credentials :: exn where
  "invalid_credentials = HTTPException 401 (Msg ''Invalid username or password'')"

definition login :: "password_lib \<Rightarrow> jwt_lib \<Rightarrow> Settings \<Rightarrow> int \<Rightarrow> LoginRequest \<Rightarrow> auth_state \<Rightarrow> LoginResponse result" where
  "login pl jl cfg now p s =
     (case get_by_username s (lq_username p) of
        None \<Rightarrow> Inl invalid_credentials
      | Some user \<Rightarrow>
          and_then (verify_password pl (lq_password p) (us_hashed_password user)) (\<lambda>verified.
            if \<not> verified then Inl invalid_credentials
            else Inr \<lparr>lp_access_token = create_access_token jl cfg now (us_user_id user) (us_role user),
                      lp_token_type = ''bearer''\<rparr>))"

definition login_endpoint ::
  "password_lib \<Rightarrow> jwt_lib \<Rightarrow> Settings \<Rightarrow> int \<Rightarrow> LoginRequest \<Rightarrow> auth_state \<Rightarrow> LoginResponse http_response" where
  "login_endpoint pl jl cfg now p s =
     (if \<not> valid_LoginRequest p then Error_response 422 ValidationErrors
      else respond 200 (login pl jl cfg now p s))"

section \<open>What the libraries document\<close>

text \<open>
  bcrypt on passwords it does not truncate or refuse: at most 72 bytes, no NUL. (Beyond 72 bytes it
  compares a prefix only; a NUL raises.)
\<close>

definition ordinary :: "string \<Rightarrow> bool" where
  "ordinary p \<longleftrightarrow> length p \<le> 72 \<and> (\<forall>c \<in> set p. 0 < (of_char c :: nat) \<and> (of_char c :: nat) < 128)"

definition bcrypt_ok :: "password_lib \<Rightarrow> bool" where
  "bcrypt_ok pl \<longleftrightarrow>
     (\<forall>salt p q. ordinary p \<longrightarrow> ordinary q \<longrightarrow> pl_verify pl q (pl_hash pl salt p) = Inr (q = p))"

text \<open>
  A token decodes under the key and algorithm that signed it to its claims until its \<open>exp\<close> second has
  passed, and is then refused; compact serialization is not empty and has no white space.
\<close>

definition jwt_ok :: "jwt_lib \<Rightarrow> bool" where
  "jwt_ok jl \<longleftrightarrow>
     (\<forall>claims key alg now t. dict_get claims ''exp'' = Some (JInt t) \<longrightarrow>
        jl_decode jl now (jl_encode jl claims key alg) key alg = (if now \<le> t then Some claims else None))
     \<and> (\<forall>claims key alg. jl_encode jl claims key alg \<noteq> []
          \<and> (\<forall>c \<in> set (jl_encode jl claims key alg). \<not> is_space c))"

text \<open>Instances that behave so: a hash that is the password, a token that counts its claims.\<close>

definition sample_passwords :: password_lib where
  "sample_passwords = \<lparr>pl_hash = (\<lambda>salt p. p), pl_verify = (\<lambda>q h. Inr (q = h))\<rparr>"

instance json :: countable
  by countable_datatype

definition sample_jwt :: jwt_lib where
  "sample_jwt =
     \<lparr>jl_encode = (\<lambda>claims key alg. replicate (Suc (to_nat claims)) (CHR ''t'')),
      jl_decode = (\<lambda>now token key alg.
        let claims = from_nat (length token - 1) :: payload in
        case dict_get claims ''exp'' of
          Some (JInt t) \<Rightarrow> if now \<le> t then Some claims else None
        | _ \<Rightarrow> Some claims)\<rparr>"

lemma sample_passwords_ok: "bcrypt_ok sample_passwords"
  by (simp add: bcrypt_ok_def sample_passwords_def)

lemma sample_jwt_ok: "jwt_ok sample_jwt"
  by (auto simp: jwt_ok_def sample_jwt_def is_space_def)

section \<open>Properties\<close>

lemma seed_users_get:
  "get_by_username (seed_users pl salts empty_users) name =
     (if name = ''manager1'' then Some (user_of_seed pl (salts 0) (SEED_USERS ! 0))
      else if name = ''emp1'' then Some (user_of_seed pl (salts 1) (SEED_USERS ! 1))
      else if name = ''emp2'' then Some (user_of_seed pl (salts 2) (SEED_USERS ! 2))
      else None)"
  by (simp add: seed_users_def SEED_USERS_def add_user_def user_of_seed_def get_by_username_def
      empty_users_def numeral_2_eq_2)

lemma seed_usernames:
  "su_username (SEED_USERS ! 0) = ''manager1''" "su_username (SEED_USERS ! Suc 0) = ''emp1''"
  "su_username (SEED_USERS ! Suc (Suc 0)) = ''emp2''"
  by (simp_all add: SEED_USERS_def)

lemma seed_users_get_nth:
  assumes "get_by_username (seed_users pl salts empty_users) name = Some user"
  shows "\<exists>n < 3. user = user_of_seed pl (salts n) (SEED_USERS ! n) \<and> name = su_username (SEED_USERS ! n)"
proof -
  consider "name = su_username (SEED_USERS ! 0)" "user = user_of_seed pl (salts 0) (SEED_USERS ! 0)"
    | "name = su_username (SEED_USERS ! 1)" "user = user_of_seed pl (salts 1) (SEED_USERS ! 1)"
    | "name = su_username (SEED_USERS ! 2)" "user = user_of_seed pl (salts 2) (SEED_USERS ! 2)"
    using assms unfolding seed_users_get by (simp add: seed_usernames numeral_2_eq_2 split: if_splits)
  then show ?thesis
  proof cases
    case 1 then show ?thesis by (intro exI [of _ 0]) simp
  next
    case 2 then show ?thesis by (intro exI [of _ 1]) simp
  next
    case 3 then show ?thesis by (intro exI [of _ 2]) simp
  qed
qed

lemma find_seed:
  assumes "n < 3"
  shows "List.find (\<lambda>u. su_username u = su_username (SEED_USERS ! n) \<and> su_password u = pw) SEED_USERS =
    (if pw = su_password (SEED_USERS ! n) then Some (SEED_USERS ! n) else None)"
proof -
  consider "n = 0" | "n = 1" | "n = 2" using assms by linarith
  then show ?thesis by cases (simp_all add: SEED_USERS_def)
qed

lemma seed_passwords_ordinary: "u \<in> set SEED_USERS \<Longrightarrow> ordinary (su_password u)"
  by (auto simp: SEED_USERS_def ordinary_def)

lemma login_known:
  assumes "bcrypt_ok pl" and "ordinary (lq_password p)"
    and "get_by_username s (lq_username p) = Some (user_of_seed pl salt u)" and "u \<in> set SEED_USERS"
  shows "login pl jl cfg now p s =
    (if lq_password p = su_password u then Inr
       \<lparr>lp_access_token = create_access_token jl cfg now (su_user_id u) (su_role u), lp_token_type = ''bearer''\<rparr>
     else Inl invalid_credentials)"
proof -
  have "pl_verify pl (lq_password p) (us_hashed_password (user_of_seed pl salt u)) =
      Inr (lq_password p = su_password u)"
    using assms(1,2) seed_passwords_ordinary [OF assms(4)] unfolding bcrypt_ok_def user_of_seed_def by simp
  then show ?thesis using assms(3) by (simp add: login_def user_of_seed_def)
qed

lemma login_seeded:
  assumes "bcrypt_ok pl" and "ordinary (lq_password p)"
  shows "login pl jl cfg now p (seed_users pl salts empty_users) =
    (case List.find (\<lambda>u. su_username u = lq_username p \<and> su_password u = lq_password p) SEED_USERS of
       None \<Rightarrow> Inl invalid_credentials
     | Some u \<Rightarrow> Inr
         \<lparr>lp_access_token = create_access_token jl cfg now (su_user_id u) (su_role u), lp_token_type = ''bearer''\<rparr>)"
proof (cases "get_by_username (seed_users pl salts empty_users) (lq_username p)")
  case None
  then have "lq_username p \<notin> {''manager1'', ''emp1'', ''emp2''}"
    by (auto simp: seed_users_get split: if_splits)
  then have "List.find (\<lambda>u. su_username u = lq_username p \<and> su_password u = lq_password p) SEED_USERS = None"
    by (auto simp: find_None_iff SEED_USERS_def)
  with None show ?thesis by (simp add: login_def)
next
  case (Some user)
  from seed_users_get_nth [OF Some] obtain n where n: "n < 3"
    "user = user_of_seed pl (salts n) (SEED_USERS ! n)" "lq_username p = su_username (SEED_USERS ! n)"
    by blast
  then have m: "SEED_USERS ! n \<in> set SEED_USERS" by (intro nth_mem) (simp add: SEED_USERS_def)
  have "List.find (\<lambda>u. su_username u = lq_username p \<and> su_password u = lq_password p) SEED_USERS =
      (if lq_password p = su_password (SEED_USERS ! n) then Some (SEED_USERS ! n) else None)"
    unfolding n(3) by (rule find_seed [OF n(1)])
  with login_known [OF assms Some [unfolded n(2)] m] show ?thesis by simp
qed

text \<open>
  C26: login against the seeded store succeeds exactly for the username and password of a seeded
  user, with a bearer token for that user's id and role; an unknown username and a wrong password
  get the same 401, so the answer does not tell which accounts exist; seeding twice is seeding once.
\<close>

theorem login_exact:
  assumes "bcrypt_ok pl" and "ordinary (lq_password p)" and "valid_LoginRequest p"
  shows "login_endpoint pl jl cfg now p (seed_users pl salts empty_users) =
      (case List.find (\<lambda>u. su_username u = lq_username p \<and> su_password u = lq_password p) SEED_USERS of
         None \<Rightarrow> Error_response 401 (Msg ''Invalid username or password'')
       | Some u \<Rightarrow> Ok_response 200
           \<lparr>lp_access_token = create_access_token jl cfg now (su_user_id u) (su_role u),
            lp_token_type = ''bearer''\<rparr>)
    \<and> seed_users pl salts' (seed_users pl salts empty_users) = seed_users pl salts empty_users"
proof
  show "login_endpoint pl jl cfg now p (seed_users pl salts empty_users) =
      (case List.find (\<lambda>u. su_username u = lq_username p \<and> su_password u = lq_password p) SEED_USERS of
         None \<Rightarrow> Error_response 401 (Msg ''Invalid username or password'')
       | Some u \<Rightarrow> Ok_response 200
           \<lparr>lp_access_token = create_access_token jl cfg now (su_user_id u) (su_role u),
            lp_token_type = ''bearer''\<rparr>)"
    unfolding login_endpoint_def login_seeded [OF assms(1,2)] using assms(3)
    by (simp add: invalid_credentials_def split: option.split)
  show "seed_users pl salts' (seed_users pl salts empty_users) = seed_users pl salts empty_users"
    by (simp add: seed_users_def SEED_USERS_def empty_users_def add_user_def user_of_seed_def dict_put_def)
qed

lemma token_claims_get [simp]:
  "dict_get (token_claims cfg now u r) ''sub'' = Some (JStr u)"
  "dict_get (token_claims cfg now u r) ''role'' = Some (JStr (Role_value r))"
  "dict_get (token_claims cfg now u r) ''exp'' = Some (JInt (now + 60 * jwt_expiration_minutes cfg))"
  by (simp_all add: token_claims_def dict_get_def)

lemma decode_created:
  assumes "jwt_ok jl"
  shows "decode_token jl cfg now' (create_access_token jl cfg now u r) =
    (if now' \<le> now + 60 * jwt_expiration_minutes cfg then Inr (token_claims cfg now u r)
     else Inl (HTTPException 401 (Msg ''Invalid or expired authentication token'')))"
  using assms token_claims_get(3) [of cfg now u r]
  unfolding jwt_ok_def decode_token_def create_access_token_def by simp

end
