(* ===== verification/Api_Gateway.thy ===== *)
theory Api_Gateway
  imports Service_Discovery Auth_Service Auth_Context
begin

text \<open>
  The gateway (\<open>api_gateway/\<close>): the authentication middleware, the route table, forwarding with the
  headers it builds, the mapping of upstream failures and the access log. The header lookup of the
  web framework, the HTTP client's \<open>request\<close> and what the framework answers to a path without a
  route (404, 405, a redirect, the generated documentation pages) are arguments.
\<close>

section \<open>Requests and responses\<close>

text \<open>
  A request as the server hands it over: header names in lower case, header fields and query
  parameters in the order received, the latter decoded.
\<close>

type_synonym headers = "(string \<times> string) list"

record gw_request =
  rq_method :: string
  rq_path :: string
  rq_query :: "(string \<times> string) list"
  rq_headers :: headers
  rq_body :: string

text \<open>What the HTTP client is asked to send, and what it returns.\<close>

record wire_request =
  wr_method :: string
  wr_url :: string
  wr_params :: "(string, string) dict"
  wr_headers :: "(string, string) dict"
  wr_body :: string

record wire_response =
  ws_status :: int
  ws_headers :: headers
  ws_content :: string

datatype content = Relayed string | JsonContent payload | Own string

record gw_response =
  gr_status :: int
  gr_headers :: "(string, string) dict"
  gr_content :: content
  gr_media_type :: "string option"

record gateway_env =
  ge_jwt :: jwt_lib
  ge_settings :: Settings
  ge_now :: int
  ge_header :: "headers \<Rightarrow> string \<Rightarrow> string option"
  ge_consul :: "string \<Rightarrow> json result"
  ge_send :: "wire_request \<Rightarrow> wire_response result"
  ge_framework :: "gw_request \<Rightarrow> gw_response result"

definition json_response :: "int \<Rightarrow> headers \<Rightarrow> payload \<Rightarrow> gw_response" where
  "json_response code hs body =
     \<lparr>gr_status = code, gr_headers = hs, gr_content = JsonContent body,
      gr_media_type = Some ''application/json''\<rparr>"

section \<open>Routes\<close>

definition AUTH_SERVICE :: string where "AUTH_SERVICE = ''auth-service''"
definition BALANCE_SERVICE :: string where "BALANCE_SERVICE = ''leave-balance-service''"
definition REQUEST_SERVICE :: string where "REQUEST_SERVICE = ''leave-request-service''"
definition MANAGER_SERVICE :: string where "MANAGER_SERVICE = ''manager-service''"

text \<open>A path template: its segments, one in braces being a parameter, which takes one non-empty
  segment. The routes are tried in the order of their declaration.\<close>

datatype segment = Lit string | Param string

definition ROUTES :: "(string \<times> segment list \<times> string) list" where
  "ROUTES =
     [(''POST'', [Lit ''auth'', Lit ''login''], AUTH_SERVICE),
      (''GET'', [Lit ''employees'', Lit ''me'', Lit ''balances''], BALANCE_SERVICE),
      (''GET'', [Lit ''employees'', Param ''employee_id'', Lit ''balances''], BALANCE_SERVICE),
      (''POST'', [Lit ''leaves''], REQUEST_SERVICE),
      (''GET'', [Lit ''leaves'', Lit ''history''], REQUEST_SERVICE),
      (''PATCH'', [Lit ''leaves'', Param ''leave_id'', Lit ''cancel''], REQUEST_SERVICE),
      (''GET'', [Lit ''manager'', Lit ''requests''], MANAGER_SERVICE),
      (''POST'', [Lit ''manager'', Lit ''requests'', Param ''request_id'', Lit ''approve''], MANAGER_SERVICE),
      (''POST'', [Lit ''manager'', Lit ''requests'', Param ''request_id'', Lit ''reject''], MANAGER_SERVICE)]"

fun split_path :: "string \<Rightarrow> string list" where
  "split_path [] = [[]]"
| "split_path (c # cs) =
     (if c = CHR ''/'' then [] # split_path cs
      else case split_path cs of [] \<Rightarrow> [[c]] | s # ss \<Rightarrow> (c # s) # ss)"

fun segment_matches :: "segment \<Rightarrow> string \<Rightarrow> bool" where
  "segment_matches (Lit s) x \<longleftrightarrow> x = s"
| "segment_matches (Param p) x \<longleftrightarrow> x \<noteq> []"

definition template_matches :: "segment list \<Rightarrow> string \<Rightarrow> bool" where
  "template_matches ts path \<longleftrightarrow>
     (case split_path path of
        [] \<Rightarrow> False
      | root # segs \<Rightarrow> root = [] \<and> list_all2 segment_matches ts segs)"

definition route_of :: "string \<Rightarrow> string \<Rightarrow> string option" where
  "route_of http_method path =
     map_option (\<lambda>(m, ts, service). service)
       (List.find (\<lambda>(m, ts, service). m = http_method \<and> template_matches ts path) ROUTES)"

section \<open>Headers\<close>

definition HOP_BY_HOP :: "string list" where
  "HOP_BY_HOP =
     [''connection'', ''keep-alive'', ''proxy-authenticate'', ''proxy-authorization'', ''te'',
      ''trailers'', ''transfer-encoding'', ''upgrade'', ''host'', ''content-length'']"

text \<open>The dictionary comprehension keeps the last value of a repeated name. The verified claims are
  put under their capitalised names afterwards.\<close>

definition put_claim :: "payload \<Rightarrow> string \<Rightarrow> string \<Rightarrow> (string, string) dict \<Rightarrow> (string, string) dict" where
  "put_claim user claim name hs =
     (if json_truthy (field user claim) then dict_put hs name (json_str (field user claim)) else hs)"

definition build_forward_headers :: "payload option \<Rightarrow> headers \<Rightarrow> (string, string) dict" where
  "build_forward_headers user hs =
     (let headers = dict_merge [] (filter (\<lambda>(k, v). str_lower k \<notin> set HOP_BY_HOP) hs)
      in case user of
           None \<Rightarrow> headers
         | Some claims \<Rightarrow>
             if claims = [] then headers
             else put_claim claims ''role'' ''X-User-Role''
                    (put_claim claims ''sub'' ''X-User-Id'' headers))"

definition build_response :: "(headers \<Rightarrow> string \<Rightarrow> string option) \<Rightarrow> wire_response \<Rightarrow> gw_response" where
  "build_response header downstream =
     \<lparr>gr_status = ws_status downstream,
      gr_headers = dict_merge [] (filter (\<lambda>(k, v).
        str_lower k \<notin> set HOP_BY_HOP \<and> str_lower k \<noteq> ''content-encoding'') (ws_headers downstream)),
      gr_content = Relayed (ws_content downstream),
      gr_media_type = header (ws_headers downstream) ''content-type''\<rparr>"

section \<open>Forwarding\<close>

definition upstream_error :: "int \<Rightarrow> string \<Rightarrow> string \<Rightarrow> gw_response" where
  "upstream_error code service what =
     json_response code []
       [(''detail'', JStr (''Upstream service '' @ [CHR 0x27] @ service @ [CHR 0x27] @ what))]"

definition outgoing :: "string \<Rightarrow> payload option \<Rightarrow> gw_request \<Rightarrow> wire_request" where
  "outgoing base_url user rq =
     \<lparr>wr_method = rq_method rq, wr_url = base_url @ rq_path rq,
      wr_params = dict_merge [] (rq_query rq),
      wr_headers = build_forward_headers user (rq_headers rq), wr_body = rq_body rq\<rparr>"

definition forward ::
  "gateway_env \<Rightarrow> payload option \<Rightarrow> gw_request \<Rightarrow> string \<Rightarrow> cursors \<Rightarrow> cursors \<times> gw_response result" where
  "forward env user rq service rr =
     (case gateway_resolve (ge_consul env service) service rr of
        (rr', Inl e) \<Rightarrow> (rr', Inl e)
      | (rr', Inr base_url) \<Rightarrow>
          (rr', case ge_send env (outgoing base_url user rq) of
             Inl (HTTPXError TimeoutException) \<Rightarrow> Inr (upstream_error 504 service '' timed out'')
           | Inl (HTTPXError ConnectError) \<Rightarrow> Inr (upstream_error 503 service '' is unavailable'')
           | Inl e \<Rightarrow> Inl e
           | Inr downstream \<Rightarrow> Inr (build_response (ge_header env) downstream)))"

definition health :: payload where
  "health = [(''status'', JStr ''healthy''), (''service'', JStr ''api-gateway'')]"

definition gateway_routes ::
  "gateway_env \<Rightarrow> payload option \<Rightarrow> gw_request \<Rightarrow> cursors \<Rightarrow> cursors \<times> gw_response result" where
  "gateway_routes env user rq rr =
     (case route_of (rq_method rq) (rq_path rq) of
        Some service \<Rightarrow> forward env user rq service rr
      | None \<Rightarrow>
          if rq_method rq = ''GET'' \<and> rq_path rq = ''/health'' then (rr, Inr (json_response 200 [] health))
          else (rr, ge_framework env rq))"

section \<open>Middleware\<close>

definition PUBLIC_PATHS :: "string list" where
  "PUBLIC_PATHS = [''/auth/login'', ''/health'', ''/docs'', ''/openapi.json'', ''/redoc'']"

definition unauthorized :: "string \<Rightarrow> gw_response" where
  "unauthorized d = json_response 401 [(''WWW-Authenticate'', ''Bearer'')] [(''detail'', JStr d)]"

definition jwt_dispatch :: "gateway_env \<Rightarrow> gw_request \<Rightarrow> cursors \<Rightarrow> cursors \<times> gw_response result" where
  "jwt_dispatch env rq rr =
     (if rq_path rq \<in> set PUBLIC_PATHS then gateway_routes env None rq rr
      else
        let auth_header = (case ge_header env (rq_headers rq) ''Authorization'' of None \<Rightarrow> [] | Some h \<Rightarrow> h)
        in case str_partition (CHR '' '') auth_header of (scheme, sep, token) \<Rightarrow>
          if str_lower scheme \<noteq> ''bearer'' \<or> str_strip token = []
          then (rr, Inr (unauthorized ''Missing or malformed Authorization header''))
          else case decode_token (ge_jwt env) (ge_settings env) (ge_now env) (str_strip token) of
            Inl e \<Rightarrow> (rr, Inr (unauthorized ''Invalid or expired authentication token''))
          | Inr claims \<Rightarrow> gateway_routes env (Some claims) rq rr)"

text \<open>The access log, without the durations: method, path and status of each request.\<close>

type_synonym access_line = "string \<times> string \<times> int"

definition access_log_dispatch ::
  "gateway_env \<Rightarrow> gw_request \<Rightarrow> cursors \<Rightarrow> cursors \<times> access_line \<times> gw_response result" where
  "access_log_dispatch env rq rr =
     (case jwt_dispatch env rq rr of
        (rr', Inl e) \<Rightarrow> (rr', (rq_method rq, rq_path rq, 500), Inl e)
      | (rr', Inr response) \<Rightarrow> (rr', (rq_method rq, rq_path rq, gr_status response), Inr response))"

text \<open>One request through the whole application: an exception that leaves the middleware reaches
  the global exception handler.\<close>

definition gateway ::
  "(httpx_error \<Rightarrow> string) \<Rightarrow> gateway_env \<Rightarrow> gw_request \<Rightarrow> cursors \<Rightarrow>
   cursors \<times> access_line \<times> gw_response \<times> event list" where
  "gateway httpx_text env rq rr =
     (case access_log_dispatch env rq rr of
        (rr', line, Inr response) \<Rightarrow> (rr', line, response, [])
      | (rr', line, Inl e) \<Rightarrow>
          (case unhandled_exception_handler httpx_text (service_name (ge_settings env)) (rq_path rq) e of
             (r, events) \<Rightarrow>
               (rr', line,
                json_response (status_code (r :: unit http_response)) []
                  (case r of Error_response c (Msg m) \<Rightarrow> [(''detail'', JStr m)] | _ \<Rightarrow> []), events)))"

end
