(* ===== verification/Gateway_Properties.thy ===== *)
theory Gateway_Properties
  imports Api_Gateway
begin

text \<open>
  What the gateway guarantees: which routes are public, that nothing passes without a valid token,
  which identity the services read from the headers it sends, and what each outcome of an upstream
  call becomes.
\<close>

section \<open>Paths and templates\<close>

definition path_segment :: "string \<Rightarrow> bool" where
  "path_segment x \<longleftrightarrow> x \<noteq> [] \<and> CHR ''/'' \<notin> set x"

lemma split_path_not_Nil [simp]: "split_path p \<noteq> []"
  by (induction p) (auto split: list.splits)

lemma split_path_join: "join_with ''/'' (split_path p) = p"
proof (induction p)
  case (Cons c cs)
  obtain s ss where "split_path cs = s # ss" by (cases "split_path cs") auto
  with Cons show ?case by (cases ss) auto
qed simp

lemma split_path_segments: "x \<in> set (split_path p) \<Longrightarrow> CHR ''/'' \<notin> set x"
  by (induction p arbitrary: x) (auto split: list.splits if_splits)

lemma split_path_slash_free: "CHR ''/'' \<notin> set x \<Longrightarrow> split_path x = [x]"
  by (induction x) auto

lemma split_path_slash: "CHR ''/'' \<notin> set x \<Longrightarrow> split_path (x @ CHR ''/'' # p) = x # split_path p"
  by (induction x) auto

lemma split_join_path:
  assumes "xs \<noteq> []" and "\<And>x. x \<in> set xs \<Longrightarrow> CHR ''/'' \<notin> set x"
  shows "split_path (join_with ''/'' xs) = xs"
  using assms
proof (induction xs)
  case (Cons x xs)
  then show ?case by (cases xs) (auto simp: split_path_slash_free split_path_slash)
qed simp

text \<open>The language of a template, without splitting.\<close>

fun fits :: "segment list \<Rightarrow> string \<Rightarrow> bool" where
  "fits [] p \<longleftrightarrow> p = []"
| "fits (Lit s # ts) p \<longleftrightarrow> (\<exists>q. p = ''/'' @ s @ q \<and> fits ts q)"
| "fits (Param n # ts) p \<longleftrightarrow> (\<exists>x q. path_segment x \<and> p = ''/'' @ x @ q \<and> fits ts q)"

definition slash_free :: "segment \<Rightarrow> bool" where
  "slash_free t \<longleftrightarrow> (case t of Lit s \<Rightarrow> CHR ''/'' \<notin> set s | Param n \<Rightarrow> True)"

fun slashed :: "string list \<Rightarrow> string" where
  "slashed [] = []"
| "slashed (x # xs) = ''/'' @ x @ slashed xs"

lemma join_slashed: "join_with ''/'' ([] # segs) = slashed segs"
proof -
  have "join_with ''/'' (x # segs) = x @ slashed segs" for x
    by (induction segs arbitrary: x) auto
  then show ?thesis by simp
qed

definition fills :: "segment list \<Rightarrow> string list \<Rightarrow> bool" where
  "fills ts segs \<longleftrightarrow> list_all2 segment_matches ts segs \<and> (\<forall>x \<in> set segs. CHR ''/'' \<notin> set x)"

lemma fills_simps [simp]:
  "fills [] segs \<longleftrightarrow> segs = []"
  "fills (t # ts) segs \<longleftrightarrow>
     (\<exists>x xs. segs = x # xs \<and> segment_matches t x \<and> CHR ''/'' \<notin> set x \<and> fills ts xs)"
  by (auto simp: fills_def list_all2_Cons1)

lemma fits_iff:
  assumes "list_all slash_free ts"
  shows "fits ts p \<longleftrightarrow> (\<exists>segs. p = slashed segs \<and> fills ts segs)"
  using assms
proof (induction ts arbitrary: p)
  case (Cons t ts)
  then have IH: "\<And>q. fits ts q \<longleftrightarrow> (\<exists>segs. q = slashed segs \<and> fills ts segs)" and t: "slash_free t"
    by simp_all
  have "(\<exists>segs. p = slashed segs \<and> fills (t # ts) segs) \<longleftrightarrow>
      (\<exists>x xs. p = ''/'' @ x @ slashed xs \<and> segment_matches t x \<and> CHR ''/'' \<notin> set x \<and> fills ts xs)" (is "?l \<longleftrightarrow> ?r")
  proof
    assume ?r
    then obtain x xs where "p = slashed (x # xs)" "fills (t # ts) (x # xs)" by auto
    then show ?l by blast
  next
    assume ?l
    then obtain x xs where "p = slashed (x # xs)" "segment_matches t x" "CHR ''/'' \<notin> set x" "fills ts xs"
      by auto
    then show ?r by (intro exI [of _ x] exI [of _ xs]) simp
  qed
  moreover have "fits (t # ts) p \<longleftrightarrow>
      (\<exists>x xs. p = ''/'' @ x @ slashed xs \<and> segment_matches t x \<and> CHR ''/'' \<notin> set x \<and> fills ts xs)"
    using t by (cases t) (auto simp: IH slash_free_def path_segment_def)
  ultimately show ?case by blast
qed simp

lemma template_fits: "list_all slash_free ts \<Longrightarrow> template_matches ts p \<longleftrightarrow> fits ts p"
  unfolding fits_iff
proof
  assume "template_matches ts p"
  then obtain segs where segs: "split_path p = [] # segs" and m: "list_all2 segment_matches ts segs"
    by (auto simp: template_matches_def split: list.splits)
  have "p = slashed segs" using split_path_join [of p] segs join_slashed by simp
  moreover have "fills ts segs"
    using m split_path_segments [of _ p] segs by (simp add: fills_def)
  ultimately show "\<exists>segs. p = slashed segs \<and> fills ts segs" by blast
next
  assume "\<exists>segs. p = slashed segs \<and> fills ts segs"
  then obtain segs where p: "p = slashed segs" and f: "fills ts segs" by blast
  have "split_path p = [] # segs"
    unfolding p join_slashed [symmetric] using f by (intro split_join_path) (auto simp: fills_def)
  with f show "template_matches ts p" by (simp add: template_matches_def fills_def)
qed

text \<open>The public interface as a table of methods, paths and services.\<close>

definition public_route :: "string \<Rightarrow> string \<Rightarrow> string \<Rightarrow> bool" where
  "public_route m p s \<longleftrightarrow>
     m = ''POST'' \<and> p = ''/auth/login'' \<and> s = ''auth-service'' \<or>
     m = ''GET'' \<and> p = ''/employees/me/balances'' \<and> s = ''leave-balance-service'' \<or>
     m = ''GET'' \<and> (\<exists>x. path_segment x \<and> p = ''/employees/'' @ x @ ''/balances'') \<and> s = ''leave-balance-service'' \<or>
     m = ''POST'' \<and> p = ''/leaves'' \<and> s = ''leave-request-service'' \<or>
     m = ''GET'' \<and> p = ''/leaves/history'' \<and> s = ''leave-request-service'' \<or>
     m = ''PATCH'' \<and> (\<exists>x. path_segment x \<and> p = ''/leaves/'' @ x @ ''/cancel'') \<and> s = ''leave-request-service'' \<or>
     m = ''GET'' \<and> p = ''/manager/requests'' \<and> s = ''manager-service'' \<or>
     m = ''POST'' \<and> (\<exists>x. path_segment x \<and> p = ''/manager/requests/'' @ x @ ''/approve'') \<and> s = ''manager-service'' \<or>
     m = ''POST'' \<and> (\<exists>x. path_segment x \<and> p = ''/manager/requests/'' @ x @ ''/reject'') \<and> s = ''manager-service''"

lemmas service_names = AUTH_SERVICE_def BALANCE_SERVICE_def REQUEST_SERVICE_def MANAGER_SERVICE_def

lemma find_agreeing:
  assumes "\<And>x. x \<in> set xs \<Longrightarrow> P x \<Longrightarrow> f x = v"
  shows "map_option f (List.find P xs) = Some s \<longleftrightarrow> (\<exists>x \<in> set xs. P x \<and> f x = s)"
  using assms
proof (induction xs)
  case (Cons x xs)
  then show ?case by (cases "P x") auto
qed simp

lemma fits_shapes:
  "fits [Lit ''auth'', Lit ''login''] p \<longleftrightarrow> p = ''/auth/login''"
  "fits [Lit ''employees'', Lit ''me'', Lit ''balances''] p \<longleftrightarrow> p = ''/employees/me/balances''"
  "fits [Lit ''employees'', Param n, Lit ''balances''] p \<longleftrightarrow>
     (\<exists>x. path_segment x \<and> p = ''/employees/'' @ x @ ''/balances'')"
  "fits [Lit ''leaves''] p \<longleftrightarrow> p = ''/leaves''"
  "fits [Lit ''leaves'', Lit ''history''] p \<longleftrightarrow> p = ''/leaves/history''"
  "fits [Lit ''leaves'', Param n, Lit ''cancel''] p \<longleftrightarrow>
     (\<exists>x. path_segment x \<and> p = ''/leaves/'' @ x @ ''/cancel'')"
  "fits [Lit ''manager'', Lit ''requests''] p \<longleftrightarrow> p = ''/manager/requests''"
  "fits [Lit ''manager'', Lit ''requests'', Param n, Lit ''approve''] p \<longleftrightarrow>
     (\<exists>x. path_segment x \<and> p = ''/manager/requests/'' @ x @ ''/approve'')"
  "fits [Lit ''manager'', Lit ''requests'', Param n, Lit ''reject''] p \<longleftrightarrow>
     (\<exists>x. path_segment x \<and> p = ''/manager/requests/'' @ x @ ''/reject'')"
  by auto

definition service_at :: "string \<Rightarrow> string" where
  "service_at p =
     (if p ! 1 = CHR ''a'' then AUTH_SERVICE else if p ! 1 = CHR ''e'' then BALANCE_SERVICE
      else if p ! 1 = CHR ''l'' then REQUEST_SERVICE else MANAGER_SERVICE)"

lemma slash_free_routes: "r \<in> set ROUTES \<Longrightarrow> list_all slash_free (fst (snd r))"
  by (auto simp: ROUTES_def slash_free_def)

lemma route_service_at:
  "r \<in> set ROUTES \<Longrightarrow> fits (fst (snd r)) p \<Longrightarrow> snd (snd r) = service_at p"
  by (auto simp: ROUTES_def service_at_def)

lemma route_of_ex:
  "route_of m p = Some s \<longleftrightarrow>
     (\<exists>r \<in> set ROUTES. (fst r = m \<and> template_matches (fst (snd r)) p) \<and> snd (snd r) = s)"
  unfolding route_of_def case_prod_beta'
  by (rule find_agreeing [where v = "service_at p"])
    (simp add: route_service_at template_fits slash_free_routes)

lemma route_of_iff: "route_of m p = Some s \<longleftrightarrow> public_route m p s"
proof -
  have "route_of m p = Some s \<longleftrightarrow>
      (\<exists>r \<in> set ROUTES. m = fst r \<and> fits (fst (snd r)) p \<and> s = snd (snd r))"
    unfolding route_of_ex by (auto simp: template_fits slash_free_routes)
  also have "\<dots> \<longleftrightarrow> public_route m p s"
    unfolding ROUTES_def public_route_def service_names
    by (simp only: list.set bex_simps fst_conv snd_conv fits_shapes simp_thms)
  finally show ?thesis .
qed

lemma public_route_public:
  "public_route m p s \<and> p \<in> set PUBLIC_PATHS \<longleftrightarrow> m = ''POST'' \<and> p = ''/auth/login'' \<and> s = ''auth-service''"
  by (auto simp: public_route_def PUBLIC_PATHS_def)

lemma route_static: "route_of m p = Some s \<Longrightarrow> is_ok (gateway_static_base_url s)"
  unfolding route_of_iff public_route_def
  by (auto simp: gateway_static_base_url_def GATEWAY_STATIC_SERVICE_MAP_def dict_get_def)

text \<open>
  C35: the gateway exposes exactly nine routes, each to the service that owns it; nothing under
  \<open>/internal\<close> is among them, login is the only forwarded route among the public paths, and every
  service a route names has a static address to fall back to.
\<close>

theorem public_surface:
  "(route_of m p = Some s) = public_route m p s
   \<and> route_of m (''/internal'' @ q) = None
   \<and> (route_of m p = Some s \<and> p \<in> set PUBLIC_PATHS) =
       (m = ''POST'' \<and> p = ''/auth/login'' \<and> s = ''auth-service'')
   \<and> (case route_of m p of None \<Rightarrow> True | Some s \<Rightarrow> is_ok (gateway_static_base_url s))"
proof (intro conjI)
  have "\<not> public_route m (''/internal'' @ q) s" for s by (auto simp: public_route_def)
  then show "route_of m (''/internal'' @ q) = None"
    using route_of_iff by (metis option.exhaust)
  show "(route_of m p = Some s \<and> p \<in> set PUBLIC_PATHS) =
      (m = ''POST'' \<and> p = ''/auth/login'' \<and> s = ''auth-service'')"
    unfolding route_of_iff by (rule public_route_public)
  show "case route_of m p of None \<Rightarrow> True | Some s \<Rightarrow> is_ok (gateway_static_base_url s)"
    by (auto simp: route_static split: option.split)
qed (rule route_of_iff)

section \<open>Authentication\<close>

text \<open>A bearer token as the standard writes it: the scheme in any case, one space, the token.\<close>

definition presented :: "gateway_env \<Rightarrow> gw_request \<Rightarrow> string \<Rightarrow> bool" where
  "presented env rq token \<longleftrightarrow>
     (\<exists>scheme rest. ge_header env (rq_headers rq) ''Authorization'' = Some (scheme @ '' '' @ rest)
        \<and> str_lower scheme = ''bearer'' \<and> str_strip rest = token \<and> token \<noteq> [])"

definition admits :: "gateway_env \<Rightarrow> gw_request \<Rightarrow> payload option \<Rightarrow> bool" where
  "admits env rq user \<longleftrightarrow>
     (if rq_path rq \<in> set PUBLIC_PATHS then user = None
      else \<exists>token claims. presented env rq token
             \<and> decode_token (ge_jwt env) (ge_settings env) (ge_now env) token = Inr claims
             \<and> user = Some claims)"

lemma bearer_no_space: "str_lower s = ''bearer'' \<Longrightarrow> CHR '' '' \<notin> set s"
proof
  assume s: "str_lower s = ''bearer''" and sp: "CHR '' '' \<in> set s"
  from sp have "lower_char (CHR '' '') \<in> set (str_lower s)" unfolding str_lower_def by simp
  moreover have "lower_char (CHR '' '') = CHR '' ''" by (simp add: lower_char_def)
  ultimately have "CHR '' '' \<in> set ''bearer''" using s by simp
  then show False by simp
qed

lemma presented_partition:
  "presented env rq token \<longleftrightarrow>
     (\<exists>scheme sep rest.
        str_partition (CHR '' '') (case ge_header env (rq_headers rq) ''Authorization'' of None \<Rightarrow> [] | Some h \<Rightarrow> h)
          = (scheme, sep, rest)
        \<and> str_lower scheme = ''bearer'' \<and> str_strip rest = token \<and> token \<noteq> [])" (is "_ \<longleftrightarrow> ?r")
proof
  assume "presented env rq token"
  then obtain scheme rest where "ge_header env (rq_headers rq) ''Authorization'' = Some (scheme @ CHR '' '' # rest)"
    "str_lower scheme = ''bearer''" "str_strip rest = token" "token \<noteq> []"
    unfolding presented_def by auto
  then show ?r by (simp add: str_partition_present bearer_no_space)
next
  assume ?r
  then obtain h scheme sep rest where h: "h = (case ge_header env (rq_headers rq) ''Authorization'' of None \<Rightarrow> [] | Some h \<Rightarrow> h)"
    and p: "str_partition (CHR '' '') h = (scheme, sep, rest)"
    and t: "str_lower scheme = ''bearer''" "str_strip rest = token" "token \<noteq> []" by blast
  have sp: "CHR '' '' \<in> set h"
    using p t(2,3) str_partition_absent [of "CHR '' ''" h] by (auto simp: str_strip_def)
  then obtain xs ys where split: "h = xs @ CHR '' '' # ys" "CHR '' '' \<notin> set xs"
    by (meson split_list_first)
  with p have "h = scheme @ '' '' @ rest" by (simp add: str_partition_present)
  moreover have "ge_header env (rq_headers rq) ''Authorization'' = Some h"
    using h sp by (simp split: option.splits)
  ultimately show "presented env rq token" unfolding presented_def using t by blast
qed

lemma admits_unique: "admits env rq user \<Longrightarrow> admits env rq user' \<Longrightarrow> user = user'"
  by (auto simp: admits_def presented_partition split: if_splits)

lemma admits_dispatch:
  "admits env rq user \<Longrightarrow> jwt_dispatch env rq rr = gateway_routes env user rq rr"
  by (auto simp: admits_def presented_partition jwt_dispatch_def split: if_splits)

lemma not_admitted:
  assumes "\<And>user. \<not> admits env rq user"
  shows "\<exists>d \<in> {''Missing or malformed Authorization header'', ''Invalid or expired authentication token''}.
    \<forall>consul send. jwt_dispatch (env\<lparr>ge_consul := consul, ge_send := send\<rparr>) rq rr = (rr, Inr (unauthorized d))"
proof -
  have pub: "rq_path rq \<notin> set PUBLIC_PATHS" using assms [of None] by (auto simp: admits_def)
  obtain scheme sep rest where p: "str_partition (CHR '' '')
      (case ge_header env (rq_headers rq) ''Authorization'' of None \<Rightarrow> [] | Some h \<Rightarrow> h) = (scheme, sep, rest)"
    using prod_cases3 by blast
  show ?thesis
  proof (cases "str_lower scheme \<noteq> ''bearer'' \<or> str_strip rest = []")
    case True
    with pub p show ?thesis by (simp add: jwt_dispatch_def)
  next
    case False
    with p have "presented env rq (str_strip rest)" by (auto simp: presented_partition)
    with assms pub obtain e where
      "decode_token (ge_jwt env) (ge_settings env) (ge_now env) (str_strip rest) = Inl e"
      unfolding admits_def by (metis sum.exhaust)
    with pub p False show ?thesis by (simp add: jwt_dispatch_def)
  qed
qed

lemma gateway_Inr:
  "jwt_dispatch env rq rr = (rr', Inr response) \<Longrightarrow>
   gateway tx env rq rr = (rr', (rq_method rq, rq_path rq, gr_status response), response, [])"
  by (simp add: gateway_def access_log_dispatch_def)

text \<open>The claims of a token that the request presents and that decodes now.\<close>

definition verified :: "gateway_env \<Rightarrow> gw_request \<Rightarrow> payload \<Rightarrow> bool" where
  "verified env rq claims \<longleftrightarrow>
     (\<exists>token. presented env rq token
        \<and> decode_token (ge_jwt env) (ge_settings env) (ge_now env) token = Inr claims)"

lemma admits_protected: "rq_path rq \<notin> set PUBLIC_PATHS \<Longrightarrow> admits env rq user \<longleftrightarrow> (\<exists>claims. user = Some claims \<and> verified env rq claims)"
  by (auto simp: admits_def verified_def)

lemma public_dispatch: "rq_path rq \<in> set PUBLIC_PATHS \<Longrightarrow> jwt_dispatch env rq rr = gateway_routes env None rq rr"
  by (simp add: jwt_dispatch_def)

lemma unrouted_public:
  assumes "rq_path rq \<in> set PUBLIC_PATHS" and "\<not> (rq_method rq = ''POST'' \<and> rq_path rq = ''/auth/login'')"
  shows "jwt_dispatch (env\<lparr>ge_consul := consul, ge_send := send\<rparr>) rq rr = jwt_dispatch env rq rr"
proof -
  have "route_of (rq_method rq) (rq_path rq) = None"
  proof (rule ccontr)
    assume "route_of (rq_method rq) (rq_path rq) \<noteq> None"
    then obtain service where "public_route (rq_method rq) (rq_path rq) service" by (auto simp: route_of_iff)
    with assms public_route_public show False by blast
  qed
  with assms(1) show ?thesis by (simp add: public_dispatch gateway_routes_def)
qed

text \<open>
  C16: which requests pass the gateway without a token, and what happens to the others. On exactly five
  paths the middleware asks for none, whatever the method: the login path, \<open>/health\<close>, and the three paths of
  the generated documentation. Of these only \<open>POST /auth/login\<close> has a route; all others are answered whatever
  Consul and the services would do. On any other path a request goes on exactly when its \<open>Authorization\<close> header
  presents a token that decodes, with the claims of that token and no others; else it gets a 401 with
  \<open>WWW-Authenticate\<close>, is logged as such, publishes nothing, and reaches neither Consul nor a service.
\<close>

theorem gateway_gate:
  "if rq_path rq \<in> {''/auth/login'', ''/health'', ''/docs'', ''/openapi.json'', ''/redoc''}
   then jwt_dispatch env rq rr = gateway_routes env None rq rr
     \<and> (if rq_method rq = ''POST'' \<and> rq_path rq = ''/auth/login''
        then gateway_routes env None rq rr = forward env None rq ''auth-service'' rr
        else \<forall>consul send. jwt_dispatch (env\<lparr>ge_consul := consul, ge_send := send\<rparr>) rq rr = jwt_dispatch env rq rr)
   else if {claims. verified env rq claims} = {}
   then \<exists>d \<in> {''Missing or malformed Authorization header'', ''Invalid or expired authentication token''}.
     \<forall>consul send. gateway tx (env\<lparr>ge_consul := consul, ge_send := send\<rparr>) rq rr =
       (rr, (rq_method rq, rq_path rq, 401), unauthorized d, [])
   else \<exists>claims. {claims. verified env rq claims} = {claims}
     \<and> jwt_dispatch env rq rr = gateway_routes env (Some claims) rq rr"
proof (cases "rq_path rq \<in> set PUBLIC_PATHS")
  case True
  have "gateway_routes env None rq rr = forward env None rq ''auth-service'' rr"
    if "rq_method rq = ''POST'' \<and> rq_path rq = ''/auth/login''"
  proof -
    have "public_route (rq_method rq) (rq_path rq) ''auth-service''" using that by (simp add: public_route_def)
    then have "route_of (rq_method rq) (rq_path rq) = Some ''auth-service''" by (simp add: route_of_iff)
    then show ?thesis by (simp add: gateway_routes_def)
  qed
  moreover have "rq_path rq \<in> {''/auth/login'', ''/health'', ''/docs'', ''/openapi.json'', ''/redoc''}"
    using True unfolding PUBLIC_PATHS_def by simp
  ultimately show ?thesis using public_dispatch [OF True] unrouted_public [OF True] by (simp only: if_True) metis
next
  case False
  then have path: "rq_path rq \<notin> {''/auth/login'', ''/health'', ''/docs'', ''/openapi.json'', ''/redoc''}"
    unfolding PUBLIC_PATHS_def by simp
  note protected = admits_protected [OF False, of env]
  show ?thesis
  proof (cases "\<exists>claims. verified env rq claims")
    case True
    then obtain claims where claims: "verified env rq claims" by blast
    then have "{claims. verified env rq claims} = {claims}"
      using admits_unique [of env rq "Some claims"] unfolding protected by blast
    moreover have "jwt_dispatch env rq rr = gateway_routes env (Some claims) rq rr"
      using claims by (intro admits_dispatch) (simp add: protected)
    ultimately show ?thesis using path by simp
  next
    case none: False
    then obtain d where
      "d \<in> {''Missing or malformed Authorization header'', ''Invalid or expired authentication token''}"
      "\<forall>consul send. jwt_dispatch (env\<lparr>ge_consul := consul, ge_send := send\<rparr>) rq rr = (rr, Inr (unauthorized d))"
      using not_admitted [of env rq rr] unfolding protected by metis
    with path none show ?thesis by (auto simp: gateway_Inr unauthorized_def json_response_def)
  qed
qed

section \<open>The identity the services read\<close>

text \<open>
  What the framework documents of its header lookup: names compare without case, and of a repeated
  name the first value is taken. The server hands header names over in lower case.
\<close>

definition lower_names :: "headers \<Rightarrow> headers" where
  "lower_names hs = map (\<lambda>(k, v). (str_lower k, v)) hs"

definition header_ok :: "(headers \<Rightarrow> string \<Rightarrow> string option) \<Rightarrow> bool" where
  "header_ok header \<longleftrightarrow> (\<forall>hs name. header hs name = map_of (lower_names hs) (str_lower name))"

definition asgi :: "headers \<Rightarrow> bool" where
  "asgi hs \<longleftrightarrow> lower_names hs = hs"

text \<open>The caller that a service's \<open>get_caller\<close> finds in the headers of a forwarded request.\<close>

definition caller_downstream ::
  "(headers \<Rightarrow> string \<Rightarrow> string option) \<Rightarrow> payload option \<Rightarrow> headers \<Rightarrow> CallerIdentity result" where
  "caller_downstream header user hs =
     (let sent = build_forward_headers user hs
      in get_caller (header sent ''X-User-Id'') (header sent ''X-User-Role''))"

definition injected :: "payload option \<Rightarrow> headers" where
  "injected user =
     (case user of
        None \<Rightarrow> []
      | Some claims \<Rightarrow>
          (if json_truthy (field claims ''sub'') then [(''X-User-Id'', json_str (field claims ''sub''))] else [])
          @ (if json_truthy (field claims ''role'') then [(''X-User-Role'', json_str (field claims ''role''))] else []))"

lemma lower_char_idem [simp]: "lower_char (lower_char c) = lower_char c"
  by (auto simp: lower_char_def Let_def)

lemma option_case_id: "(case x of None \<Rightarrow> None | Some v \<Rightarrow> Some v) = x"
  by (cases x) simp_all

lemma dict_get_append:
  "dict_get (d @ e) k = (case dict_get d k of None \<Rightarrow> dict_get e k | Some v \<Rightarrow> Some v)"
  by (simp add: dict_get_def map_add_def split: option.split)

lemma map_of_rev_filter:
  "map_of (rev (filter (\<lambda>(k, v). Q k) hs)) n = (if Q n then map_of (rev hs) n else None)"
proof -
  have "map_of (filter (\<lambda>(k, v). Q k) xs) n = (if Q n then map_of xs n else None)" for xs
    by (induction xs) auto
  then show ?thesis by (simp only: rev_filter)
qed

lemma merge_filter_get:
  "dict_get (dict_merge [] (filter (\<lambda>(k, v). Q k) hs)) n = (if Q n then map_of (rev hs) n else None)"
  by (simp only: dict_get_merge dict_get_Nil option_case_id map_of_rev_filter)

lemma asgi_keys: "asgi hs \<longleftrightarrow> (\<forall>k \<in> fst ` set hs. str_lower k = k)"
  by (induction hs) (auto simp: asgi_def lower_names_def)

lemma asgi_merge: "asgi d \<Longrightarrow> asgi hs \<Longrightarrow> asgi (dict_merge d hs)"
proof (induction hs arbitrary: d)
  case (Cons kv hs)
  obtain k v where kv: "kv = (k, v)" by (cases kv)
  have "asgi (dict_put d k v)"
    using Cons.prems kv by (auto simp: asgi_keys dict_put_def dom_update)
  with Cons kv show ?case by (simp add: dict_merge_def asgi_def lower_names_def)
qed (simp add: dict_merge_def)

lemma asgi_filter: "asgi hs \<Longrightarrow> asgi (filter P hs)"
  by (auto simp: asgi_keys)

lemma asgi_no_capital: "asgi d \<Longrightarrow> str_lower k \<noteq> k \<Longrightarrow> dict_get d k = None"
  by (auto simp: asgi_keys dict_get_def map_of_eq_None_iff)

lemma lower_names_x_user:
  "str_lower ''X-User-Id'' = ''x-user-id''" "str_lower ''X-User-Role'' = ''x-user-role''"
  by code_simp+

lemma build_forward_headers_eq:
  assumes "asgi hs"
  shows "build_forward_headers user hs =
    dict_merge [] (filter (\<lambda>(k, v). str_lower k \<notin> set HOP_BY_HOP) hs) @ injected user"
proof -
  let ?d = "dict_merge [] (filter (\<lambda>(k, v). str_lower k \<notin> set HOP_BY_HOP) hs)"
  have "asgi ?d" by (intro asgi_merge asgi_filter assms) (simp add: asgi_def lower_names_def)
  then have "dict_get ?d ''X-User-Id'' = None" "dict_get ?d ''X-User-Role'' = None"
    using asgi_no_capital [of ?d] by (simp_all add: lower_names_x_user del: dict_get_merge)
  moreover have "dict_get [(''X-User-Id'', v)] ''X-User-Role'' = None" for v :: string
    by (simp add: dict_get_def)
  ultimately show ?thesis
    by (cases user) (auto simp: build_forward_headers_def injected_def put_claim_def Let_def dict_put_new
        dict_get_append field_def simp del: dict_get_merge)
qed

lemma forwarded_header:
  assumes "header_ok header" and "asgi hs"
  shows "header (build_forward_headers user hs) name =
    (case if str_lower name \<in> set HOP_BY_HOP then None else map_of (rev hs) (str_lower name) of
       Some v \<Rightarrow> Some v
     | None \<Rightarrow> map_of (lower_names (injected user)) (str_lower name))"
proof -
  let ?d = "dict_merge [] (filter (\<lambda>(k, v). str_lower k \<notin> set HOP_BY_HOP) hs)"
  have "asgi ?d" by (intro asgi_merge asgi_filter assms) (simp add: asgi_def lower_names_def)
  then have d: "lower_names ?d = ?d" by (simp add: asgi_def)
  have "map_of ?d n = (if str_lower n \<in> set HOP_BY_HOP then None else map_of (rev hs) n)" for n
    unfolding dict_get_def [symmetric] merge_filter_get [of "\<lambda>k. str_lower k \<notin> set HOP_BY_HOP"] by simp
  moreover have "lower_names (xs @ ys) = lower_names xs @ lower_names ys" for xs ys
    by (simp add: lower_names_def)
  moreover have "str_lower (str_lower name) = str_lower name"
    by (simp add: str_lower_def lower_char_idem)
  ultimately show ?thesis
    using assms(1) unfolding header_ok_def build_forward_headers_eq [OF assms(2)]
    by (simp add: d map_add_def split: option.split)
qed

text \<open>A client that sends neither of the two identity headers.\<close>

definition no_identity_headers :: "headers \<Rightarrow> bool" where
  "no_identity_headers hs \<longleftrightarrow> map_of (rev hs) ''x-user-id'' = None \<and> map_of (rev hs) ''x-user-role'' = None"

lemma caller_downstream_eq:
  assumes "header_ok header" and "asgi hs"
  shows "caller_downstream header user hs = get_caller
    (case map_of (rev hs) ''x-user-id'' of Some v \<Rightarrow> Some v
     | None \<Rightarrow> map_of (lower_names (injected user)) ''x-user-id'')
    (case map_of (rev hs) ''x-user-role'' of Some v \<Rightarrow> Some v
     | None \<Rightarrow> map_of (lower_names (injected user)) ''x-user-role'')"
  by (simp only: caller_downstream_def Let_def forwarded_header [OF assms] lower_names_x_user)
    (simp add: HOP_BY_HOP_def)

lemma injected_token:
  assumes "u \<noteq> []"
  shows "map_of (lower_names (injected (Some (token_claims cfg t u r)))) ''x-user-id'' = Some u"
    and "map_of (lower_names (injected (Some (token_claims cfg t u r)))) ''x-user-role'' = Some (Role_value r)"
  using assms
  by (cases r; simp add: injected_def field_def lower_names_def lower_names_x_user)+

text \<open>
  The identity of a token arrives at the services. A request to a protected route that presents,
  under any spelling of the scheme, a token issued for a user id and a role, and that carries no
  identity headers of its own, is forwarded to the route's service with headers in which
  \<open>get_caller\<close> reads that id and role; from the second after the token's expiry it is a 401.
\<close>

lemma token_identity_arrives:
  assumes "header_ok (ge_header env)" and "asgi (rq_headers rq)" and "jwt_ok (ge_jwt env)"
    and "no_identity_headers (rq_headers rq)" and "user_id \<noteq> []"
    and "public_route (rq_method rq) (rq_path rq) service" and "service \<noteq> ''auth-service''"
    and "ge_header env (rq_headers rq) ''Authorization'' = Some (scheme @ '' '' @
           create_access_token (ge_jwt env) (ge_settings env) issued user_id role)"
    and "str_lower scheme = ''bearer''"
  shows "if ge_now env \<le> issued + 60 * jwt_expiration_minutes (ge_settings env)
    then \<exists>claims. jwt_dispatch env rq rr = forward env (Some claims) rq service rr
      \<and> caller_downstream (ge_header env) (Some claims) (rq_headers rq)
          = Inr \<lparr>ci_user_id = user_id, ci_role = role\<rparr>
    else jwt_dispatch env rq rr = (rr, Inr (unauthorized ''Invalid or expired authentication token''))"
proof -
  let ?cfg = "ge_settings env"
  let ?token = "create_access_token (ge_jwt env) ?cfg issued user_id role"
  have protected: "rq_path rq \<notin> set PUBLIC_PATHS"
    using assms(6,7) public_route_public by metis
  have token: "?token \<noteq> []" "\<forall>c \<in> set ?token. \<not> is_space c"
    using assms(3) unfolding jwt_ok_def create_access_token_def by blast+
  then have "str_strip ?token = ?token"
    by (intro str_strip_no_space) simp_all
  note token = token(1) this
  have split: "str_partition (CHR '' '') (scheme @ CHR '' '' # ?token) = (scheme, '' '', ?token)"
    using str_partition_present bearer_no_space [OF assms(9)] by blast
  note decode = decode_created [OF assms(3), of ?cfg "ge_now env" issued user_id role]
  show ?thesis
  proof (cases "ge_now env \<le> issued + 60 * jwt_expiration_minutes ?cfg")
    case False
    with protected token split decode assms(8,9) show ?thesis by (simp add: jwt_dispatch_def)
  next
    case True
    let ?claims = "token_claims ?cfg issued user_id role"
    have "jwt_dispatch env rq rr = forward env (Some ?claims) rq service rr"
      using True protected token split decode assms(6,8,9)
      by (simp add: jwt_dispatch_def gateway_routes_def route_of_iff [symmetric])
    moreover have "caller_downstream (ge_header env) (Some ?claims) (rq_headers rq)
        = Inr \<lparr>ci_user_id = user_id, ci_role = role\<rparr>"
      using assms(4) unfolding caller_downstream_eq [OF assms(1,2)] no_identity_headers_def
      by (simp only: option.case injected_token [OF assms(5)]) (simp add: get_caller_ok_iff assms(5))
    ultimately show ?thesis using True by auto
  qed
qed

text \<open>
  But identity headers that a client sends itself win. The gateway stores the verified identity
  under capitalised names beside the client's lower-case ones instead of replacing them, so whatever
  token admitted the request, and also without one on the public login route, the route's service is
  called with headers in which \<open>get_caller\<close> reads the id and role the client wrote; with the manager
  role the manager guard lets it through.
\<close>

lemma client_headers_override_identity:
  assumes "header_ok (ge_header env)" and "asgi (rq_headers rq)" and "admits env rq user"
    and "public_route (rq_method rq) (rq_path rq) service"
    and "map_of (rev (rq_headers rq)) ''x-user-id'' = Some chosen" and "chosen \<noteq> []"
    and "map_of (rev (rq_headers rq)) ''x-user-role'' = Some (Role_value role)"
  shows "jwt_dispatch env rq rr = forward env user rq service rr
    \<and> caller_downstream (ge_header env) user (rq_headers rq) = Inr \<lparr>ci_user_id = chosen, ci_role = role\<rparr>
    \<and> is_ok (require_manager (caller_downstream (ge_header env) user (rq_headers rq))) = (role = MANAGER)"
proof -
  have "caller_downstream (ge_header env) user (rq_headers rq) = Inr \<lparr>ci_user_id = chosen, ci_role = role\<rparr>"
    unfolding caller_downstream_eq [OF assms(1,2)] assms(5,7)
    by (simp add: get_caller_ok_iff assms(6))
  moreover have "jwt_dispatch env rq rr = forward env user rq service rr"
    using admits_dispatch [OF assms(3)] assms(4) by (simp add: gateway_routes_def route_of_iff [symmetric])
  ultimately show ?thesis by (simp add: require_manager_def)
qed

section \<open>Outcomes of forwarding\<close>

text \<open>The address a forwarded request goes to, given the instances that Consul reports.\<close>

definition target :: "string list \<Rightarrow> string \<Rightarrow> cursors \<Rightarrow> string" where
  "target instances service rr =
     (if instances = [] then (case gateway_static_base_url service of Inr url \<Rightarrow> url | Inl e \<Rightarrow> [])
      else instances ! cursor_at rr service instances)"

lemma admits_forward:
  assumes "admits env rq user" and "public_route (rq_method rq) (rq_path rq) service"
  shows "jwt_dispatch env rq rr = forward env user rq service rr"
  using admits_dispatch [OF assms(1)] assms(2) by (simp add: gateway_routes_def route_of_iff [symmetric])

lemma forward_eq:
  assumes "gateway_query_consul (ge_consul env service) = Inr instances"
    and "is_ok (gateway_static_base_url service)"
  shows "snd (forward env user rq service rr) =
    (case ge_send env (outgoing (target instances service rr) user rq) of
       Inl (HTTPXError TimeoutException) \<Rightarrow> Inr (upstream_error 504 service '' timed out'')
     | Inl (HTTPXError ConnectError) \<Rightarrow> Inr (upstream_error 503 service '' is unavailable'')
     | Inl e \<Rightarrow> Inl e
     | Inr downstream \<Rightarrow> Inr (build_response (ge_header env) downstream))"
proof -
  have "snd (gateway_resolve (ge_consul env service) service rr) = Inr (target instances service rr)"
    using assms by (auto simp: gateway_resolve_def target_def cursor_at_def is_ok_iff Let_def)
  then show ?thesis
    by (cases "gateway_resolve (ge_consul env service) service rr") (simp add: forward_def)
qed

text \<open>Neither the lookup at Consul nor the HTTP client raises the framework's \<open>HTTPException\<close>.\<close>

definition no_http_exception :: "'a result \<Rightarrow> bool" where
  "no_http_exception r \<longleftrightarrow> (case r of Inl (HTTPException c d) \<Rightarrow> False | _ \<Rightarrow> True)"

definition clients_ok :: "gateway_env \<Rightarrow> bool" where
  "clients_ok env \<longleftrightarrow> (\<forall>service. no_http_exception (ge_consul env service))
     \<and> (\<forall>sent. no_http_exception (ge_send env sent))"

lemma no_http_exception_simps [simp]:
  "no_http_exception (Inr a)" "\<not> no_http_exception (Inl (HTTPException c d))"
  "no_http_exception (Inl (TypeError m))" "no_http_exception (Inl (AttributeError m))"
  by (simp_all add: no_http_exception_def)

lemma no_http_exception_and_then:
  "no_http_exception r \<Longrightarrow> (\<And>a. no_http_exception (f a)) \<Longrightarrow> no_http_exception (and_then r f)"
  by (cases r) (simp_all add: no_http_exception_def)

lemma json_get_no_http_exception [simp]: "no_http_exception (json_get j k d)"
  by (cases j) (simp_all add: json_get_def)

lemma entry_url_no_http_exception [simp]: "no_http_exception (entry_url entry)"
  by (simp add: entry_url_def no_http_exception_and_then)

lemma all_urls_no_http_exception [simp]: "no_http_exception (all_urls entries)"
  by (induction entries) (simp_all add: no_http_exception_and_then)

lemma query_no_http_exception:
  "no_http_exception reply \<Longrightarrow> no_http_exception (gateway_query_consul reply)"
  by (auto simp: gateway_query_consul_def no_http_exception_and_then json_items_def
      split: sum.split exn.split json.split)
    (simp_all add: no_http_exception_def)

lemma gateway_Inl:
  assumes "jwt_dispatch env rq rr = (rr', Inl e)" and "no_http_exception (Inl e :: gw_response result)"
  shows "\<exists>response events. gateway tx env rq rr = (rr', (rq_method rq, rq_path rq, 500), response, events)
    \<and> gr_status response = 500 \<and> map fst events = [SYSTEM_ERROR]"
  using assms by (cases e)
    (simp_all add: gateway_def access_log_dispatch_def unhandled_exception_handler_def json_response_def)

lemma gateway_resolve_Inl:
  "gateway_query_consul reply = Inl e \<Longrightarrow> gateway_resolve reply service rr = (rr, Inl e)"
  by (simp add: gateway_resolve_def)

text \<open>The outcome of a request whose address is known, in terms of the one upstream call.\<close>

lemma gateway_forwarded:
  assumes "admits env rq user" and "public_route (rq_method rq) (rq_path rq) service" and "clients_ok env"
    and "gateway_query_consul (ge_consul env service) = Inr instances"
  shows "let sent = outgoing (target instances service rr) user rq in
    case gateway tx env rq rr of (rr', line, response, events) \<Rightarrow>
      line = (rq_method rq, rq_path rq, gr_status response) \<and>
      (case ge_send env sent of
          Inr reply \<Rightarrow> gr_status response = ws_status reply
            \<and> gr_content response = Relayed (ws_content reply) \<and> events = []
        | Inl (HTTPXError TimeoutException) \<Rightarrow> response = upstream_error 504 service '' timed out'' \<and> events = []
        | Inl (HTTPXError ConnectError) \<Rightarrow> response = upstream_error 503 service '' is unavailable'' \<and> events = []
        | Inl e \<Rightarrow> gr_status response = 500 \<and> map fst events = [SYSTEM_ERROR])"
proof -
  let ?sent = "outgoing (target instances service rr) user rq"
  obtain rr' where rr': "jwt_dispatch env rq rr = (rr', snd (forward env user rq service rr))"
    using admits_forward [OF assms(1,2)] by (cases "forward env user rq service rr") auto
  note outcome = forward_eq [OF assms(4) route_static [OF assms(2) [folded route_of_iff]], of user rq rr]
  have send: "no_http_exception (ge_send env ?sent)" using assms(3) by (simp add: clients_ok_def)
  show ?thesis
  proof (cases "snd (forward env user rq service rr)")
    case (Inr response)
    from gateway_Inr [OF rr' [unfolded Inr], of tx] outcome [unfolded Inr] show ?thesis
      by (auto simp: build_response_def split: sum.splits exn.splits httpx_error.splits)
  next
    case (Inl e)
    with outcome have sent: "ge_send env ?sent = Inl e"
      and other: "e \<noteq> HTTPXError TimeoutException" "e \<noteq> HTTPXError ConnectError"
      by (auto split: sum.splits exn.splits httpx_error.splits)
    from send sent have "no_http_exception (Inl e :: gw_response result)"
      by (simp add: no_http_exception_def split: exn.splits)
    from gateway_Inl [OF rr' [unfolded Inl] this, of tx] sent other show ?thesis
      by (auto split: exn.split httpx_error.split)
  qed
qed

text \<open>
  C25: what an admitted request to one of the routes comes back as. If Consul's answer can be read (also
  as unreachable), one upstream call goes to the address chosen, never to an unknown one, with method,
  path and body as they came; a reply is relayed with its status and body, a timeout is a 504, any
  other transport failure a 503, and the log line has the status of the response; any other exception,
  and an answer of Consul of an unexpected shape, is a 500 that publishes one \<open>SYSTEM_ERROR\<close> event.
\<close>

theorem upstream_outcomes:
  assumes "admits env rq user" and "public_route (rq_method rq) (rq_path rq) service" and "clients_ok env"
  shows "case gateway tx env rq rr of (rr', line, response, events) \<Rightarrow>
    line = (rq_method rq, rq_path rq, gr_status response) \<and>
    (case gateway_query_consul (ge_consul env service) of
       Inl e \<Rightarrow> gr_status response = 500 \<and> map fst events = [SYSTEM_ERROR] \<and> rr' = rr
     | Inr instances \<Rightarrow>
         \<exists>sent. wr_method sent = rq_method rq \<and> wr_url sent = target instances service rr @ rq_path rq
           \<and> wr_body sent = rq_body rq
           \<and> (case ge_send env sent of
                Inr reply \<Rightarrow> gr_status response = ws_status reply
                  \<and> gr_content response = Relayed (ws_content reply) \<and> events = []
              | Inl (HTTPXError TimeoutException) \<Rightarrow> response = upstream_error 504 service '' timed out'' \<and> events = []
              | Inl (HTTPXError ConnectError) \<Rightarrow> response = upstream_error 503 service '' is unavailable'' \<and> events = []
              | Inl e \<Rightarrow> gr_status response = 500 \<and> map fst events = [SYSTEM_ERROR]))"
proof (cases "gateway_query_consul (ge_consul env service)")
  case (Inl e)
  have "no_http_exception (Inl e :: string list result)"
    using query_no_http_exception [of "ge_consul env service"] assms(3) Inl by (simp add: clients_ok_def)
  then have e: "no_http_exception (Inl e :: gw_response result)"
    by (simp add: no_http_exception_def split: exn.splits)
  have "jwt_dispatch env rq rr = (rr, Inl e)"
    using admits_forward [OF assms(1,2)] gateway_resolve_Inl [OF Inl] by (simp add: forward_def)
  from gateway_Inl [OF this e, of tx] Inl show ?thesis by auto
next
  case (Inr instances)
  let ?sent = "outgoing (target instances service rr) user rq"
  have "case gateway tx env rq rr of (rr', line, response, events) \<Rightarrow>
    line = (rq_method rq, rq_path rq, gr_status response) \<and>
    (\<exists>sent. wr_method sent = rq_method rq \<and> wr_url sent = target instances service rr @ rq_path rq
       \<and> wr_body sent = rq_body rq
       \<and> (case ge_send env sent of
            Inr reply \<Rightarrow> gr_status response = ws_status reply
              \<and> gr_content response = Relayed (ws_content reply) \<and> events = []
          | Inl (HTTPXError TimeoutException) \<Rightarrow> response = upstream_error 504 service '' timed out'' \<and> events = []
          | Inl (HTTPXError ConnectError) \<Rightarrow> response = upstream_error 503 service '' is unavailable'' \<and> events = []
          | Inl e \<Rightarrow> gr_status response = 500 \<and> map fst events = [SYSTEM_ERROR]))"
    using gateway_forwarded [OF assms Inr, of rr tx] unfolding case_prod_beta' Let_def
    by (elim conjE, intro conjI exI [of _ ?sent]) (simp_all add: outgoing_def)
  with Inr show ?thesis by simp
qed

text \<open>
  The headers of a relayed response: every field of the service's reply keeps its (last) value,
  except for the ten hop-by-hop fields and \<open>content-encoding\<close>, which are dropped in any spelling; the
  same ten, and no others, are dropped from a request of a client that did not authenticate.
\<close>

lemma headers_relayed:
  "dict_get (gr_headers (build_response header reply)) name =
     (if str_lower name \<in> insert ''content-encoding'' (set HOP_BY_HOP) then None
      else map_of (rev (ws_headers reply)) name)
   \<and> dict_get (build_forward_headers None hs) name =
     (if str_lower name \<in> set HOP_BY_HOP then None else map_of (rev hs) name)
   \<and> wf_dict (gr_headers (build_response header reply)) \<and> wf_dict (build_forward_headers user hs)"
proof (intro conjI)
  show "dict_get (gr_headers (build_response header reply)) name =
      (if str_lower name \<in> insert ''content-encoding'' (set HOP_BY_HOP) then None
       else map_of (rev (ws_headers reply)) name)"
    by (simp only: build_response_def gw_response.simps merge_filter_get
        [of "\<lambda>k. str_lower k \<notin> set HOP_BY_HOP \<and> str_lower k \<noteq> ''content-encoding''"]) auto
  show "dict_get (build_forward_headers None hs) name =
      (if str_lower name \<in> set HOP_BY_HOP then None else map_of (rev hs) name)"
    by (simp only: build_forward_headers_def Let_def option.case merge_filter_get
        [of "\<lambda>k. str_lower k \<notin> set HOP_BY_HOP"]) auto
  show "wf_dict (gr_headers (build_response header reply))" "wf_dict (build_forward_headers user hs)"
    by (auto simp: build_response_def build_forward_headers_def put_claim_def Let_def split: option.split)
qed

end
