(* ===== verification/Service_Startup.thy ===== *)
theory Service_Startup
  imports Service_Discovery Config
begin

text \<open>
  The lifespans of the six services (\<open>*/main.py\<close>): what each does before it serves and when it stops,
  in order, and what that does to Consul's registry and to the resources of the process. Also the
  answers of their health routes, which the registered check reads.
\<close>

section \<open>Steps\<close>

datatype lifespan_step =
    InitTracing
  | InstrumentHttpx
  | RegisterService
  | SeedStore
  | OpenHttpClient
  | StartConsumer
  | CloseHttpClient
  | StopConsumer
  | DeregisterService

text \<open>A service: its name, what runs before the \<open>yield\<close>, and the \<open>finally\<close> block.\<close>

record lifespan =
  ls_service :: string
  ls_startup :: "lifespan_step list"
  ls_shutdown :: "lifespan_step list"

definition gateway_lifespan :: lifespan where
  "gateway_lifespan =
     \<lparr>ls_service = ''api-gateway'',
      ls_startup = [InitTracing, InstrumentHttpx, RegisterService, OpenHttpClient],
      ls_shutdown = [CloseHttpClient, DeregisterService]\<rparr>"

definition auth_lifespan :: lifespan where
  "auth_lifespan =
     \<lparr>ls_service = ''auth-service'',
      ls_startup = [InitTracing, RegisterService, SeedStore],
      ls_shutdown = [DeregisterService]\<rparr>"

definition balance_lifespan :: lifespan where
  "balance_lifespan =
     \<lparr>ls_service = ''leave-balance-service'',
      ls_startup = [InitTracing, RegisterService, SeedStore],
      ls_shutdown = [DeregisterService]\<rparr>"

definition request_lifespan :: lifespan where
  "request_lifespan =
     \<lparr>ls_service = ''leave-request-service'',
      ls_startup = [InitTracing, InstrumentHttpx, RegisterService, OpenHttpClient],
      ls_shutdown = [CloseHttpClient, DeregisterService]\<rparr>"

definition manager_lifespan :: lifespan where
  "manager_lifespan =
     \<lparr>ls_service = ''manager-service'',
      ls_startup = [InitTracing, InstrumentHttpx, RegisterService, OpenHttpClient],
      ls_shutdown = [CloseHttpClient, DeregisterService]\<rparr>"

definition notification_lifespan :: lifespan where
  "notification_lifespan =
     \<lparr>ls_service = ''notification-service'',
      ls_startup = [InitTracing, RegisterService, StartConsumer],
      ls_shutdown = [StopConsumer, DeregisterService]\<rparr>"

definition LIFESPANS :: "lifespan list" where
  "LIFESPANS = [gateway_lifespan, auth_lifespan, balance_lifespan, request_lifespan, manager_lifespan,
     notification_lifespan]"

definition health_answer :: "lifespan \<Rightarrow> payload" where
  "health_answer ls = [(''status'', JStr ''healthy''), (''service'', JStr (ls_service ls))]"

section \<open>Running them\<close>

text \<open>The process and the registry of its Consul agent: the registered payload under its id.\<close>

record process =
  pr_registry :: "(string, payload) dict"
  pr_client_open :: bool
  pr_consuming :: bool
  pr_seeded :: bool

text \<open>Consul as the two calls of the agent API that are used, when it can be reached.\<close>

definition agent_put :: "(string, payload) dict \<Rightarrow> payload \<Rightarrow> (string, payload) dict" where
  "agent_put registry body =
     (case dict_get body ''ID'' of Some (JStr i) \<Rightarrow> dict_put registry i body | _ \<Rightarrow> registry)"

definition do_step :: "bool \<Rightarrow> Settings \<Rightarrow> lifespan_step \<Rightarrow> process \<Rightarrow> process" where
  "do_step consul_up cfg st p =
     (case st of
        RegisterService \<Rightarrow>
          if consul_up then p\<lparr>pr_registry := agent_put (pr_registry p)
            (register_payload (service_name cfg) (service_host cfg) (service_port cfg))\<rparr>
          else p
      | DeregisterService \<Rightarrow>
          if consul_up then p\<lparr>pr_registry := dict_del (pr_registry p)
            (service_id (service_name cfg) (service_host cfg) (service_port cfg))\<rparr>
          else p
      | SeedStore \<Rightarrow> p\<lparr>pr_seeded := True\<rparr>
      | OpenHttpClient \<Rightarrow> p\<lparr>pr_client_open := True\<rparr>
      | CloseHttpClient \<Rightarrow> p\<lparr>pr_client_open := False\<rparr>
      | StartConsumer \<Rightarrow> p\<lparr>pr_consuming := True\<rparr>
      | StopConsumer \<Rightarrow> p\<lparr>pr_consuming := False\<rparr>
      | InitTracing \<Rightarrow> p
      | InstrumentHttpx \<Rightarrow> p)"

text \<open>Steps in order until one raises; the flag says whether all were carried out.\<close>

fun run_steps :: "bool \<Rightarrow> Settings \<Rightarrow> (lifespan_step \<Rightarrow> bool) \<Rightarrow> lifespan_step list \<Rightarrow> process \<Rightarrow> process \<times> bool" where
  "run_steps consul_up cfg raises [] p = (p, True)"
| "run_steps consul_up cfg raises (st # sts) p =
     (if raises st then (p, False) else run_steps consul_up cfg raises sts (do_step consul_up cfg st p))"

text \<open>
  The process while it serves, and at its end. When the startup raises, the process ends there: the
  \<open>finally\<close> block belongs to the \<open>yield\<close> and is not run.
\<close>

definition run_lifespan ::
  "bool \<Rightarrow> Settings \<Rightarrow> (lifespan_step \<Rightarrow> bool) \<Rightarrow> lifespan \<Rightarrow> process \<Rightarrow> process option \<times> process" where
  "run_lifespan consul_up cfg raises ls p =
     (case run_steps consul_up cfg raises (ls_startup ls) p of
        (p1, False) \<Rightarrow> (None, p1)
      | (p1, True) \<Rightarrow> (Some p1, fst (run_steps consul_up cfg raises (ls_shutdown ls) p1)))"

section \<open>Properties\<close>

definition own_id :: "Settings \<Rightarrow> string" where
  "own_id cfg = service_id (service_name cfg) (service_host cfg) (service_port cfg)"

definition own_payload :: "Settings \<Rightarrow> payload" where
  "own_payload cfg = register_payload (service_name cfg) (service_host cfg) (service_port cfg)"

lemma do_step_simps [simp]:
  "do_step c cfg InitTracing p = p" "do_step c cfg InstrumentHttpx p = p"
  "do_step c cfg SeedStore p = p\<lparr>pr_seeded := True\<rparr>"
  "do_step c cfg OpenHttpClient p = p\<lparr>pr_client_open := True\<rparr>"
  "do_step c cfg CloseHttpClient p = p\<lparr>pr_client_open := False\<rparr>"
  "do_step c cfg StartConsumer p = p\<lparr>pr_consuming := True\<rparr>"
  "do_step c cfg StopConsumer p = p\<lparr>pr_consuming := False\<rparr>"
  "do_step False cfg RegisterService p = p" "do_step False cfg DeregisterService p = p"
  "do_step True cfg RegisterService p = p\<lparr>pr_registry := dict_put (pr_registry p) (own_id cfg) (own_payload cfg)\<rparr>"
  "do_step True cfg DeregisterService p = p\<lparr>pr_registry := dict_del (pr_registry p) (own_id cfg)\<rparr>"
  by (simp_all add: do_step_def own_id_def own_payload_def agent_put_def register_payload_def dict_get_def)

lemmas lifespan_defs = LIFESPANS_def gateway_lifespan_def auth_lifespan_def balance_lifespan_def
  request_lifespan_def manager_lifespan_def notification_lifespan_def

text \<open>
  C39: the lifespans are balanced. Whichever of the six services runs, when none of its steps raises
  it is registered under its own id exactly while it serves (if Consul is up), its client is closed
  and its consumer stopped at the end, and the registry is what it was before; with Consul down
  nothing is registered and the service serves all the same. If a step after the registration raises
  during the startup, the service ends without serving and its entry stays behind in the registry.
\<close>

theorem lifespans_balanced:
  assumes "ls \<in> set LIFESPANS" and "dict_get (pr_registry p) (own_id cfg) = None"
    and "\<not> pr_client_open p" and "\<not> pr_consuming p"
  shows "(\<exists>serving. run_lifespan consul_up cfg (\<lambda>_. False) ls p = (Some serving, p\<lparr>pr_seeded := pr_seeded serving\<rparr>)
        \<and> dict_get (pr_registry serving) (own_id cfg) = (if consul_up then Some (own_payload cfg) else None)
        \<and> pr_client_open serving = (OpenHttpClient \<in> set (ls_startup ls))
        \<and> pr_consuming serving = (ls = notification_lifespan))
    \<and> (let (serving, ended) = run_lifespan True cfg (\<lambda>st. st = last (ls_startup ls)) ls p
       in serving = None \<and> dict_get (pr_registry ended) (own_id cfg) = Some (own_payload cfg))"
proof -
  have kept: "p\<lparr>pr_registry := pr_registry p\<rparr> = p" "p\<lparr>pr_client_open := False\<rparr> = p" "p\<lparr>pr_consuming := False\<rparr> = p"
    "p\<lparr>pr_seeded := pr_seeded p\<rparr> = p"
    using assms(3,4) by simp_all
  from assms(1) consider "ls \<in> {gateway_lifespan, request_lifespan, manager_lifespan}"
    | "ls \<in> {auth_lifespan, balance_lifespan}" | "ls = notification_lifespan"
    by (auto simp: LIFESPANS_def)
  then show ?thesis using assms(2-4) kept
    by cases (cases consul_up; auto simp: lifespan_defs run_lifespan_def del_put_absent)+
qed

end
