(* ===== verification/Service_Logging.thy ===== *)
theory Service_Logging
  imports Py_Json Py_Date
begin

text \<open>
  Structured logging (\<open>shared/logging_config.py\<close>): the fields that the JSON formatter adds to a line,
  and what \<open>configure_logging\<close> does to the process-wide logging state: the handlers of the root and of
  the server's loggers, the level, and the record factory that stamps the service name.
\<close>

section \<open>Records and the formatter\<close>

text \<open>A log record: the attributes the formatter reads; \<open>service\<close> may be missing.\<close>

record LogRecord =
  rec_created :: datetime
  rec_levelname :: string
  rec_name :: string
  rec_service :: "string option"
  rec_exc_type :: "string option"

text \<open>\<open>isoformat(timespec="milliseconds")\<close> of a UTC time, with the offset replaced by \<open>Z\<close>.\<close>

definition iso_millis_utc :: "datetime \<Rightarrow> string" where
  "iso_millis_utc t =
     isoformat (dt_date t) @ ''T'' @ zero_pad 2 (str_of_nat (dt_hour t)) @ '':''
       @ zero_pad 2 (str_of_nat (dt_minute t)) @ '':'' @ zero_pad 2 (str_of_nat (dt_second t))
       @ ''.'' @ zero_pad 3 (str_of_nat (dt_microsecond t div 1000)) @ ''Z''"

text \<open>\<open>log_record\<close> comes with whatever the library's \<open>add_fields\<close> has put into it.\<close>

definition put_if_present :: "string \<Rightarrow> string option \<Rightarrow> payload \<Rightarrow> payload" where
  "put_if_present k v p = (case v of None \<Rightarrow> p | Some t \<Rightarrow> dict_put p k (JStr t))"

definition add_fields :: "payload \<Rightarrow> LogRecord \<Rightarrow> payload" where
  "add_fields log_record r =
     put_if_present ''exception_type'' (rec_exc_type r)
       (put_if_present ''service'' (rec_service r)
         (dict_put
           (dict_put (dict_put log_record ''timestamp'' (JStr (iso_millis_utc (rec_created r))))
             ''level'' (JStr (rec_levelname r)))
           ''logger'' (JStr (rec_name r))))"

section \<open>Configuration\<close>

datatype handler = JsonHandler | OtherHandler string

text \<open>The record factory: the library's, or one that wraps another for a service.\<close>

datatype factory = DefaultFactory | ServiceFactory factory string

fun make_record :: "factory \<Rightarrow> LogRecord \<Rightarrow> LogRecord" where
  "make_record DefaultFactory r = r"
| "make_record (ServiceFactory old service) r =
     (let r' = make_record old r
      in if rec_service r' = None then r'\<lparr>rec_service := Some service\<rparr> else r')"

record logger_state =
  lg_handlers :: "handler list"
  lg_propagate :: bool

record logging_state =
  root_handlers :: "handler list"
  root_level :: int
  record_factory :: factory
  loggers :: "(string, logger_state) dict"

definition NOISY :: "string list" where
  "NOISY = [''uvicorn'', ''uvicorn.error'', ''uvicorn.access'']"

definition configure_logging :: "string \<Rightarrow> int \<Rightarrow> logging_state \<Rightarrow> logging_state" where
  "configure_logging service level st =
     (let emptied = fold remove1 (root_handlers st) (root_handlers st)
      in st\<lparr>root_handlers := emptied @ [JsonHandler], root_level := level,
            record_factory := ServiceFactory (record_factory st) service,
            loggers := fold (\<lambda>name d. dict_put d name \<lparr>lg_handlers = [], lg_propagate = True\<rparr>)
              NOISY (loggers st)\<rparr>)"

text \<open>
  The handlers that a record of a logger reaches, walking from the logger through its ancestors (the
  given chain of names) to the root for as long as each propagates; an unknown logger has no handlers.
\<close>

fun reached :: "logging_state \<Rightarrow> string list \<Rightarrow> handler list" where
  "reached st [] = root_handlers st"
| "reached st (name # ancestors) =
     (case dict_get (loggers st) name of
        None \<Rightarrow> reached st ancestors
      | Some l \<Rightarrow> lg_handlers l @ (if lg_propagate l then reached st ancestors else []))"

section \<open>Properties\<close>

lemma fold_remove_all: "fold remove1 xs xs = []"
proof -
  have "fold remove1 xs (xs @ ys) = ys" for ys
    by (induction xs arbitrary: ys) simp_all
  from this [of "[]"] show ?thesis by simp
qed

fun configure_all :: "(string \<times> int) list \<Rightarrow> logging_state \<Rightarrow> logging_state" where
  "configure_all [] st = st"
| "configure_all ((service, level) # calls) st = configure_all calls (configure_logging service level st)"

lemma configure_logging_fields:
  "root_handlers (configure_logging s l st) = [JsonHandler]" "root_level (configure_logging s l st) = l"
  "record_factory (configure_logging s l st) = ServiceFactory (record_factory st) s"
  "name \<in> set NOISY \<Longrightarrow>
     dict_get (loggers (configure_logging s l st)) name = Some \<lparr>lg_handlers = [], lg_propagate = True\<rparr>"
  by (auto simp: configure_logging_def Let_def fold_remove_all NOISY_def)

lemma configure_all_snoc:
  "configure_all (calls @ [(s, l)]) st = configure_logging s l (configure_all calls st)"
  by (induction calls st rule: configure_all.induct) auto

lemma make_record_fields [simp]:
  "rec_created (make_record f r) = rec_created r" "rec_levelname (make_record f r) = rec_levelname r"
  "rec_name (make_record f r) = rec_name r"
  by (induction f r rule: make_record.induct) (simp_all add: Let_def)

lemma stamped:
  "rec_service (make_record (record_factory st) r) = Some s \<Longrightarrow>
   rec_service (make_record (record_factory (configure_all calls st)) r) = Some s"
proof (induction calls st rule: configure_all.induct)
  case (2 service level calls st)
  from 2(2) have "rec_service (make_record (record_factory (configure_logging service level st)) r) = Some s"
    by (simp add: configure_logging_fields Let_def)
  from 2(1) [OF this] show ?case by simp
qed simp

lemma first_service_stamped:
  assumes "record_factory st = DefaultFactory" and "rec_service r = None" and "calls \<noteq> []"
  shows "rec_service (make_record (record_factory (configure_all calls st)) r) = Some (fst (hd calls))"
proof -
  from assms(3) obtain service level rest where calls: "calls = (service, level) # rest"
    by (cases calls) auto
  have "rec_service (make_record (record_factory (configure_logging service level st)) r) = Some service"
    using assms(1,2) by (simp add: configure_logging_fields Let_def)
  from stamped [OF this] show ?thesis by (simp add: calls)
qed

text \<open>
  Configuring the logging, any number of times and from any state, leaves exactly one handler on
  the root, so that a record of the server's loggers is written exactly once, at the level of the last
  call; but the service name stamped on the records, and on the lines made of them, stays that of the
  first call. A line has the four fields of its record whatever the library put there before.
\<close>

lemma logging_configured:
  assumes "record_factory st = DefaultFactory" and "rec_service r = None" and "calls \<noteq> []"
  shows "let st' = configure_all calls st; r' = make_record (record_factory st') r;
             line = add_fields base r'
    in root_handlers st' = [JsonHandler] \<and> root_level st' = snd (last calls)
      \<and> reached st' [''uvicorn.access'', ''uvicorn''] = [JsonHandler]
      \<and> reached st' [''uvicorn.error'', ''uvicorn''] = [JsonHandler]
      \<and> dict_get line ''service'' = Some (JStr (fst (hd calls)))
      \<and> dict_get line ''timestamp'' = Some (JStr (iso_millis_utc (rec_created r)))
      \<and> dict_get line ''level'' = Some (JStr (rec_levelname r))
      \<and> dict_get line ''logger'' = Some (JStr (rec_name r))"
proof -
  let ?st = "configure_all calls st"
  from assms(3) obtain before s l where calls: "calls = before @ [(s, l)]" by (cases calls rule: rev_cases) auto
  have "root_handlers ?st = [JsonHandler]" "root_level ?st = l"
    and "\<And>name. name \<in> set NOISY \<Longrightarrow> dict_get (loggers ?st) name = Some \<lparr>lg_handlers = [], lg_propagate = True\<rparr>"
    by (simp_all add: calls configure_all_snoc configure_logging_fields)
  then show ?thesis
    using first_service_stamped [OF assms]
    by (simp add: Let_def add_fields_def put_if_present_def calls NOISY_def split: option.split)
qed

text \<open>A process whose server came with handlers of its own, configured twice.\<close>

definition demo_logging :: logging_state where
  "demo_logging =
     \<lparr>root_handlers = [OtherHandler ''basicConfig'', OtherHandler ''basicConfig''], root_level = 30,
      record_factory = DefaultFactory,
      loggers = [(''uvicorn.access'', \<lparr>lg_handlers = [OtherHandler ''access''], lg_propagate = False\<rparr>)]\<rparr>"

lemma logging_configured_witness:
  "reached demo_logging [''uvicorn.access'', ''uvicorn''] = [OtherHandler ''access'']
   \<and> reached (configure_all [(''auth-service'', 20), (''other'', 10)] demo_logging) [''uvicorn.access'', ''uvicorn'']
       = [JsonHandler]
   \<and> root_level (configure_all [(''auth-service'', 20), (''other'', 10)] demo_logging) = 10"
  using logging_configured [of demo_logging
      "\<lparr>rec_created = \<lparr>dt_date = Date 2030 1 1, dt_hour = 0, dt_minute = 0, dt_second = 0, dt_microsecond = 0\<rparr>,
        rec_levelname = ''INFO'', rec_name = ''x'', rec_service = None, rec_exc_type = None\<rparr>"
      "[(''auth-service'', 20), (''other'', 10)]"]
  by (simp add: demo_logging_def Let_def dict_get_def)


end
