(* ===== verification/Platform_Runs.thy ===== *)
theory Platform_Runs
  imports Leave_Runs Audit_Pipeline Gateway_Properties Service_Startup Service_Logging
begin

text \<open>
  Instances of the properties of the gateway, the auth service, service discovery and the
  notification service: a seeded user store, sample libraries that behave as documented, a gateway
  environment, and the concrete runs that show the hypotheses can hold.
\<close>

section \<open>Notifications\<close>

definition demo_applied :: message where
  "demo_applied = Decoded (JObj (message_body (fst (applied_event demo_employee MANAGER1_ID ''a''))
     (snd (applied_event demo_employee MANAGER1_ID ''a''))))"

definition demo_consumer :: consumer where
  "demo_consumer = \<lparr>cs_phase = Connecting, cs_queue = [demo_applied, Undecodable, Decoded (JInt 1)], cs_logs = []\<rparr>"

definition demo_rounds :: "(datetime \<times> datetime \<times> string) list" where
  "demo_rounds = [(demo_time, demo_time, ''l1''), (demo_time, demo_time, ''l2''), (demo_time, demo_time, ''l3'')]"

lemma demo_expected: "expected (cs_queue demo_consumer) =
    [(LEAVE_APPLIED, JStr EMP1_ID, JStr MANAGER1_ID, JStr ''a'', JNull)]"
  by (simp add: demo_consumer_def demo_applied_def service_event_fields entry_of_def field_def dict_get_def
      demo_employee_def)

theorem consumer_drains_witness:
  "cs_queue (run_consumer (rounds demo_rounds) demo_consumer) = []
   \<and> (\<exists>new. cs_logs (run_consumer (rounds demo_rounds) demo_consumer) = new
        \<and> map log_core new = [(LEAVE_APPLIED, JStr EMP1_ID, JStr MANAGER1_ID, JStr ''a'', JNull)])"
  using consumer_drains [of demo_consumer demo_rounds] demo_expected
  by (simp add: demo_consumer_def demo_rounds_def)

theorem consumer_audit_trail_witness:
  "\<exists>new. cs_logs (run_consumer (rounds demo_rounds) demo_consumer) = new
     \<and> map log_core new = [(LEAVE_APPLIED, JStr EMP1_ID, JStr MANAGER1_ID, JStr ''a'', JNull)]"
proof -
  have q: "cs_queue (run_consumer (rounds demo_rounds) demo_consumer) = []"
    using rounds_drain [of demo_consumer demo_rounds] by (simp add: demo_consumer_def demo_rounds_def)
  from consumer_audit_trail [of demo_consumer "rounds demo_rounds"] rounds_acknowledged [of demo_rounds]
  show ?thesis unfolding q by (auto simp: demo_expected) (simp add: demo_consumer_def)
qed

theorem published_events_typed_witness:
  "\<exists>s. (sys_step demo_ops)\<^sup>*\<^sup>* demo_start s \<and> get_request (w_req (sys_world s)) ''a'' \<noteq> None
     \<and> list_all leave_event (sys_outbox s)"
proof -
  obtain s t r where st: "(sys_step demo_ops)\<^sup>*\<^sup>* demo_start s" "(sys_step demo_ops)\<^sup>*\<^sup>* s t"
    "get_request (w_req (sys_world s)) ''a'' = Some r" "lr_status r = PENDING"
    "\<exists>q. get_request (w_req (sys_world t)) ''a'' = Some q \<and> lr_status q = APPROVED"
    by (rule demo_two_states)
  from published_events_typed [OF demo_init st(1), THEN conjunct1] st(1,3) show ?thesis by auto
qed

text \<open>The events are published in the reverse of their order, and there is one round for each message.\<close>

definition backwards :: "event list \<Rightarrow> pipe_event list" where
  "backwards es = map (Publish True True) (rev es)
     @ map Broker (rounds (replicate (length es) (demo_time, demo_time, ''l'')))"

definition waiting :: consumer where
  "waiting = \<lparr>cs_phase = Connecting, cs_queue = [], cs_logs = []\<rparr>"

lemma backwards_events: "attempts (backwards es) = rev es" "landings (backwards es) = rev es"
proof -
  have "List.map_filter attempted (map Broker bs) = []" "List.map_filter landed (map Broker bs) = []" for bs
    by (induction bs) (auto simp: map_filter_def)
  moreover have "List.map_filter attempted (map (Publish True True) es) = es"
    "List.map_filter landed (map (Publish True True) es) = es" for es
    by (induction es) (auto simp: map_filter_def)
  ultimately show "attempts (backwards es) = rev es" "landings (backwards es) = rev es"
    by (simp_all add: attempts_def landings_def backwards_def map_filter_app)
qed

lemma backwards_drained: "cs_queue (run_pipe (backwards es) waiting) = []"
proof -
  have "fold pipe_step (map Broker bs) c = fold consumer_step bs c" for bs c
    by (induction bs arbitrary: c) auto
  moreover have "fold pipe_step (map (Publish True True) es) c = c\<lparr>cs_queue := cs_queue c @ map on_queue es\<rparr>" for es c
    by (induction es arbitrary: c) (auto simp: publish_event_def on_queue_def)
  ultimately show ?thesis
    by (simp add: run_pipe_def backwards_def waiting_def flip: run_consumer_def) (simp add: rounds_drain)
qed

theorem audit_log_agrees_witness:
  "\<exists>s pes. (sys_step demo_ops)\<^sup>*\<^sup>* demo_start s \<and> get_request (w_req (sys_world s)) ''a'' \<noteq> None
     \<and> set (map nl_leave_request_id (get_logs_by_event_type (cs_logs (run_pipe pes waiting)) LEAVE_APPLIED))
         = set (map JStr (request_ids (w_req (sys_world s))))"
proof -
  obtain s t r where st: "(sys_step demo_ops)\<^sup>*\<^sup>* demo_start s" "(sys_step demo_ops)\<^sup>*\<^sup>* s t"
    "get_request (w_req (sys_world s)) ''a'' = Some r" "lr_status r = PENDING"
    "\<exists>q. get_request (w_req (sys_world t)) ''a'' = Some q \<and> lr_status q = APPROVED"
    by (rule demo_two_states)
  let ?out = "sys_outbox s"
  have leave: "list_all leave_event ?out" using outbox.inv_reachable [OF demo_init st(1)] by (simp add: outbox_ok_def)
  then have "no_errors (rev ?out) = rev ?out" by (auto simp: no_errors_def filter_id_conv list_all_iff leave_event_def)
  then have "mset (no_errors (attempts (backwards ?out))) = mset ?out"
    "mset (no_errors (landings (backwards ?out))) = mset ?out"
    by (simp_all add: backwards_events)
  moreover have "\<forall>ev \<in> set (attempts (backwards ?out)). fst ev = SYSTEM_ERROR \<longrightarrow> typed_event ev"
    using leave by (auto simp: backwards_events list_all_iff leave_event_def)
  ultimately have "set (map nl_leave_request_id (get_logs_by_event_type (cs_logs (run_pipe (backwards ?out) waiting)) LEAVE_APPLIED))
      = set (map JStr (request_ids (w_req (sys_world s))))"
    using audit_log_agrees [OF demo_init st(1), of "backwards ?out" waiting] backwards_drained [of ?out]
    by (simp add: Let_def waiting_def)
  with st show ?thesis by blast
qed

section \<open>Discovery\<close>

definition demo_instance :: "string \<Rightarrow> int \<Rightarrow> json" where
  "demo_instance host port = JObj [(''Service'', JObj [(''Address'', JStr host), (''Port'', JInt port)])]"

definition demo_instances :: json where
  "demo_instances = JList [demo_instance ''m1'' 8004, demo_instance ''m2'' 8004]"

lemma demo_urls: "gateway_query_consul (Inr demo_instances) =
    Inr [''http://m1:'' @ str_of_int 8004, ''http://m2:'' @ str_of_int 8004]"
  by (simp add: gateway_query_consul_def demo_instances_def demo_instance_def json_items_def entry_url_def
      json_get_def dict_get_def json_str_def)

definition demo_calls :: "(string \<times> json result) list" where
  "demo_calls = [(''manager-service'', Inr demo_instances), (''auth-service'', Inl (HTTPXError TimeoutException)),
     (''manager-service'', Inr demo_instances)]"

theorem round_robin_fair_witness:
  "answers_for ''manager-service'' demo_calls (snd (gateway_resolve_all demo_calls [])) =
     [Inr (''http://m1:'' @ str_of_int 8004), Inr (''http://m2:'' @ str_of_int 8004)]"
  using round_robin_fair [of "[]" "[''http://m1:'' @ str_of_int 8004, ''http://m2:'' @ str_of_int 8004]"
      "''manager-service''" demo_calls 1]
  by (simp add: demo_calls_def demo_urls calls_for_def cursor_at_def numeral_2_eq_2)

theorem resolvers_agree_witness:
  "resolve_service (Inr demo_instances) ''manager-service'' = Inr (''http://m1:'' @ str_of_int 8004)
   \<and> is_ok (static_base_url ''manager-service'')"
  using resolvers_agree [OF demo_urls wf_cursors_empty, of "''manager-service''"]
  by (simp add: known_services_def STATIC_SERVICE_MAP_def)

lemma registration_roundtrip_witness:
  "resolve_service (Inr (JList [demo_instance ''m1'' 8004])) ''manager-service'' =
     Inr (instance_base_url ''m1'' 8004)"
  unfolding demo_instance_def
  using registration_roundtrip [of "[(''Service'', JObj [(''Address'', JStr ''m1''), (''Port'', JInt 8004)])]"
      "[(''Address'', JStr ''m1''), (''Port'', JInt 8004)]" "''manager-service''" "''m1''" 8004 "''manager-service''"]
  by (simp add: dict_get_def register_payload_def)

section \<open>Accounts and tokens\<close>

definition demo_settings :: Settings where
  "demo_settings =
     \<lparr>jwt_secret_key = ''secret'', jwt_algorithm = ''HS256'', jwt_expiration_minutes = 60,
      rabbitmq_url = ''amqp://rabbitmq/'', consul_url = ''http://consul:8500'',
      service_name = ''api-gateway'', service_host = ''api-gateway'', service_port = 8000\<rparr>"

theorem login_exact_witness:
  "login_endpoint sample_passwords sample_jwt demo_settings 0
     \<lparr>lq_username = ''emp1'', lq_password = ''wrong''\<rparr> (seed_users sample_passwords demo_uuids empty_users)
     = Error_response 401 (Msg ''Invalid username or password'')"
proof -
  let ?p = "\<lparr>lq_username = ''emp1'', lq_password = ''wrong''\<rparr>"
  have p: "ordinary (lq_password ?p)" "valid_LoginRequest ?p"
    by (simp_all add: ordinary_def valid_LoginRequest_def)
  show ?thesis
    using login_exact [OF sample_passwords_ok p, of sample_jwt demo_settings 0 demo_uuids demo_uuids]
    by (simp add: SEED_USERS_def)
qed

section \<open>Start and stop\<close>

definition demo_process :: process where
  "demo_process = \<lparr>pr_registry = [], pr_client_open = False, pr_consuming = False, pr_seeded = False\<rparr>"

theorem lifespans_balanced_witness:
  "\<exists>serving. run_lifespan True demo_settings (\<lambda>_. False) gateway_lifespan demo_process = (Some serving, demo_process)
     \<and> pr_client_open serving \<and> dict_get (pr_registry serving) (own_id demo_settings) = Some (own_payload demo_settings)"
proof -
  have "gateway_lifespan \<in> set LIFESPANS" by (simp add: LIFESPANS_def)
  from lifespans_balanced [OF this, of demo_process demo_settings True] show ?thesis
    by (auto simp: demo_process_def gateway_lifespan_def notification_lifespan_def run_lifespan_def)
qed

section \<open>The gateway\<close>

definition demo_header :: "headers \<Rightarrow> string \<Rightarrow> string option" where
  "demo_header hs name = map_of (lower_names hs) (str_lower name)"

definition demo_gateway :: gateway_env where
  "demo_gateway =
     \<lparr>ge_jwt = sample_jwt, ge_settings = demo_settings, ge_now = 100, ge_header = demo_header,
      ge_consul = (\<lambda>service. Inl (HTTPXError ConnectError)),
      ge_send = (\<lambda>sent. Inr \<lparr>ws_status = 200, ws_headers = [], ws_content = ''[]''\<rparr>),
      ge_framework = (\<lambda>rq. Inr (json_response 404 [] [(''detail'', JStr ''Not Found'')]))\<rparr>"

definition demo_token :: string where
  "demo_token = create_access_token sample_jwt demo_settings 0 EMP1_ID EMPLOYEE"

definition demo_rq :: "headers \<Rightarrow> gw_request" where
  "demo_rq extra =
     \<lparr>rq_method = ''GET'', rq_path = ''/manager/requests'', rq_query = [],
      rq_headers = (''authorization'', ''Bearer '' @ demo_token) # extra, rq_body = []\<rparr>"

lemma demo_header_ok: "header_ok (ge_header demo_gateway)" "clients_ok demo_gateway" "jwt_ok (ge_jwt demo_gateway)"
  by (simp_all add: header_ok_def demo_gateway_def demo_header_def clients_ok_def no_http_exception_def sample_jwt_ok)

lemma demo_route: "public_route (rq_method (demo_rq extra)) (rq_path (demo_rq extra)) ''manager-service''"
  by (simp add: public_route_def demo_rq_def)

lemma demo_bearer:
  "ge_header demo_gateway (rq_headers (demo_rq extra)) ''Authorization'' = Some (''Bearer'' @ '' '' @ demo_token)"
  "str_lower ''Bearer'' = ''bearer''"
proof -
  have "str_lower ''authorization'' = ''authorization''" "str_lower ''Authorization'' = ''authorization''"
    by code_simp+
  then show "ge_header demo_gateway (rq_headers (demo_rq extra)) ''Authorization'' = Some (''Bearer'' @ '' '' @ demo_token)"
    by (simp add: demo_gateway_def demo_header_def demo_rq_def lower_names_def)
  show "str_lower ''Bearer'' = ''bearer''" by code_simp
qed

lemma demo_asgi: "asgi (rq_headers (demo_rq [(''x-user-id'', u), (''x-user-role'', r)]))" "asgi (rq_headers (demo_rq []))"
proof -
  have "str_lower ''authorization'' = ''authorization''" "str_lower ''x-user-id'' = ''x-user-id''"
    "str_lower ''x-user-role'' = ''x-user-role''"
    by code_simp+
  then show "asgi (rq_headers (demo_rq [(''x-user-id'', u), (''x-user-role'', r)]))" "asgi (rq_headers (demo_rq []))"
    by (simp_all add: asgi_def lower_names_def demo_rq_def)
qed

lemma demo_admits: "admits demo_gateway (demo_rq extra) (Some (token_claims demo_settings 0 EMP1_ID EMPLOYEE))"
proof -
  have t: "demo_token \<noteq> []" "\<forall>c \<in> set demo_token. \<not> is_space c"
    using sample_jwt_ok unfolding jwt_ok_def demo_token_def create_access_token_def by blast+
  then have "str_strip demo_token = demo_token" by (intro str_strip_no_space) simp_all
  with t have "presented demo_gateway (demo_rq extra) demo_token"
    unfolding presented_def demo_bearer(1) using demo_bearer(2) by blast
  moreover have "decode_token sample_jwt demo_settings 100 demo_token =
      Inr (token_claims demo_settings 0 EMP1_ID EMPLOYEE)"
    using decode_created [OF sample_jwt_ok, of demo_settings 100 0 EMP1_ID EMPLOYEE]
    by (simp add: demo_token_def demo_settings_def)
  ultimately show ?thesis
    by (simp add: admits_def demo_gateway_def demo_rq_def PUBLIC_PATHS_def) blast
qed

lemma token_identity_arrives_witness:
  "\<exists>claims. jwt_dispatch demo_gateway (demo_rq []) [] = forward demo_gateway (Some claims) (demo_rq []) ''manager-service'' []
     \<and> caller_downstream demo_header (Some claims) (rq_headers (demo_rq []))
         = Inr \<lparr>ci_user_id = EMP1_ID, ci_role = EMPLOYEE\<rparr>"
proof -
  have "no_identity_headers (rq_headers (demo_rq []))" "EMP1_ID \<noteq> []"
    by (simp_all add: no_identity_headers_def demo_rq_def EMP1_ID_def)
  moreover have "demo_token = create_access_token (ge_jwt demo_gateway) (ge_settings demo_gateway) 0 EMP1_ID EMPLOYEE"
    by (simp add: demo_token_def demo_gateway_def)
  ultimately show ?thesis
    using token_identity_arrives [OF demo_header_ok(1) demo_asgi(2) demo_header_ok(3) _ _ demo_route _ _ demo_bearer(2),
        of EMP1_ID 0 EMPLOYEE "[]"] demo_bearer(1) [of "[]"]
    by (simp add: demo_gateway_def demo_settings_def)
qed

text \<open>An employee's token, and the manager guard of the manager service lets the request through.\<close>

lemma client_headers_override_identity_witness:
  "let rq = demo_rq [(''x-user-id'', MANAGER1_ID), (''x-user-role'', ''MANAGER'')];
       claims = token_claims demo_settings 0 EMP1_ID EMPLOYEE
   in jwt_dispatch demo_gateway rq [] = forward demo_gateway (Some claims) rq ''manager-service'' []
      \<and> require_manager (caller_downstream demo_header (Some claims) (rq_headers rq))
          = Inr \<lparr>ci_user_id = MANAGER1_ID, ci_role = MANAGER\<rparr>"
proof -
  let ?rq = "demo_rq [(''x-user-id'', MANAGER1_ID), (''x-user-role'', ''MANAGER'')]"
  have "map_of (rev (rq_headers ?rq)) ''x-user-id'' = Some MANAGER1_ID"
    "map_of (rev (rq_headers ?rq)) ''x-user-role'' = Some (Role_value MANAGER)" "MANAGER1_ID \<noteq> []"
    by (simp_all add: demo_rq_def MANAGER1_ID_def)
  from client_headers_override_identity [OF demo_header_ok(1) demo_asgi(1) demo_admits demo_route this(1,3,2), of "[]"]
  show ?thesis by (simp add: Let_def require_manager_def demo_gateway_def)
qed

theorem upstream_outcomes_witness:
  "case gateway (\<lambda>_. ''error'') demo_gateway (demo_rq []) [] of (rr', line, response, events) \<Rightarrow>
     line = (''GET'', ''/manager/requests'', 200) \<and> gr_content response = Relayed ''[]'' \<and> events = []"
  using upstream_outcomes [OF demo_admits [of "[]"] demo_route demo_header_ok(2), where tx = "\<lambda>_. ''error''" and rr = "[]"]
  by (auto simp: demo_gateway_def demo_rq_def gateway_query_consul_def split: prod.splits)

end
