(* ===== verification/Json_Schemas.thy ===== *)
theory Json_Schemas
  imports Manager_Decisions Auth_Service Service_Discovery "HOL-Library.Monad_Syntax"
begin

text \<open>
  The schemas of the services (\<open>*/schemas.py\<close>) as JSON: the objects their responses become, and the
  reading of request bodies and of another service's response. How the validation library reads a
  scalar and prints a date is an argument; which fields there are, which of them may be missing and
  what each becomes is the schemas'.
\<close>

section \<open>The validation library\<close>

text \<open>
  Reading a text, an integer, a date and a time stamp from a decoded value (\<open>None\<close> is a validation
  error), the texts a date and a time stamp are sent as, the text of a validation error, and the
  integer part of a float, which JSON values here carry as text.
\<close>

record wire_lib =
  wl_str :: "json \<Rightarrow> string option"
  wl_int :: "json \<Rightarrow> int option"
  wl_date :: "json \<Rightarrow> date option"
  wl_datetime :: "json \<Rightarrow> datetime option"
  wl_date_text :: "date \<Rightarrow> string"
  wl_datetime_text :: "datetime \<Rightarrow> string"
  wl_error :: "json \<Rightarrow> string"
  wl_int_of_float :: "string \<Rightarrow> int result"

definition valid_datetime :: "datetime \<Rightarrow> bool" where
  "valid_datetime t \<longleftrightarrow>
     valid_date (dt_date t) \<and> dt_hour t < 24 \<and> dt_minute t < 60 \<and> dt_second t < 60 \<and> dt_microsecond t < 1000000"

text \<open>What is documented: texts and integers are read as they are, and what it prints it reads back.\<close>

definition wire_lib_ok :: "wire_lib \<Rightarrow> bool" where
  "wire_lib_ok L \<longleftrightarrow>
     (\<forall>s. wl_str L (JStr s) = Some s) \<and> (\<forall>i. wl_int L (JInt i) = Some i)
     \<and> (\<forall>d. valid_date d \<longrightarrow> wl_date L (JStr (wl_date_text L d)) = Some d)
     \<and> (\<forall>t. valid_datetime t \<longrightarrow> wl_datetime L (JStr (wl_datetime_text L t)) = Some t)"

section \<open>Reading fields\<close>

text \<open>A required field, an optional one with default \<open>None\<close>, and an enumeration by value.\<close>

definition need :: "payload \<Rightarrow> string \<Rightarrow> (json \<Rightarrow> 'a option) \<Rightarrow> 'a option" where
  "need data k parse = (case dict_get data k of None \<Rightarrow> None | Some v \<Rightarrow> parse v)"

definition may :: "payload \<Rightarrow> string \<Rightarrow> (json \<Rightarrow> 'a option) \<Rightarrow> 'a option option" where
  "may data k parse =
     (case dict_get data k of
        None \<Rightarrow> Some None
      | Some v \<Rightarrow> if v = JNull then Some None else map_option Some (parse v))"

definition enum_json :: "(string \<Rightarrow> 'a option) \<Rightarrow> json \<Rightarrow> 'a option" where
  "enum_json of_value v = (case v of JStr s \<Rightarrow> of_value s | _ \<Rightarrow> None)"

definition opt_json :: "string option \<Rightarrow> json" where
  "opt_json x = (case x of None \<Rightarrow> JNull | Some s \<Rightarrow> JStr s)"

lemma need_Cons [simp]:
  "need ((k', v) # data) k parse = (if k' = k then parse v else need data k parse)"
  by (simp add: need_def dict_get_def)

lemma may_Cons [simp]:
  "may ((k', v) # data) k parse =
     (if k' = k then (if v = JNull then Some None else map_option Some (parse v)) else may data k parse)"
  by (simp add: may_def dict_get_def)

lemma may_Nil [simp]: "may [] k parse = Some None"
  by (simp add: may_def)

lemma enum_json_simps [simp]: "enum_json f (JStr s) = f s"
  by (simp add: enum_json_def)

lemma wire_lib_reads [simp]:
  assumes "wire_lib_ok L"
  shows "wl_str L (JStr s) = Some s" and "wl_int L (JInt i) = Some i"
    and "valid_date d \<Longrightarrow> wl_date L (JStr (wl_date_text L d)) = Some d"
    and "valid_datetime t \<Longrightarrow> wl_datetime L (JStr (wl_datetime_text L t)) = Some t"
  using assms by (simp_all add: wire_lib_ok_def)

lemma read_opt_json [simp]:
  assumes "wire_lib_ok L"
  shows "(if opt_json x = JNull then Some None else map_option Some (wl_str L (opt_json x))) = Some x"
  using assms by (cases x) (simp_all add: opt_json_def)

section \<open>Responses\<close>

definition BalanceItem_json :: "BalanceItem \<Rightarrow> json" where
  "BalanceItem_json b =
     JObj [(''leave_type'', JStr (LeaveType_value (bi_leave_type b))),
           (''total_allocated'', JInt (bi_total_allocated b)),
           (''used'', JInt (bi_used b)),
           (''remaining'', JInt (bi_remaining b))]"

definition EmployeeBalancesResponse_json :: "EmployeeBalancesResponse \<Rightarrow> json" where
  "EmployeeBalancesResponse_json r =
     JObj [(''employee_id'', JStr (eb_employee_id r)),
           (''balances'', JList (map BalanceItem_json (eb_balances r)))]"

definition DeductResponse_json :: "DeductResponse \<Rightarrow> json" where
  "DeductResponse_json r =
     JObj [(''employee_id'', JStr (dp_employee_id r)),
           (''leave_type'', JStr (LeaveType_value (dp_leave_type r))),
           (''total_allocated'', JInt (dp_total_allocated r)),
           (''used'', JInt (dp_used r)),
           (''remaining'', JInt (dp_remaining r))]"

definition LeaveRequestResponse_json :: "wire_lib \<Rightarrow> LeaveRequestResponse \<Rightarrow> json" where
  "LeaveRequestResponse_json L r =
     JObj [(''request_id'', JStr (rr_request_id r)),
           (''employee_id'', JStr (rr_employee_id r)),
           (''leave_type'', JStr (LeaveType_value (rr_leave_type r))),
           (''start_date'', JStr (wl_date_text L (rr_start_date r))),
           (''end_date'', JStr (wl_date_text L (rr_end_date r))),
           (''number_of_days'', JInt (rr_number_of_days r)),
           (''reason'', JStr (rr_reason r)),
           (''reporting_manager_id'', JStr (rr_reporting_manager_id r)),
           (''status'', JStr (LeaveStatus_value (rr_status r))),
           (''rejection_reason'', opt_json (rr_rejection_reason r)),
           (''created_at'', JStr (wl_datetime_text L (rr_created_at r))),
           (''updated_at'', JStr (wl_datetime_text L (rr_updated_at r)))]"

definition LeaveHistoryResponse_json :: "wire_lib \<Rightarrow> LeaveHistoryResponse \<Rightarrow> json" where
  "LeaveHistoryResponse_json L r =
     JObj [(''items'', JList (map (LeaveRequestResponse_json L) (lh_items r))),
           (''page'', JInt (lh_page r)),
           (''page_size'', JInt (lh_page_size r)),
           (''total'', JInt (lh_total r)),
           (''total_pages'', JInt (lh_total_pages r))]"

definition ManagerRequestView_json :: "wire_lib \<Rightarrow> ManagerRequestView \<Rightarrow> json" where
  "ManagerRequestView_json L v =
     (let r = mv_request v in
      JObj [(''request_id'', JStr (rr_request_id r)),
            (''employee_id'', JStr (rr_employee_id r)),
            (''employee_name'', opt_json (mv_employee_name v)),
            (''leave_type'', JStr (LeaveType_value (rr_leave_type r))),
            (''start_date'', JStr (wl_date_text L (rr_start_date r))),
            (''end_date'', JStr (wl_date_text L (rr_end_date r))),
            (''number_of_days'', JInt (rr_number_of_days r)),
            (''reason'', JStr (rr_reason r)),
            (''reporting_manager_id'', JStr (rr_reporting_manager_id r)),
            (''status'', JStr (LeaveStatus_value (rr_status r))),
            (''rejection_reason'', opt_json (rr_rejection_reason r)),
            (''created_at'', JStr (wl_datetime_text L (rr_created_at r))),
            (''updated_at'', JStr (wl_datetime_text L (rr_updated_at r)))])"

definition LoginResponse_json :: "LoginResponse \<Rightarrow> json" where
  "LoginResponse_json r =
     JObj [(''access_token'', JStr (lp_access_token r)), (''token_type'', JStr (lp_token_type r))]"

fun encode_response :: "('a \<Rightarrow> json) \<Rightarrow> 'a http_response \<Rightarrow> json http_response" where
  "encode_response enc (Ok_response c a) = Ok_response c (enc a)"
| "encode_response enc (Error_response c d) = Error_response c d"
| "encode_response enc (Other_response c t) = Other_response c t"

section \<open>Request bodies\<close>

text \<open>
  Reading the fields; the declared constraints on their values are the \<open>valid_\<close> predicates, checked
  by the routes. Unknown fields are ignored.
\<close>

definition body_of :: "json \<Rightarrow> (payload \<Rightarrow> 'p option) \<Rightarrow> 'p option" where
  "body_of body read_fields = (case body of JObj data \<Rightarrow> read_fields data | _ \<Rightarrow> None)"

lemma body_of_JObj [simp]: "body_of (JObj data) f = f data"
  by (simp add: body_of_def)

definition ApplyLeaveRequest_read :: "wire_lib \<Rightarrow> json \<Rightarrow> ApplyLeaveRequest option" where
  "ApplyLeaveRequest_read L body = body_of body (\<lambda>data. do {
     leave_type \<leftarrow> need data ''leave_type'' (enum_json LeaveType_of);
     start_date \<leftarrow> need data ''start_date'' (wl_date L);
     end_date \<leftarrow> need data ''end_date'' (wl_date L);
     number_of_days \<leftarrow> need data ''number_of_days'' (wl_int L);
     reason \<leftarrow> need data ''reason'' (wl_str L);
     reporting_manager_id \<leftarrow> may data ''reporting_manager_id'' (wl_str L);
     Some \<lparr>al_leave_type = leave_type, al_start_date = start_date, al_end_date = end_date,
           al_number_of_days = number_of_days, al_reason = reason,
           al_reporting_manager_id = reporting_manager_id\<rparr> })"

definition StatusUpdateRequest_read :: "wire_lib \<Rightarrow> json \<Rightarrow> StatusUpdateRequest option" where
  "StatusUpdateRequest_read L body = body_of body (\<lambda>data. do {
     new_status \<leftarrow> need data ''new_status'' (enum_json LeaveStatus_of);
     manager_id \<leftarrow> need data ''manager_id'' (wl_str L);
     rejection_reason \<leftarrow> may data ''rejection_reason'' (wl_str L);
     Some \<lparr>sr_new_status = new_status, sr_manager_id = manager_id, sr_rejection_reason = rejection_reason\<rparr> })"

definition DeductRequest_read :: "wire_lib \<Rightarrow> json \<Rightarrow> DeductRequest option" where
  "DeductRequest_read L body = body_of body (\<lambda>data. do {
     employee_id \<leftarrow> need data ''employee_id'' (wl_str L);
     leave_type \<leftarrow> need data ''leave_type'' (enum_json LeaveType_of);
     days \<leftarrow> need data ''days'' (wl_int L);
     Some \<lparr>dr_employee_id = employee_id, dr_leave_type = leave_type, dr_days = days\<rparr> })"

definition RejectLeaveRequest_read :: "wire_lib \<Rightarrow> json \<Rightarrow> string option" where
  "RejectLeaveRequest_read L body = body_of body (\<lambda>data. need data ''rejection_reason'' (wl_str L))"

definition LoginRequest_read :: "wire_lib \<Rightarrow> json \<Rightarrow> LoginRequest option" where
  "LoginRequest_read L body = body_of body (\<lambda>data. do {
     username \<leftarrow> need data ''username'' (wl_str L);
     password \<leftarrow> need data ''password'' (wl_str L);
     Some \<lparr>lq_username = username, lq_password = password\<rparr> })"

section \<open>Reading another service's response\<close>

text \<open>\<open>get_user\<close> on any decoded value: a list or an object cannot be a key.\<close>

definition user_of_json :: "json \<Rightarrow> SeedUser option result" where
  "user_of_json v =
     (case v of
        JStr s \<Rightarrow> Inr (get_user s)
      | JList xs \<Rightarrow> Inl (TypeError (''unhashable type: '' @ [CHR 0x27] @ json_type v @ [CHR 0x27]))
      | JObj kvs \<Rightarrow> Inl (TypeError (''unhashable type: '' @ [CHR 0x27] @ json_type v @ [CHR 0x27]))
      | _ \<Rightarrow> Inr None)"

text \<open>The fields of \<open>ManagerRequestView\<close> but the name, which the caller passes beside the data.\<close>

definition request_fields_read :: "wire_lib \<Rightarrow> payload \<Rightarrow> LeaveRequestResponse option" where
  "request_fields_read L data = do {
     request_id \<leftarrow> need data ''request_id'' (wl_str L);
     employee_id \<leftarrow> need data ''employee_id'' (wl_str L);
     leave_type \<leftarrow> need data ''leave_type'' (enum_json LeaveType_of);
     start_date \<leftarrow> need data ''start_date'' (wl_date L);
     end_date \<leftarrow> need data ''end_date'' (wl_date L);
     number_of_days \<leftarrow> need data ''number_of_days'' (wl_int L);
     reason \<leftarrow> need data ''reason'' (wl_str L);
     reporting_manager_id \<leftarrow> need data ''reporting_manager_id'' (wl_str L);
     status \<leftarrow> need data ''status'' (enum_json LeaveStatus_of);
     rejection_reason \<leftarrow> may data ''rejection_reason'' (wl_str L);
     created_at \<leftarrow> need data ''created_at'' (wl_datetime L);
     updated_at \<leftarrow> need data ''updated_at'' (wl_datetime L);
     Some \<lparr>rr_request_id = request_id, rr_employee_id = employee_id, rr_leave_type = leave_type,
           rr_start_date = start_date, rr_end_date = end_date, rr_number_of_days = number_of_days,
           rr_reason = reason, rr_reporting_manager_id = reporting_manager_id, rr_status = status,
           rr_rejection_reason = rejection_reason, rr_created_at = created_at, rr_updated_at = updated_at\<rparr> }"

text \<open>\<open>ManagerRequestView.from_payload(data)\<close>; the keyword \<open>employee_name\<close> may be given only once.\<close>

definition from_payload :: "wire_lib \<Rightarrow> json \<Rightarrow> ManagerRequestView result" where
  "from_payload L data =
     and_then (json_get data ''employee_id'' (JStr [])) (\<lambda>employee_id.
     and_then (user_of_json employee_id) (\<lambda>user.
       let kvs = (case data of JObj kvs \<Rightarrow> kvs | _ \<Rightarrow> []) in
       if dict_has kvs ''employee_name''
       then Inl (TypeError (''manager_service.schemas.ManagerRequestView() got multiple values for keyword argument ''
              @ [CHR 0x27] @ ''employee_name'' @ [CHR 0x27]))
       else case request_fields_read L kvs of
           None \<Rightarrow> Inl (ValueError (wl_error L data))
         | Some r \<Rightarrow> Inr \<lparr>mv_employee_name = map_option su_username user, mv_request = r\<rparr>))"

text \<open>\<open>int(v)\<close>\<close>

definition int_of_json :: "wire_lib \<Rightarrow> json \<Rightarrow> int result" where
  "int_of_json L v =
     (case v of
        JInt i \<Rightarrow> Inr i
      | JBool b \<Rightarrow> Inr (if b then 1 else 0)
      | JFloat t \<Rightarrow> wl_int_of_float L t
      | JStr s \<Rightarrow>
          (case int_of_str s of
             None \<Rightarrow> Inl (ValueError (''invalid literal for int() with base 10: '' @ repr_str s))
           | Some i \<Rightarrow> Inr i)
      | _ \<Rightarrow> Inl (TypeError (''int() argument must be a string, a bytes-like object or a real number, not ''
               @ [CHR 0x27] @ json_type v @ [CHR 0x27])))"

text \<open>The loop of \<open>fetch_remaining\<close> over \<open>payload.get("balances", [])\<close>.\<close>

fun remaining_in :: "wire_lib \<Rightarrow> LeaveType \<Rightarrow> json list \<Rightarrow> int result" where
  "remaining_in L leave_type [] = Inr 0"
| "remaining_in L leave_type (item # items) =
     and_then (json_get item ''leave_type'' JNull) (\<lambda>t.
       if t = JStr (LeaveType_value leave_type)
       then and_then (json_get item ''remaining'' (JInt 0)) (int_of_json L)
       else remaining_in L leave_type items)"

definition remaining_json :: "wire_lib \<Rightarrow> LeaveType \<Rightarrow> json \<Rightarrow> int result" where
  "remaining_json L leave_type payload =
     and_then (json_get payload ''balances'' (JList [])) (\<lambda>balances.
     and_then (json_items balances) (remaining_in L leave_type))"

section \<open>What is written is read back\<close>

lemma remaining_in_items:
  "remaining_in L leave_type (map BalanceItem_json items) = Inr (remaining_of leave_type items)"
  by (induction items) (simp_all add: BalanceItem_json_def json_get_def dict_get_def int_of_json_def)

lemma remaining_json_response:
  "remaining_json L leave_type (EmployeeBalancesResponse_json r) = Inr (remaining_of leave_type (eb_balances r))"
  by (simp add: remaining_json_def EmployeeBalancesResponse_json_def json_get_def dict_get_def json_items_def
      remaining_in_items)

lemma DeductRequest_read_body:
  assumes "wire_lib_ok L"
  shows "DeductRequest_read L (JObj [(''employee_id'', JStr e), (''leave_type'', JStr (LeaveType_value t)), (''days'', JInt n)])
    = Some \<lparr>dr_employee_id = e, dr_leave_type = t, dr_days = n\<rparr>"
  using assms by (simp add: DeductRequest_read_def)

definition sendable :: "LeaveRequestResponse \<Rightarrow> bool" where
  "sendable r \<longleftrightarrow>
     valid_date (rr_start_date r) \<and> valid_date (rr_end_date r)
     \<and> valid_datetime (rr_created_at r) \<and> valid_datetime (rr_updated_at r)"

lemma request_fields_read_json:
  assumes "wire_lib_ok L" and "sendable r" and "LeaveRequestResponse_json L r = JObj kvs"
  shows "request_fields_read L kvs = Some r"
  using assms unfolding sendable_def LeaveRequestResponse_json_def
  by (cases r) (clarsimp simp: request_fields_read_def)

lemma from_payload_json:
  assumes "wire_lib_ok L" and "sendable r"
  shows "from_payload L (LeaveRequestResponse_json L r) = Inr (ManagerRequestView_from_payload r)"
proof -
  obtain kvs where j: "LeaveRequestResponse_json L r = JObj kvs"
    and e: "dict_get kvs ''employee_id'' = Some (JStr (rr_employee_id r))"
    and n: "\<not> dict_has kvs ''employee_name''"
    by (simp add: LeaveRequestResponse_json_def dict_get_def dict_has_def)
  show ?thesis
    using request_fields_read_json [OF assms j] e n
    by (simp add: from_payload_def j json_get_def user_of_json_def ManagerRequestView_from_payload_def
        split: option.splits)
qed

section \<open>An instance\<close>

text \<open>
  ISO texts, read back: the date as year, month and day of fixed width, the time stamp with
  microseconds and the zone letter. It shows that what is documented of the library can hold.
\<close>

definition nat_of_digits :: "string \<Rightarrow> nat option" where
  "nat_of_digits s =
     (if s \<noteq> [] \<and> list_all is_digit s then Some (fold (\<lambda>c a. 10 * a + digit_value c) s 0) else None)"

text \<open>The next \<open>w\<close> characters as a number, followed by the given separator.\<close>

definition take_number :: "nat \<Rightarrow> string \<Rightarrow> string \<Rightarrow> (nat \<times> string) option" where
  "take_number w sep s =
     (case nat_of_digits (take w s) of
        None \<Rightarrow> None
      | Some n \<Rightarrow>
          if w \<le> length s \<and> take (length sep) (drop w s) = sep then Some (n, drop (w + length sep) s) else None)"

definition take_date :: "string \<Rightarrow> string \<Rightarrow> (date \<times> string) option" where
  "take_date sep s = do {
     (y, s) \<leftarrow> take_number 4 ''-'' s;
     (m, s) \<leftarrow> take_number 2 ''-'' s;
     (d, s) \<leftarrow> take_number 2 sep s;
     if valid_date (Date y m d) then Some (Date y m d, s) else None }"

definition iso_date :: "string \<Rightarrow> date option" where
  "iso_date s = do { (d, rest) \<leftarrow> take_date [] s; if rest = [] then Some d else None }"

definition iso_datetime_text :: "datetime \<Rightarrow> string" where
  "iso_datetime_text t =
     isoformat (dt_date t) @ ''T'' @ zero_pad 2 (str_of_nat (dt_hour t)) @ '':''
       @ zero_pad 2 (str_of_nat (dt_minute t)) @ '':'' @ zero_pad 2 (str_of_nat (dt_second t)) @ ''.''
       @ zero_pad 6 (str_of_nat (dt_microsecond t)) @ ''Z''"

definition iso_datetime :: "string \<Rightarrow> datetime option" where
  "iso_datetime s = do {
     (d, s) \<leftarrow> take_date ''T'' s;
     (h, s) \<leftarrow> take_number 2 '':'' s;
     (m, s) \<leftarrow> take_number 2 '':'' s;
     (sec, s) \<leftarrow> take_number 2 ''.'' s;
     (us, s) \<leftarrow> take_number 6 ''Z'' s;
     if s = [] then Some \<lparr>dt_date = d, dt_hour = h, dt_minute = m, dt_second = sec, dt_microsecond = us\<rparr> else None }"

definition text_of_json :: "(string \<Rightarrow> 'a option) \<Rightarrow> json \<Rightarrow> 'a option" where
  "text_of_json parse v = (case v of JStr s \<Rightarrow> parse s | _ \<Rightarrow> None)"

definition sample_wire :: wire_lib where
  "sample_wire =
     \<lparr>wl_str = text_of_json Some,
      wl_int = (\<lambda>v. case v of JInt i \<Rightarrow> Some i | JStr s \<Rightarrow> int_of_str s | _ \<Rightarrow> None),
      wl_date = text_of_json iso_date, wl_datetime = text_of_json iso_datetime,
      wl_date_text = isoformat, wl_datetime_text = iso_datetime_text,
      wl_error = (\<lambda>v. ''validation error''),
      wl_int_of_float = (\<lambda>t. Inl (ValueError t))\<rparr>"

lemma str_of_nat_length:
  "n < 10 ^ w \<Longrightarrow> 0 < w \<Longrightarrow> length (str_of_nat n) \<le> w"
proof (induction w arbitrary: n)
  case (Suc w)
  show ?case
  proof (cases "n < 10")
    case True
    then show ?thesis by (simp add: str_of_nat.simps [of n])
  next
    case False
    with Suc.prems have "n div 10 < 10 ^ w" "0 < w" by (auto simp: div_less_iff_less_mult ac_simps intro: Nat.gr0I)
    from Suc.IH [OF this] False show ?thesis by (simp add: str_of_nat.simps [of n])
  qed
qed simp

lemma fold_zeros: "((\<lambda>a. 10 * a + digit_value (CHR ''0'')) ^^ k) 0 = 0"
  by (induction k) (simp_all add: digit_value_def)

lemma take_number_padded:
  assumes "n < 10 ^ w" and "0 < w"
  shows "take_number w sep (zero_pad w (str_of_nat n) @ sep @ rest) = Some (n, rest)"
proof -
  let ?p = "zero_pad w (str_of_nat n)"
  have len: "length ?p = w" using str_of_nat_length [OF assms] by (simp add: zero_pad_def)
  have "is_digit (CHR ''0'')" by (simp add: is_digit_def)
  then have "list_all is_digit ?p" using str_of_nat_digits [of n] by (auto simp: zero_pad_def list_all_iff)
  moreover have "fold (\<lambda>c a. 10 * a + digit_value c) ?p 0 = n"
    by (simp add: zero_pad_def fold_zeros fold_digits_str_of_nat)
  moreover have "?p \<noteq> []" using len assms(2) by auto
  ultimately have "nat_of_digits ?p = Some n" by (simp add: nat_of_digits_def)
  with len show ?thesis by (simp add: take_number_def)
qed

lemma take_date_isoformat:
  assumes "valid_date d"
  shows "take_date sep (isoformat d @ sep @ rest) = Some (d, rest)"
proof -
  obtain y m n where d: "d = Date y m n" by (cases d)
  have "month_table ! (m - 1) \<le> 31" if "1 \<le> m" "m \<le> 12"
    using that by (cases m rule: month_cases) (simp_all add: month_table_def)
  then have "days_in_month y m \<le> 31" if "1 \<le> m" "m \<le> 12"
    using that by (auto simp: days_in_month_def)
  with assms d have "y < 10 ^ 4" "m < 10 ^ 2" "n < 10 ^ 2" by auto
  with assms show ?thesis
    using take_number_padded [of y 4 "''-''"] take_number_padded [of m 2 "''-''"] take_number_padded [of n 2 sep]
    by (simp add: take_date_def d)
qed

lemma iso_date_isoformat: "valid_date d \<Longrightarrow> iso_date (isoformat d) = Some d"
  using take_date_isoformat [of d "[]" "[]"] by (simp add: iso_date_def)

lemma iso_datetime_text_read:
  assumes "valid_datetime t"
  shows "iso_datetime (iso_datetime_text t) = Some t"
proof -
  have bounds: "dt_hour t < 10 ^ 2" "dt_minute t < 10 ^ 2" "dt_second t < 10 ^ 2" "dt_microsecond t < 10 ^ 6"
    and d: "valid_date (dt_date t)"
    using assms by (simp_all add: valid_datetime_def)
  have "take_number 6 ''Z'' (zero_pad 6 (str_of_nat (dt_microsecond t)) @ ''Z'') = Some (dt_microsecond t, [])"
    using take_number_padded [OF bounds(4), of "''Z''" "[]"] by simp
  then show ?thesis
    using take_date_isoformat [OF d, of "''T''"] take_number_padded [OF bounds(1), of "'':''"]
      take_number_padded [OF bounds(2), of "'':''"] take_number_padded [OF bounds(3), of "''.''"]
    by (simp add: iso_datetime_def iso_datetime_text_def)
qed

lemma sample_wire_ok: "wire_lib_ok sample_wire"
  by (simp add: wire_lib_ok_def sample_wire_def text_of_json_def iso_date_isoformat iso_datetime_text_read)

end
