(* ===== verification/Wire_Handlers.thy ===== *)
theory Wire_Handlers
  imports Json_Schemas
begin

text \<open>
  The calls between the services as they go over the wire: what a client sends is a JSON body that the
  callee's schema reads and checks, what comes back is the JSON of a response schema that the caller
  takes apart with \<open>get\<close> and subscripts. The lemmas show that on the documented behaviour of the
  validation library the handlers compute exactly what the handlers over typed values do.
\<close>

section \<open>Routes over JSON\<close>

definition json_route ::
  "('a \<Rightarrow> json) \<Rightarrow> (json \<Rightarrow> 'p option) \<Rightarrow> ('p \<Rightarrow> 's \<Rightarrow> 's \<times> 'a http_response) \<Rightarrow> json \<Rightarrow> 's
    \<Rightarrow> 's \<times> json http_response" where
  "json_route enc read_body route body s =
     (case read_body body of
        None \<Rightarrow> (s, Error_response 422 ValidationErrors)
      | Some p \<Rightarrow> (case route p s of (s', r) \<Rightarrow> (s', encode_response enc r)))"

definition update_status_json ::
  "wire_lib \<Rightarrow> datetime \<Rightarrow> string \<Rightarrow> json \<Rightarrow> request_state \<Rightarrow> request_state \<times> json http_response" where
  "update_status_json L now request_id =
     json_route (LeaveRequestResponse_json L) (StatusUpdateRequest_read L) (update_status_endpoint now request_id)"

definition deduct_json :: "wire_lib \<Rightarrow> json \<Rightarrow> balance_state \<Rightarrow> balance_state \<times> json http_response" where
  "deduct_json L = json_route DeductResponse_json (DeductRequest_read L) deduct_endpoint"

definition requests_json :: "wire_lib \<Rightarrow> LeaveRequestResponse list \<Rightarrow> json" where
  "requests_json L rs = JList (map (LeaveRequestResponse_json L) rs)"

text \<open>Query parameters are texts; a date among them is read as any other text is.\<close>

definition text_date :: "wire_lib \<Rightarrow> string \<Rightarrow> date option" where
  "text_date L s = wl_date L (JStr s)"

definition internal_list_json ::
  "wire_lib \<Rightarrow> (string, string) dict \<Rightarrow> request_state \<Rightarrow> json http_response" where
  "internal_list_json L params s =
     encode_response (requests_json L) (internal_list_endpoint (text_date L) params s)"

section \<open>Clients\<close>

text \<open>\<open>balance_client.fetch_remaining\<close>\<close>

definition fetch_remaining_json ::
  "wire_lib \<Rightarrow> net \<Rightarrow> string \<Rightarrow> LeaveType \<Rightarrow> balance_state \<Rightarrow> balance_state \<times> int result" where
  "fetch_remaining_json L n employee_id leave_type bal =
     (case http_call n
        (\<lambda>b. (b, encode_response EmployeeBalancesResponse_json
                  (employee_balances_endpoint b employee_id (Some employee_id) (Some (Role_value EMPLOYEE))))) bal
      of (bal', response) \<Rightarrow>
        (bal', and_then response (\<lambda>resp.
           and_then (raise_for_status_json resp) (remaining_json L leave_type))))"

definition list_team_json ::
  "wire_lib \<Rightarrow> net \<Rightarrow> string \<Rightarrow> string option \<Rightarrow> string option \<Rightarrow> string option \<Rightarrow> string option
    \<Rightarrow> request_state \<Rightarrow> json http_response result" where
  "list_team_json L n manager_id status employee_id from_date to_date s =
     snd (http_call n (\<lambda>s. (s, internal_list_json L
       (team_params manager_id status employee_id from_date to_date) s)) s)"

definition get_request_json :: "wire_lib \<Rightarrow> net \<Rightarrow> string \<Rightarrow> request_state \<Rightarrow> json http_response result" where
  "get_request_json L n request_id s =
     snd (http_call n (\<lambda>s. (s, internal_list_json L [(''request_id'', request_id)] s)) s)"

definition status_body :: "string \<Rightarrow> LeaveStatus \<Rightarrow> string option \<Rightarrow> payload" where
  "status_body manager_id new_status rejection_reason =
     (let body = [(''new_status'', JStr (LeaveStatus_value new_status)), (''manager_id'', JStr manager_id)]
      in case rejection_reason of
           None \<Rightarrow> body
         | Some reason \<Rightarrow> dict_put body ''rejection_reason'' (JStr reason))"

definition set_status_json ::
  "wire_lib \<Rightarrow> net \<Rightarrow> datetime \<Rightarrow> string \<Rightarrow> string \<Rightarrow> LeaveStatus \<Rightarrow> string option \<Rightarrow> request_state
    \<Rightarrow> request_state \<times> json http_response result" where
  "set_status_json L n now request_id manager_id new_status rejection_reason s =
     http_call n (update_status_json L now request_id (JObj (status_body manager_id new_status rejection_reason))) s"

text \<open>The employee and the days are values of the request's JSON, sent on as they are.\<close>

definition deduct_balance_json ::
  "wire_lib \<Rightarrow> net \<Rightarrow> json \<Rightarrow> LeaveType \<Rightarrow> json \<Rightarrow> balance_state \<Rightarrow> balance_state \<times> json http_response result" where
  "deduct_balance_json L n employee_id leave_type days s =
     http_call n (deduct_json L (JObj
       [(''employee_id'', employee_id), (''leave_type'', JStr (LeaveType_value leave_type)), (''days'', days)])) s"

section \<open>The manager's handlers\<close>

text \<open>\<open>items[0]\<close>, \<open>leave_request[k]\<close> and \<open>LeaveType(v)\<close> on decoded values.\<close>

definition not_subscriptable :: "json \<Rightarrow> exn" where
  "not_subscriptable v = TypeError ([CHR 0x27] @ json_type v @ [CHR 0x27] @ '' object is not subscriptable'')"

definition first_item :: "json \<Rightarrow> json result" where
  "first_item v =
     (case v of
        JList (x # xs) \<Rightarrow> Inr x
      | JStr (c # cs) \<Rightarrow> Inr (JStr [c])
      | JObj kvs \<Rightarrow> Inl (KeyError ''0'')
      | _ \<Rightarrow> Inl (not_subscriptable v))"

definition json_item :: "json \<Rightarrow> string \<Rightarrow> json result" where
  "json_item v k =
     (case v of
        JObj kvs \<Rightarrow> (case dict_get kvs k of None \<Rightarrow> Inl (KeyError (repr_str k)) | Some x \<Rightarrow> Inr x)
      | JList xs \<Rightarrow> Inl (TypeError ''list indices must be integers or slices, not str'')
      | JStr s \<Rightarrow> Inl (TypeError (''string indices must be integers, not '' @ [CHR 0x27] @ ''str'' @ [CHR 0x27]))
      | _ \<Rightarrow> Inl (not_subscriptable v))"

definition leave_type_of_json :: "json \<Rightarrow> LeaveType result" where
  "leave_type_of_json v =
     (case enum_json LeaveType_of v of
        None \<Rightarrow> Inl (ValueError (json_repr v @ '' is not a valid LeaveType''))
      | Some t \<Rightarrow> Inr t)"

definition load_team_request_json ::
  "wire_lib \<Rightarrow> net \<Rightarrow> string \<Rightarrow> string \<Rightarrow> request_state \<Rightarrow> json result" where
  "load_team_request_json L n request_id manager_id s =
     and_then (map_call_error (get_request_json L n request_id s)) (\<lambda>response.
     and_then (propagate response) (\<lambda>items.
       if \<not> json_truthy items then Inl (HTTPException 404 (Msg ''Leave request not found''))
       else and_then (first_item items) (\<lambda>leave_request.
         and_then (json_get leave_request ''reporting_manager_id'' JNull) (\<lambda>reporting_manager_id.
           if reporting_manager_id \<noteq> JStr manager_id
           then Inl (HTTPException 403 (Msg ''This request is not routed to you''))
           else Inr leave_request))))"

definition load_pending_json ::
  "wire_lib \<Rightarrow> string \<Rightarrow> net \<Rightarrow> string \<Rightarrow> CallerIdentity \<Rightarrow> request_state \<Rightarrow> json result" where
  "load_pending_json L verb n request_id caller s =
     and_then (load_team_request_json L n request_id (ci_user_id caller) s) (\<lambda>leave_request.
     and_then (json_get leave_request ''status'' JNull) (\<lambda>status.
       if status \<noteq> JStr (LeaveStatus_value PENDING)
       then Inl (HTTPException 409 (Msg (''Only a PENDING request can be '' @ verb
              @ '' (current status: '' @ json_str status @ '')'')))
       else Inr leave_request))"

fun views_of :: "wire_lib \<Rightarrow> json list \<Rightarrow> ManagerRequestView list result" where
  "views_of L [] = Inr []"
| "views_of L (item # items) =
     and_then (from_payload L item) (\<lambda>view. and_then (views_of L items) (\<lambda>views. Inr (view # views)))"

definition manager_list_json ::
  "wire_lib \<Rightarrow> net \<Rightarrow> CallerIdentity \<Rightarrow> string option \<Rightarrow> string option \<Rightarrow> string option
    \<Rightarrow> string option \<Rightarrow> request_state \<Rightarrow> ManagerRequestView list result" where
  "manager_list_json L n caller status employee_id from_date to_date s =
     and_then (map_call_error
       (list_team_json L n (ci_user_id caller) status employee_id from_date to_date s))
       (\<lambda>response. and_then (propagate response) (\<lambda>items. and_then (json_items items) (views_of L)))"

text \<open>The function handed to the breaker takes the request's JSON apart inside it.\<close>

definition deduct_call ::
  "wire_lib \<Rightarrow> net \<Rightarrow> json \<Rightarrow> balance_state \<Rightarrow> balance_state \<times> json http_response result" where
  "deduct_call L n leave_request bal =
     (case and_then (json_item leave_request ''employee_id'') (\<lambda>employee_id.
           and_then (and_then (json_item leave_request ''leave_type'') leave_type_of_json) (\<lambda>leave_type.
           and_then (json_item leave_request ''number_of_days'') (\<lambda>days.
             Inr (employee_id, leave_type, days)))) of
        Inl e \<Rightarrow> (bal, Inl e)
      | Inr (employee_id, leave_type, days) \<Rightarrow> deduct_balance_json L n employee_id leave_type days bal)"

definition approve_deduct_json ::
  "wire_lib \<Rightarrow> 'b breaker_ops \<Rightarrow> call_env \<Rightarrow> json \<Rightarrow> 'b \<times> balance_state \<Rightarrow> ('b \<times> balance_state) \<times> json result" where
  "approve_deduct_json L ops env leave_request cb_bal =
     (case invoke_with_breaker ops (ce_before env) (ce_after env) (deduct_call L (ce_net env) leave_request) cb_bal
      of (cb_bal', response) \<Rightarrow> (cb_bal', and_then (map_call_error response) propagate))"

definition decide_update_json ::
  "wire_lib \<Rightarrow> 'b breaker_ops \<Rightarrow> call_env \<Rightarrow> datetime \<Rightarrow> string \<Rightarrow> string \<Rightarrow> LeaveStatus \<Rightarrow> string option
    \<Rightarrow> 'b \<times> request_state \<Rightarrow> ('b \<times> request_state) \<times> json result" where
  "decide_update_json L ops env now request_id manager_id new_status rejection_reason cb_req =
     (case invoke_with_breaker ops (ce_before env) (ce_after env)
             (set_status_json L (ce_net env) now request_id manager_id new_status rejection_reason) cb_req
      of (cb_req', response) \<Rightarrow> (cb_req', and_then (map_call_error response) propagate))"

text \<open>The employee of the event is read from the JSON, and the view built, after the event is on its way.\<close>

definition approve_json ::
  "wire_lib \<Rightarrow> 'b breaker_ops \<Rightarrow> net \<Rightarrow> call_env \<Rightarrow> call_env \<Rightarrow> datetime \<Rightarrow> string \<Rightarrow> CallerIdentity
    \<Rightarrow> 'b world \<Rightarrow> 'b world \<times> event list \<times> ManagerRequestView result" where
  "approve_json L ops n_load env_deduct env_update now request_id caller w =
     (case load_pending_json L ''approved'' n_load request_id caller (w_req w) of
        Inl e \<Rightarrow> (w, [], Inl e)
      | Inr leave_request \<Rightarrow>
          (case approve_deduct_json L ops env_deduct leave_request (w_mgr_bal_cb w, w_bal w) of
             ((cb, bal), deducted) \<Rightarrow>
               let w1 = w\<lparr>w_mgr_bal_cb := cb, w_bal := bal\<rparr>
               in (case deducted of
                     Inl e \<Rightarrow> (w1, [], Inl e)
                   | Inr _ \<Rightarrow>
                       (case decide_update_json L ops env_update now request_id (ci_user_id caller) APPROVED None
                               (w_mgr_req_cb w1, w_req w1) of
                          ((cb', req), updated) \<Rightarrow>
                            let w2 = w1\<lparr>w_mgr_req_cb := cb', w_req := req\<rparr>
                            in (case and_then updated (\<lambda>u.
                                  and_then (json_item leave_request ''employee_id'') (\<lambda>e. Inr (u, e))) of
                                  Inl e \<Rightarrow> (w2, [], Inl e)
                                | Inr (u, employee_id) \<Rightarrow>
                                    (w2, [(LEAVE_APPROVED,
                                           [(''employee_id'', employee_id),
                                            (''leave_request_id'', JStr request_id)])],
                                     from_payload L u))))))"

definition reject_json ::
  "wire_lib \<Rightarrow> 'b breaker_ops \<Rightarrow> net \<Rightarrow> call_env \<Rightarrow> datetime \<Rightarrow> string \<Rightarrow> string \<Rightarrow> CallerIdentity
    \<Rightarrow> 'b world \<Rightarrow> 'b world \<times> event list \<times> ManagerRequestView result" where
  "reject_json L ops n_load env_update now request_id rejection_reason caller w =
     (case load_pending_json L ''rejected'' n_load request_id caller (w_req w) of
        Inl e \<Rightarrow> (w, [], Inl e)
      | Inr leave_request \<Rightarrow>
          (case decide_update_json L ops env_update now request_id (ci_user_id caller) REJECTED
                  (Some rejection_reason) (w_mgr_req_cb w, w_req w) of
             ((cb, req), updated) \<Rightarrow>
               let w1 = w\<lparr>w_mgr_req_cb := cb, w_req := req\<rparr>
               in (case and_then updated (\<lambda>u.
                     and_then (json_item leave_request ''employee_id'') (\<lambda>e. Inr (u, e))) of
                     Inl e \<Rightarrow> (w1, [], Inl e)
                   | Inr (u, employee_id) \<Rightarrow>
                       (w1, [(LEAVE_REJECTED,
                              [(''employee_id'', employee_id),
                               (''leave_request_id'', JStr request_id),
                               (''reason'', JStr rejection_reason)])],
                        from_payload L u))))"

section \<open>Encoding commutes with the calls\<close>

text \<open>A result whose value is encoded.\<close>

definition map_result :: "('a \<Rightarrow> 'b) \<Rightarrow> 'a result \<Rightarrow> 'b result" where
  "map_result f r = and_then r (\<lambda>a. Inr (f a))"

lemma map_result_simps [simp]:
  "map_result f (Inl e) = Inl e" "map_result f (Inr a) = Inr (f a)"
  by (simp_all add: map_result_def)

lemma map_result_iff:
  "map_result f r = Inl e \<longleftrightarrow> r = Inl e" "map_result f r = Inr b \<longleftrightarrow> (\<exists>a. r = Inr a \<and> b = f a)"
  by (cases r; auto)+

lemma propagate_encode [simp]: "propagate (encode_response f r) = map_result f (propagate r)"
  by (cases r) simp_all

lemma map_call_error_map [simp]: "map_call_error (map_result f r) = map_result f (map_call_error r)"
  by (cases r) (auto simp: map_call_error_def split: exn.splits)

lemma raise_for_status_encode [simp]:
  "raise_for_status_json (encode_response f r) = map_result f (raise_for_status_json r)"
  by (cases r) simp_all

lemma and_then_map_result [simp]: "and_then (map_result f r) g = and_then r (\<lambda>a. g (f a))"
  by (cases r) simp_all

lemma map_result_and_then: "map_result f (and_then r g) = and_then r (\<lambda>a. map_result f (g a))"
  by (cases r) simp_all

definition relates :: "('a \<Rightarrow> 'b) \<Rightarrow> ('s \<Rightarrow> 's \<times> 'a result) \<Rightarrow> ('s \<Rightarrow> 's \<times> 'b result) \<Rightarrow> 's \<Rightarrow> bool" where
  "relates f c c' s \<longleftrightarrow> c' s = (fst (c s), map_result f (snd (c s)))"

lemma http_call_encode:
  assumes "h' s = (fst (h s), encode_response f (snd (h s)))"
  shows "relates (encode_response f) (http_call n h) (http_call n h') s"
  using assms by (cases n) (simp_all add: relates_def http_call_def split: prod.splits)

lemma invoke_encode:
  assumes "relates f c c' s"
  shows "invoke_with_breaker ops t0 t1 c' (b, s) =
    (fst (invoke_with_breaker ops t0 t1 c (b, s)), map_result f (snd (invoke_with_breaker ops t0 t1 c (b, s))))"
  using assms unfolding relates_def
  by (cases "c s"; cases "snd (c s)")
    (auto simp: invoke_with_breaker_def split: prod.splits sum.splits)

lemma json_route_read:
  assumes "read_body body = Some p"
  shows "json_route enc read_body route body s = (fst (route p s), encode_response enc (snd (route p s)))"
  using assms by (simp add: json_route_def split: prod.splits)

section \<open>The calls over JSON are the calls over typed values\<close>

lemma fetch_remaining_agrees:
  "fetch_remaining_json L n employee_id leave_type bal = fetch_remaining n employee_id leave_type bal"
proof -
  let ?h = "\<lambda>b. (b, employee_balances_endpoint b employee_id (Some employee_id) (Some (Role_value EMPLOYEE)))"
  let ?h' = "\<lambda>b. (b, encode_response EmployeeBalancesResponse_json (snd (?h b)))"
  have "relates (encode_response EmployeeBalancesResponse_json) (http_call n ?h) (http_call n ?h') bal"
    by (rule http_call_encode) simp
  then have "http_call n ?h' bal =
      (fst (http_call n ?h bal), map_result (encode_response EmployeeBalancesResponse_json) (snd (http_call n ?h bal)))"
    by (simp only: relates_def)
  then show ?thesis
    by (simp add: fetch_remaining_json_def fetch_remaining_def remaining_json_response split: prod.splits)
qed

lemma StatusUpdateRequest_read_body:
  assumes "wire_lib_ok L"
  shows "StatusUpdateRequest_read L (JObj (status_body m st why)) =
    Some \<lparr>sr_new_status = st, sr_manager_id = m, sr_rejection_reason = why\<rparr>"
  using assms
  by (cases why) (simp_all add: status_body_def StatusUpdateRequest_read_def dict_put_def)

lemma set_status_relates:
  assumes "wire_lib_ok L"
  shows "relates (encode_response (LeaveRequestResponse_json L))
    (set_request_status n now i m st why) (set_status_json L n now i m st why) s"
  unfolding set_status_json_def set_request_status_def relates_def
  by (rule http_call_encode [unfolded relates_def])
    (simp add: update_status_json_def json_route_read [of "StatusUpdateRequest_read L",
        OF StatusUpdateRequest_read_body [OF assms]])

lemma decide_update_agrees:
  assumes "wire_lib_ok L"
  shows "decide_update_json L ops env now i m st why (cb, s) =
    (fst (decide_update ops env now i m st why (cb, s)),
     map_result (LeaveRequestResponse_json L) (snd (decide_update ops env now i m st why (cb, s))))"
  using invoke_encode [OF set_status_relates [OF assms], of ops "ce_before env" "ce_after env" "ce_net env" now i m st why cb s]
  by (simp add: decide_update_json_def decide_update_def map_result_and_then split: prod.splits)

lemma LeaveRequestResponse_json_item:
  "json_item (LeaveRequestResponse_json L r) ''employee_id'' = Inr (JStr (rr_employee_id r))"
  "json_item (LeaveRequestResponse_json L r) ''leave_type'' = Inr (JStr (LeaveType_value (rr_leave_type r)))"
  "json_item (LeaveRequestResponse_json L r) ''number_of_days'' = Inr (JInt (rr_number_of_days r))"
  "json_get (LeaveRequestResponse_json L r) ''reporting_manager_id'' d = Inr (JStr (rr_reporting_manager_id r))"
  "json_get (LeaveRequestResponse_json L r) ''status'' d = Inr (JStr (LeaveStatus_value (rr_status r)))"
  by (simp_all add: LeaveRequestResponse_json_def json_item_def json_get_def dict_get_def)

lemma deduct_call_relates:
  assumes "wire_lib_ok L"
  shows "relates (encode_response DeductResponse_json)
    (client_deduct_balance n (rr_employee_id r) (rr_leave_type r) (rr_number_of_days r))
    (deduct_call L n (LeaveRequestResponse_json L r)) bal"
proof -
  have "deduct_call L n (LeaveRequestResponse_json L r) bal = deduct_balance_json L n (JStr (rr_employee_id r))
      (rr_leave_type r) (JInt (rr_number_of_days r)) bal"
    by (simp add: deduct_call_def LeaveRequestResponse_json_item leave_type_of_json_def)
  moreover have "relates (encode_response DeductResponse_json)
    (client_deduct_balance n (rr_employee_id r) (rr_leave_type r) (rr_number_of_days r))
    (deduct_balance_json L n (JStr (rr_employee_id r)) (rr_leave_type r) (JInt (rr_number_of_days r))) bal"
    unfolding deduct_balance_json_def client_deduct_balance_def relates_def
    by (rule http_call_encode [unfolded relates_def])
      (simp add: deduct_json_def json_route_read [of "DeductRequest_read L", OF DeductRequest_read_body [OF assms]])
  ultimately show ?thesis by (simp add: relates_def)
qed

lemma approve_deduct_agrees:
  assumes "wire_lib_ok L"
  shows "approve_deduct_json L ops env (LeaveRequestResponse_json L r) (cb, bal) =
    (fst (approve_deduct ops env r (cb, bal)), map_result DeductResponse_json (snd (approve_deduct ops env r (cb, bal))))"
  using invoke_encode [OF deduct_call_relates [OF assms], of ops "ce_before env" "ce_after env" "ce_net env" r cb bal]
  by (simp add: approve_deduct_json_def approve_deduct_def map_result_and_then split: prod.splits)

lemma get_request_json_agrees:
  "get_request_json L n i s = map_result (encode_response (requests_json L)) (client_get_request n i s)"
proof -
  have "internal_list_json L [(''request_id'', i)] s =
      encode_response (requests_json L) (respond 200 (list_requests s None None (Some i) None None None))"
    by (simp add: internal_list_json_def internal_list_endpoint_def parse_param_def dict_get_def)
  then show ?thesis
    by (cases n) (simp_all add: get_request_json_def client_get_request_def http_call_def)
qed

lemma load_pending_agrees:
  "load_pending_json L verb n i caller s = map_result (LeaveRequestResponse_json L) (load_pending verb n i caller s)"
proof -
  have items: "(if \<not> json_truthy (requests_json L items) then Inl (HTTPException 404 (Msg ''Leave request not found''))
      else and_then (first_item (requests_json L items)) (\<lambda>lr.
        and_then (json_get lr ''reporting_manager_id'' JNull) (\<lambda>m.
          if m \<noteq> JStr manager_id then Inl (HTTPException 403 (Msg ''This request is not routed to you'')) else Inr lr)))
    = map_result (LeaveRequestResponse_json L) (case items of
         [] \<Rightarrow> Inl (HTTPException 404 (Msg ''Leave request not found''))
       | lr # _ \<Rightarrow> if rr_reporting_manager_id lr \<noteq> manager_id
           then Inl (HTTPException 403 (Msg ''This request is not routed to you'')) else Inr lr)" for items manager_id
    by (cases items) (simp_all add: requests_json_def json_truthy_def first_item_def LeaveRequestResponse_json_item)
  have "load_team_request_json L n i (ci_user_id caller) s =
      map_result (LeaveRequestResponse_json L) (load_team_request n i (ci_user_id caller) s)"
    unfolding load_team_request_json_def load_team_request_def get_request_json_agrees
    by (simp add: items map_result_and_then)
  then show ?thesis
    unfolding load_pending_json_def load_pending_def
    by (simp add: map_result_and_then LeaveRequestResponse_json_item del: LeaveStatus_value.simps)
      (intro arg_cong2 [where f = and_then] refl ext; simp del: LeaveStatus_value.simps)
qed

section \<open>What comes back can be read\<close>

definition stamps_ok :: "request_state \<Rightarrow> bool" where
  "stamps_ok s \<longleftrightarrow>
     (\<forall>i r. get_request s i = Some r \<longrightarrow> valid_datetime (lr_created_at r) \<and> valid_datetime (lr_updated_at r))"

lemma sendable_stored:
  assumes "wf_requests s" and "stamps_ok s" and "get_request s i = Some r"
  shows "sendable (LeaveRequestResponse_from_model r)"
  using wf_requestsD(4) [OF assms(1,3)] assms(2,3)
  by (auto simp: sendable_def LeaveRequestResponse_from_model_def request_ok_def stamps_ok_def)

lemma decided_sendable:
  assumes "wf_requests s" and "stamps_ok s" and "valid_datetime now"
    and "snd (decide_update ops env now i m st why (cb, s)) = Inr b"
  shows "sendable b"
proof -
  have "update_request_status now i \<lparr>sr_new_status = st, sr_manager_id = m, sr_rejection_reason = why\<rparr> s
      = (snd (fst (decide_update ops env now i m st why (cb, s))), Inr b)"
    by (rule decide_update_ok [OF assms(4)])
  then obtain r where r: "get_request s i = Some r"
    and b: "b = LeaveRequestResponse_from_model (snd (set_status now r st why s))"
    by (auto simp: update_request_status_def split: option.splits if_splits prod.splits)
  from sendable_stored [OF assms(1,2) r] assms(3) show ?thesis
    by (simp add: b set_status_def sendable_def LeaveRequestResponse_from_model_def Let_def)
qed

lemma approve_agrees:
  assumes "wire_lib_ok L" and "wf_requests (w_req w)" and "stamps_ok (w_req w)" and "valid_datetime now"
  shows "approve_json L ops n env1 env2 now i caller w = approve_request ops n env1 env2 now i caller w"
proof (cases "load_pending ''approved'' n i caller (w_req w)")
  case (Inl e)
  then show ?thesis by (simp add: approve_json_def approve_request_def load_pending_agrees)
next
  case (Inr lr)
  note load = Inr
  obtain cb bal dres where d: "approve_deduct ops env1 lr (w_mgr_bal_cb w, w_bal w) = ((cb, bal), dres)"
    by (metis prod.collapse)
  obtain cb' req ures where u: "decide_update ops env2 now i (ci_user_id caller) APPROVED None
      (w_mgr_req_cb w, w_req w) = ((cb', req), ures)"
    by (metis prod.collapse)
  have view: "from_payload L (LeaveRequestResponse_json L b) = Inr (ManagerRequestView_from_payload b)" if "ures = Inr b" for b
    using decided_sendable [OF assms(2-4), of ops env2 i "ci_user_id caller" APPROVED None "w_mgr_req_cb w" b] that u
    by (intro from_payload_json [OF assms(1)]) simp
  show ?thesis
    unfolding approve_json_def approve_request_def load_pending_agrees load
    by (cases dres; cases ures)
      (simp_all add: approve_deduct_agrees [OF assms(1)] decide_update_agrees [OF assms(1)] d u view
        LeaveRequestResponse_json_item approved_event_def)
qed

lemma reject_agrees:
  assumes "wire_lib_ok L" and "wf_requests (w_req w)" and "stamps_ok (w_req w)" and "valid_datetime now"
  shows "reject_json L ops n env now i reason caller w = reject_request ops n env now i reason caller w"
proof (cases "load_pending ''rejected'' n i caller (w_req w)")
  case (Inl e)
  then show ?thesis by (simp add: reject_json_def reject_request_def load_pending_agrees)
next
  case (Inr lr)
  note load = Inr
  obtain cb' req ures where u: "decide_update ops env now i (ci_user_id caller) REJECTED (Some reason)
      (w_mgr_req_cb w, w_req w) = ((cb', req), ures)"
    by (metis prod.collapse)
  have view: "from_payload L (LeaveRequestResponse_json L b) = Inr (ManagerRequestView_from_payload b)" if "ures = Inr b" for b
    using decided_sendable [OF assms(2-4), of ops env i "ci_user_id caller" REJECTED "Some reason" "w_mgr_req_cb w" b] that u
    by (intro from_payload_json [OF assms(1)]) simp
  show ?thesis
    unfolding reject_json_def reject_request_def load_pending_agrees load
    by (cases ures)
      (simp_all add: decide_update_agrees [OF assms(1)] u view LeaveRequestResponse_json_item rejected_event_def)
qed

lemma views_of_agrees:
  assumes "wire_lib_ok L" and "\<And>r. r \<in> set rs \<Longrightarrow> sendable r"
  shows "views_of L (map (LeaveRequestResponse_json L) rs) = Inr (map ManagerRequestView_from_payload rs)"
  using assms(2) by (induction rs) (simp_all add: from_payload_json [OF assms(1)])

lemma list_requests_sendable:
  assumes "wf_requests s" and "stamps_ok s" and "list_requests s m e i st fd td = Inr rs" and "b \<in> set rs"
  shows "sendable b"
proof -
  have sub: "set (keep_if f t xs) \<subseteq> set xs" for f t and xs :: "LeaveRequest list"
    by (auto simp: keep_if_def split: option.splits)
  obtain xs where base: "(case i of
          Some i \<Rightarrow> Inr (case get_request s i of None \<Rightarrow> [] | Some found \<Rightarrow> [found])
        | None \<Rightarrow> (case m of Some m \<Rightarrow> get_requests_for_manager s m
             | None \<Rightarrow> (case e of Some e \<Rightarrow> get_requests_for_employee s e | None \<Rightarrow> Inr (dict_values (requests_store s)))))
      = Inr xs"
    and ys: "\<exists>ys. set ys \<subseteq> set xs \<and> rs = map LeaveRequestResponse_from_model ys"
    using assms(3) sub unfolding list_requests_def Let_def and_then_Inr_iff by (metis (no_types, lifting) Inr_inject subset_trans)
  from ys assms(4) obtain r where r: "r \<in> set xs" and b: "b = LeaveRequestResponse_from_model r"
    by fastforce
  have "set xs \<subseteq> {r. \<exists>j. get_request s j = Some r}"
    using base in_requests_iff [OF assms(1)]
    by (auto simp: requests_for_manager [OF assms(1)] requests_for_employee [OF assms(1)] split: option.splits)
  with r obtain j where "get_request s j = Some r" by auto
  from sendable_stored [OF assms(1,2) this] show ?thesis by (simp add: b)
qed

lemma list_team_agrees:
  "list_team_json L n m st e fd td s =
    map_result (encode_response (requests_json L)) (list_team_requests (text_date L) n m st e fd td s)"
  by (cases n) (simp_all add: list_team_json_def list_team_requests_def internal_list_json_def http_call_def)

lemma internal_list_sendable:
  assumes "wf_requests s" and "stamps_ok s" and "internal_list_endpoint parse params s = Ok_response c rs" and "b \<in> set rs"
  shows "sendable b"
proof -
  obtain st fd td where "list_requests s (dict_get params ''manager_id'') (dict_get params ''employee_id'')
      (dict_get params ''request_id'') st fd td = Inr rs"
    using assms(3) by (auto simp: internal_list_endpoint_def respond_Ok_iff and_then_Inr_iff)
  from list_requests_sendable [OF assms(1,2) this assms(4)] show ?thesis .
qed

lemma propagate_Inr_iff: "propagate r = Inr a \<longleftrightarrow> (\<exists>c. r = Ok_response c a)"
  by (cases r) auto

lemma manager_list_agrees:
  assumes "wire_lib_ok L" and "wf_requests s" and "stamps_ok s"
  shows "manager_list_json L n caller st e fd td s = manager_list_requests (text_date L) n caller st e fd td s"
proof -
  let ?call = "list_team_requests (text_date L) n (ci_user_id caller) st e fd td s"
  have views: "and_then (json_items (requests_json L rs)) (views_of L) = Inr (map ManagerRequestView_from_payload rs)"
    if "?call = Inr (Ok_response c rs)" for c rs
  proof -
    have "sendable b" if "b \<in> set rs" for b
      using internal_list_sendable [OF assms(2,3) _ that] \<open>?call = _\<close>
      by (cases n) (auto simp: list_team_requests_def http_call_def)
    then show ?thesis by (simp add: requests_json_def json_items_def views_of_agrees [OF assms(1)])
  qed
  show ?thesis
  proof (cases ?call)
    case (Inl x)
    then show ?thesis by (cases x) (simp_all add: manager_list_json_def manager_list_requests_def list_team_agrees map_call_error_def)
  next
    case (Inr resp)
    with views show ?thesis
      by (cases resp) (auto simp: manager_list_json_def manager_list_requests_def list_team_agrees map_call_error_def)
  qed
qed

section \<open>Properties\<close>

text \<open>
  C28: what a schema writes another service reads as the same value: the bodies of the deduction and of
  the status update, the views built of a listed request (with the display name added from the org
  chart), and the remaining days looked up in the balances; the last needs nothing of the library.
\<close>

theorem schemas_roundtrip:
  assumes "wire_lib_ok L" and "sendable r"
  shows "DeductRequest_read L (JObj [(''employee_id'', JStr e), (''leave_type'', JStr (LeaveType_value t)), (''days'', JInt n)])
      = Some \<lparr>dr_employee_id = e, dr_leave_type = t, dr_days = n\<rparr>
    \<and> StatusUpdateRequest_read L (JObj (status_body m st why))
      = Some \<lparr>sr_new_status = st, sr_manager_id = m, sr_rejection_reason = why\<rparr>
    \<and> from_payload L (LeaveRequestResponse_json L r) = Inr (ManagerRequestView_from_payload r)
    \<and> remaining_json L t (EmployeeBalancesResponse_json b) = Inr (remaining_of t (eb_balances b))"
  using DeductRequest_read_body [OF assms(1)] StatusUpdateRequest_read_body [OF assms(1)]
    from_payload_json [OF assms] remaining_json_response
  by blast

text \<open>
  C17: over JSON the services work as over typed values. With every body, response and view taken apart
  key by key as the code does it, and for every fate of the calls and breakers, approving, rejecting, the
  team list and the balance lookup of an application leave the same stores and breakers, publish
  the same events and answer the same as the handlers over typed values, so no missing key, type error or
  validation error can occur between the services.
\<close>

theorem wire_handlers_agree:
  assumes "wire_lib_ok L" and "wf_requests (w_req w)" and "stamps_ok (w_req w)" and "valid_datetime now"
  shows "approve_json L ops n env1 env2 now i caller w = approve_request ops n env1 env2 now i caller w
    \<and> reject_json L ops n env1 now i reason caller w = reject_request ops n env1 now i reason caller w
    \<and> manager_list_json L n caller st e fd td (w_req w)
        = manager_list_requests (text_date L) n caller st e fd td (w_req w)
    \<and> fetch_remaining_json L n employee_id leave_type (w_bal w) = fetch_remaining n employee_id leave_type (w_bal w)"
  by (intro conjI approve_agrees [OF assms] reject_agrees [OF assms] manager_list_agrees [OF assms(1-3)]
      fetch_remaining_agrees)

end
