(* ===== verification/Platform.thy ===== *)
theory Platform
  imports Wire_Handlers Gateway_Properties Leave_System Service_Startup
begin

text \<open>
  The platform as a client sees it: each service's application with its route table, the reading of
  the identity headers, the query and the body, and the answer that a result becomes; and one client
  request through the gateway to the service behind the route and back, with its effect on the stores
  of the services. Requests are served one at a time; what can happen between the awaits of
  concurrent ones is the subject of \<open>Leave_System\<close>.
\<close>

section \<open>The framework and the environment of a request\<close>

text \<open>
  The web framework's part: the lookup of a header, the body read as JSON (\<open>None\<close> when it is none, null
  when there is no body), the text of a JSON value, its list of validation errors, the headers of a JSON
  answer, and what it answers to a request no route takes.
\<close>

record framework =
  fw_header :: "headers \<Rightarrow> string \<Rightarrow> string option"
  fw_body :: "wire_request \<Rightarrow> json option"
  fw_dumps :: "json \<Rightarrow> string"
  fw_errors :: json
  fw_headers :: "string \<Rightarrow> headers"
  fw_unrouted :: "wire_request \<Rightarrow> wire_response"

text \<open>
  What is fixed for a deployment: the libraries, the gateway's environment, the users and settings of
  the Auth Service, and which service listens at a URL (with the path it is asked for).
\<close>

record 'b deployment =
  de_fw :: framework
  de_lib :: wire_lib
  de_ops :: "'b breaker_ops"
  de_passwords :: password_lib
  de_auth_settings :: Settings
  de_users :: auth_state
  de_gateway :: gateway_env
  de_listening :: "string \<Rightarrow> (string \<times> string) option"
  de_httpx_text :: "httpx_error \<Rightarrow> string"

text \<open>What the clocks, the id generator and the network do during one request.\<close>

record circumstances =
  cc_seconds :: int
  cc_today :: date
  cc_now :: datetime
  cc_created :: datetime
  cc_updated :: datetime
  cc_uuid :: string
  cc_gateway_net :: net
  cc_load_net :: net
  cc_first :: call_env
  cc_second :: call_env

section \<open>Handlers\<close>

text \<open>
  A route's function with its declared dependencies: the caller, the path parameters, the query, the
  body. The framework refuses a body that is not JSON before it resolves the caller, and checks query
  and body after.
\<close>

type_synonym 'b handler =
  "CallerIdentity result \<Rightarrow> string list \<Rightarrow> (string, string) dict \<Rightarrow> json option \<Rightarrow> 'b world
    \<Rightarrow> 'b world \<times> event list \<times> json result"

definition unprocessable :: exn where
  "unprocessable = HTTPException 422 ValidationErrors"

definition answer_only :: "json result \<Rightarrow> 'b world \<Rightarrow> 'b world \<times> event list \<times> json result" where
  "answer_only r w = (w, [], r)"

definition with_caller ::
  "CallerIdentity result \<Rightarrow> (CallerIdentity \<Rightarrow> 'b world \<Rightarrow> 'b world \<times> event list \<times> json result)
    \<Rightarrow> 'b world \<Rightarrow> 'b world \<times> event list \<times> json result" where
  "with_caller caller f w = (case caller of Inl e \<Rightarrow> answer_only (Inl e) w | Inr c \<Rightarrow> f c w)"

definition checked_body :: "(json \<Rightarrow> 'p option) \<Rightarrow> ('p \<Rightarrow> bool) \<Rightarrow> json \<Rightarrow> 'p result" where
  "checked_body read_body valid body =
     (case read_body body of
        None \<Rightarrow> Inl unprocessable
      | Some p \<Rightarrow> if valid p then Inr p else Inl unprocessable)"

definition with_body ::
  "json option \<Rightarrow> (json \<Rightarrow> 'b world \<Rightarrow> 'b world \<times> event list \<times> json result)
    \<Rightarrow> 'b world \<Rightarrow> 'b world \<times> event list \<times> json result" where
  "with_body body f w = (case body of None \<Rightarrow> answer_only (Inl unprocessable) w | Some b \<Rightarrow> f b w)"

text \<open>An integer query parameter with its default and bounds.\<close>

definition int_query ::
  "wire_lib \<Rightarrow> (string, string) dict \<Rightarrow> string \<Rightarrow> int \<Rightarrow> (int \<Rightarrow> bool) \<Rightarrow> int result" where
  "int_query L query k dflt ok =
     (case dict_get query k of
        None \<Rightarrow> Inr dflt
      | Some v \<Rightarrow>
          (case wl_int L (JStr v) of
             None \<Rightarrow> Inl unprocessable
           | Some n \<Rightarrow> if ok n then Inr n else Inl unprocessable))"

definition health_handler :: "lifespan \<Rightarrow> 'b handler" where
  "health_handler service caller args query body = answer_only (Inr (JObj (health_answer service)))"

subsection \<open>Auth and balance\<close>

definition login_handler :: "'b deployment \<Rightarrow> circumstances \<Rightarrow> 'b handler" where
  "login_handler D cc caller args query body = with_body body (\<lambda>b. answer_only
     (and_then (checked_body (LoginRequest_read (de_lib D)) valid_LoginRequest b) (\<lambda>p.
        map_result LoginResponse_json
          (login (de_passwords D) (ge_jwt (de_gateway D)) (de_auth_settings D) (cc_seconds cc) p (de_users D)))))"

definition my_balances_handler :: "'b handler" where
  "my_balances_handler caller args query body w =
     answer_only (and_then caller (\<lambda>c. map_result EmployeeBalancesResponse_json (my_balances (w_bal w) c))) w"

definition employee_balances_handler :: "'b handler" where
  "employee_balances_handler caller args query body w =
     answer_only (and_then caller (\<lambda>c.
       map_result EmployeeBalancesResponse_json (employee_balances (w_bal w) (hd args) c))) w"

definition deduct_handler :: "'b deployment \<Rightarrow> 'b handler" where
  "deduct_handler D caller args query body = with_body body (\<lambda>b w.
     case checked_body (DeductRequest_read (de_lib D)) valid_DeductRequest b of
       Inl e \<Rightarrow> answer_only (Inl e) w
     | Inr p \<Rightarrow>
         (case deduct_balance p (w_bal w) of
            (bal, r) \<Rightarrow> (w\<lparr>w_bal := bal\<rparr>, [], map_result DeductResponse_json r)))"

subsection \<open>Leave requests\<close>

definition apply_handler :: "'b deployment \<Rightarrow> circumstances \<Rightarrow> 'b handler" where
  "apply_handler D cc caller args query body = with_body body (\<lambda>b. with_caller caller (\<lambda>c w.
     case checked_body (ApplyLeaveRequest_read (de_lib D)) valid_ApplyLeaveRequest b of
       Inl e \<Rightarrow> answer_only (Inl e) w
     | Inr p \<Rightarrow>
         (case apply_leave_begin (cc_today cc) c p (w_req w) of
            Inl e \<Rightarrow> answer_only (Inl e) w
          | Inr manager_id \<Rightarrow>
              (case invoke_with_breaker (de_ops D) (ce_before (cc_first cc)) (ce_after (cc_first cc))
                      (fetch_remaining_json (de_lib D) (ce_net (cc_first cc)) (ci_user_id c) (al_leave_type p))
                      (w_req_bal_cb w, w_bal w) of
                 ((cb, bal), outcome) \<Rightarrow>
                   let w1 = w\<lparr>w_req_bal_cb := cb, w_bal := bal\<rparr> in
                   (case apply_leave_finish (cc_uuid cc) (cc_created cc) (cc_updated cc) c p manager_id outcome (w_req w1) of
                      (req, evs, r) \<Rightarrow>
                        (w1\<lparr>w_req := req\<rparr>, evs, map_result (LeaveRequestResponse_json (de_lib D)) r))))))"

definition history_handler :: "'b deployment \<Rightarrow> 'b handler" where
  "history_handler D caller args query body w =
     answer_only (and_then caller (\<lambda>c.
       and_then (int_query (de_lib D) query ''page'' 1 (\<lambda>n. 1 \<le> n)) (\<lambda>page.
       and_then (int_query (de_lib D) query ''page_size'' 10 (\<lambda>n. 1 \<le> n \<and> n \<le> 100)) (\<lambda>page_size.
         map_result (LeaveHistoryResponse_json (de_lib D))
           (leave_history (w_req w) c (dict_get query ''status'') page page_size))))) w"

definition cancel_handler :: "'b deployment \<Rightarrow> circumstances \<Rightarrow> 'b handler" where
  "cancel_handler D cc caller args query body = with_caller caller (\<lambda>c w.
     case cancel_leave (cc_now cc) (hd args) c (w_req w) of
       (req, r) \<Rightarrow> (w\<lparr>w_req := req\<rparr>, [], map_result (LeaveRequestResponse_json (de_lib D)) r))"

definition internal_list_handler :: "'b deployment \<Rightarrow> 'b handler" where
  "internal_list_handler D caller args query body w =
     answer_only (propagate (internal_list_json (de_lib D) query (w_req w))) w"

definition update_status_handler :: "'b deployment \<Rightarrow> circumstances \<Rightarrow> 'b handler" where
  "update_status_handler D cc caller args query body = with_body body (\<lambda>b w.
     case checked_body (StatusUpdateRequest_read (de_lib D)) valid_StatusUpdateRequest b of
       Inl e \<Rightarrow> answer_only (Inl e) w
     | Inr p \<Rightarrow>
         (case update_request_status (cc_now cc) (hd args) p (w_req w) of
            (req, r) \<Rightarrow> (w\<lparr>w_req := req\<rparr>, [], map_result (LeaveRequestResponse_json (de_lib D)) r)))"

subsection \<open>Manager\<close>

definition team_list_handler :: "'b deployment \<Rightarrow> circumstances \<Rightarrow> 'b handler" where
  "team_list_handler D cc caller args query body w =
     answer_only (and_then (require_manager caller) (\<lambda>c.
       map_result (\<lambda>views. JList (map (ManagerRequestView_json (de_lib D)) views))
         (manager_list_json (de_lib D) (cc_load_net cc) c (dict_get query ''status'')
            (dict_get query ''employee_id'') (dict_get query ''from_date'') (dict_get query ''to_date'') (w_req w)))) w"

definition approve_handler :: "'b deployment \<Rightarrow> circumstances \<Rightarrow> 'b handler" where
  "approve_handler D cc caller args query body = with_caller (require_manager caller) (\<lambda>c w.
     case approve_json (de_lib D) (de_ops D) (cc_load_net cc) (cc_first cc) (cc_second cc) (cc_now cc) (hd args) c w of
       (w', evs, r) \<Rightarrow> (w', evs, map_result (ManagerRequestView_json (de_lib D)) r))"

definition reject_handler :: "'b deployment \<Rightarrow> circumstances \<Rightarrow> 'b handler" where
  "reject_handler D cc caller args query body = with_body body (\<lambda>b. with_caller (require_manager caller) (\<lambda>c w.
     case checked_body (RejectLeaveRequest_read (de_lib D)) valid_RejectLeaveRequest b of
       Inl e \<Rightarrow> answer_only (Inl e) w
     | Inr reason \<Rightarrow>
         (case reject_json (de_lib D) (de_ops D) (cc_load_net cc) (cc_second cc) (cc_now cc) (hd args) reason c w of
            (w', evs, r) \<Rightarrow> (w', evs, map_result (ManagerRequestView_json (de_lib D)) r))))"

section \<open>Applications\<close>

text \<open>A service's routes in the order of their declaration: method, template, status of a success.\<close>

type_synonym 'b routes = "(string \<times> segment list \<times> int \<times> 'b handler) list"

definition auth_app :: "'b deployment \<Rightarrow> circumstances \<Rightarrow> 'b routes" where
  "auth_app D cc =
     [(''POST'', [Lit ''auth'', Lit ''login''], 200, login_handler D cc),
      (''GET'', [Lit ''health''], 200, health_handler auth_lifespan)]"

definition balance_app :: "'b deployment \<Rightarrow> circumstances \<Rightarrow> 'b routes" where
  "balance_app D cc =
     [(''GET'', [Lit ''employees'', Lit ''me'', Lit ''balances''], 200, my_balances_handler),
      (''GET'', [Lit ''employees'', Param ''employee_id'', Lit ''balances''], 200, employee_balances_handler),
      (''POST'', [Lit ''internal'', Lit ''balances'', Lit ''deduct''], 200, deduct_handler D),
      (''GET'', [Lit ''health''], 200, health_handler balance_lifespan)]"

definition request_app :: "'b deployment \<Rightarrow> circumstances \<Rightarrow> 'b routes" where
  "request_app D cc =
     [(''POST'', [Lit ''leaves''], 201, apply_handler D cc),
      (''GET'', [Lit ''leaves'', Lit ''history''], 200, history_handler D),
      (''PATCH'', [Lit ''leaves'', Param ''leave_id'', Lit ''cancel''], 200, cancel_handler D cc),
      (''GET'', [Lit ''internal'', Lit ''requests''], 200, internal_list_handler D),
      (''POST'', [Lit ''internal'', Lit ''requests'', Param ''request_id'', Lit ''status''], 200, update_status_handler D cc),
      (''GET'', [Lit ''health''], 200, health_handler request_lifespan)]"

definition manager_app :: "'b deployment \<Rightarrow> circumstances \<Rightarrow> 'b routes" where
  "manager_app D cc =
     [(''GET'', [Lit ''manager'', Lit ''requests''], 200, team_list_handler D cc),
      (''POST'', [Lit ''manager'', Lit ''requests'', Param ''request_id'', Lit ''approve''], 200, approve_handler D cc),
      (''POST'', [Lit ''manager'', Lit ''requests'', Param ''request_id'', Lit ''reject''], 200, reject_handler D cc),
      (''GET'', [Lit ''health''], 200, health_handler manager_lifespan)]"

text \<open>The gateway has no route to the Notification Service; it only answers the registry's health check.\<close>

definition notification_app :: "'b routes" where
  "notification_app = [(''GET'', [Lit ''health''], 200, health_handler notification_lifespan)]"

definition app_of :: "'b deployment \<Rightarrow> circumstances \<Rightarrow> string \<Rightarrow> 'b routes" where
  "app_of D cc service =
     (if service = AUTH_SERVICE then auth_app D cc
      else if service = BALANCE_SERVICE then balance_app D cc
      else if service = REQUEST_SERVICE then request_app D cc
      else if service = MANAGER_SERVICE then manager_app D cc
      else if service = ls_service notification_lifespan then notification_app
      else [])"

fun path_args :: "segment list \<Rightarrow> string list \<Rightarrow> string list" where
  "path_args (Param p # ts) (x # xs) = x # path_args ts xs"
| "path_args (Lit s # ts) (x # xs) = path_args ts xs"
| "path_args ts xs = []"

text \<open>The first route that fits, with the values of its path parameters.\<close>

definition app_route :: "(string \<times> segment list \<times> 'h) list \<Rightarrow> string \<Rightarrow> string \<Rightarrow> ('h \<times> string list) option" where
  "app_route routes http_method path =
     map_option (\<lambda>(m, ts, h). (h, path_args ts (tl (split_path path))))
       (List.find (\<lambda>(m, ts, h). m = http_method \<and> template_matches ts path) routes)"

definition json_answer :: "framework \<Rightarrow> int \<Rightarrow> json \<Rightarrow> wire_response" where
  "json_answer fw code j =
     \<lparr>ws_status = code, ws_headers = fw_headers fw (fw_dumps fw j), ws_content = fw_dumps fw j\<rparr>"

definition detail_json :: "framework \<Rightarrow> detail \<Rightarrow> json" where
  "detail_json fw d = (case d of Msg m \<Rightarrow> JStr m | ValidationErrors \<Rightarrow> fw_errors fw)"

text \<open>A result on the wire: the declared status and the value, or what the exception handler makes of it.\<close>

definition result_answer ::
  "'b deployment \<Rightarrow> string \<Rightarrow> string \<Rightarrow> int \<Rightarrow> json result \<Rightarrow> wire_response \<times> event list" where
  "result_answer D service path ok r =
     (case r of
        Inr j \<Rightarrow> (json_answer (de_fw D) ok j, [])
      | Inl e \<Rightarrow>
          (case unhandled_exception_handler (de_httpx_text D) service path e of
             (Error_response c d, evs) \<Rightarrow> (json_answer (de_fw D) c (JObj [(''detail'', detail_json (de_fw D) d)]), evs)
           | (Ok_response c j, evs) \<Rightarrow> (json_answer (de_fw D) c j, evs)
           | (Other_response c t, evs) \<Rightarrow> (\<lparr>ws_status = c, ws_headers = [], ws_content = t\<rparr>, evs)))"

text \<open>One request in a service whose caller identity is given, and with the one read from the headers.\<close>

definition serve_as ::
  "'b deployment \<Rightarrow> circumstances \<Rightarrow> CallerIdentity result \<Rightarrow> string \<Rightarrow> string \<Rightarrow> wire_request \<Rightarrow> 'b world
    \<Rightarrow> ('b world \<times> event list) \<times> wire_response" where
  "serve_as D cc caller service path wr w =
     (case app_route (app_of D cc service) (wr_method wr) path of
        None \<Rightarrow> ((w, []), fw_unrouted (de_fw D) wr)
      | Some ((ok, handler), args) \<Rightarrow>
          (case handler caller args (wr_params wr) (fw_body (de_fw D) wr) w of
             (w', evs, r) \<Rightarrow>
               (case result_answer D service path ok r of
                  (response, evs') \<Rightarrow> ((w', evs @ evs'), response))))"

definition serve ::
  "'b deployment \<Rightarrow> circumstances \<Rightarrow> string \<Rightarrow> string \<Rightarrow> wire_request \<Rightarrow> 'b world
    \<Rightarrow> ('b world \<times> event list) \<times> wire_response" where
  "serve D cc service path wr =
     serve_as D cc
       (get_caller (fw_header (de_fw D) (wr_headers wr) ''X-User-Id'') (fw_header (de_fw D) (wr_headers wr) ''X-User-Role''))
       service path wr"

section \<open>One client request\<close>

text \<open>The call of the gateway's client: the service that listens at the URL, and the network between.\<close>

definition deliver ::
  "'b deployment \<Rightarrow> circumstances \<Rightarrow> wire_request \<Rightarrow> 'b world \<Rightarrow> ('b world \<times> event list) \<times> wire_response result" where
  "deliver D cc wr w =
     (case de_listening D (wr_url wr) of
        None \<Rightarrow> ((w, []), Inl (HTTPXError ConnectError))
      | Some (service, path) \<Rightarrow>
          (case cc_gateway_net cc of
             Delivered \<Rightarrow> (case serve D cc service path wr w of (eff, resp) \<Rightarrow> (eff, Inr resp))
           | RequestLost e \<Rightarrow> ((w, []), Inl (HTTPXError e))
           | ReplyLost e \<Rightarrow> (case serve D cc service path wr w of (eff, resp) \<Rightarrow> (eff, Inl (HTTPXError e)))))"

text \<open>The request the gateway sends on, if it sends one.\<close>

definition admission :: "gateway_env \<Rightarrow> gw_request \<Rightarrow> payload option option" where
  "admission env rq =
     (if rq_path rq \<in> set PUBLIC_PATHS then Some None
      else case str_partition (CHR '' '')
             (case ge_header env (rq_headers rq) ''Authorization'' of None \<Rightarrow> [] | Some h \<Rightarrow> h) of
          (scheme, sep, token) \<Rightarrow>
            if str_lower scheme \<noteq> ''bearer'' \<or> str_strip token = [] then None
            else case decode_token (ge_jwt env) (ge_settings env) (ge_now env) (str_strip token) of
              Inl e \<Rightarrow> None
            | Inr claims \<Rightarrow> Some (Some claims))"

definition forwarded :: "gateway_env \<Rightarrow> gw_request \<Rightarrow> cursors \<Rightarrow> wire_request option" where
  "forwarded env rq rr =
     (case admission env rq of
        None \<Rightarrow> None
      | Some user \<Rightarrow>
          (case route_of (rq_method rq) (rq_path rq) of
             None \<Rightarrow> None
           | Some service \<Rightarrow>
               (case gateway_resolve (ge_consul env service) service rr of
                  (rr', Inl e) \<Rightarrow> None
                | (rr', Inr base_url) \<Rightarrow> Some (outgoing base_url user rq))))"

record 'b platform =
  pf_world :: "'b world"
  pf_cursors :: cursors
  pf_outbox :: "event list"

definition gateway_at :: "'b deployment \<Rightarrow> circumstances \<Rightarrow> 'b world \<Rightarrow> gateway_env" where
  "gateway_at D cc w =
     (de_gateway D)\<lparr>ge_now := cc_seconds cc, ge_send := (\<lambda>wr. snd (deliver D cc wr w))\<rparr>"

definition platform_step ::
  "'b deployment \<Rightarrow> circumstances \<Rightarrow> gw_request \<Rightarrow> 'b platform \<Rightarrow> 'b platform \<times> gw_response" where
  "platform_step D cc rq st =
     (let env = gateway_at D cc (pf_world st) in
      case gateway (de_httpx_text D) env rq (pf_cursors st) of
        (rr, line, response, evs) \<Rightarrow>
          (case (case forwarded env rq (pf_cursors st) of
                   None \<Rightarrow> (pf_world st, [])
                 | Some wr \<Rightarrow> fst (deliver D cc wr (pf_world st))) of
             (w, evs') \<Rightarrow>
               (\<lparr>pf_world = w, pf_cursors = rr, pf_outbox = pf_outbox st @ evs' @ evs\<rparr>, response)))"

text \<open>A sequence of client requests, each answered before the next is made.\<close>

fun platform_run ::
  "'b deployment \<Rightarrow> (circumstances \<times> gw_request) list \<Rightarrow> 'b platform \<Rightarrow> 'b platform \<times> gw_response list" where
  "platform_run D [] st = (st, [])"
| "platform_run D ((cc, rq) # rqs) st =
     (case platform_step D cc rq st of
        (st', response) \<Rightarrow> (case platform_run D rqs st' of (st'', responses) \<Rightarrow> (st'', response # responses)))"

end
