(* ===== verification/Platform_Properties.thy ===== *)
theory Platform_Properties
  imports Platform
begin

text \<open>
  What the composition guarantees: which handler a client request reaches and as whom, that every
  client request is a run of the interleaved system, and what follows for the stores.
\<close>

section \<open>From the gateway's routes to the services' routes\<close>

lemma split_public_paths:
  assumes "path_segment x"
  shows "split_path (''/employees/'' @ x @ ''/balances'') = [[], ''employees'', x, ''balances'']"
    and "split_path (''/leaves/'' @ x @ ''/cancel'') = [[], ''leaves'', x, ''cancel'']"
    and "split_path (''/manager/requests/'' @ x @ ''/approve'') = [[], ''manager'', ''requests'', x, ''approve'']"
    and "split_path (''/manager/requests/'' @ x @ ''/reject'') = [[], ''manager'', ''requests'', x, ''reject'']"
  using assms split_path_slash [of x] by (simp_all add: path_segment_def)

lemmas app_defs = app_route_def app_of_def auth_app_def balance_app_def request_app_def manager_app_def
  service_names template_matches_def

lemma public_handler:
  assumes "public_route m p service"
  obtains (login) "app_route (app_of D cc service) m p = Some ((200, login_handler D cc), [])"
  | (mine) "app_route (app_of D cc service) m p = Some ((200, my_balances_handler), [])"
  | (balances) x where "app_route (app_of D cc service) m p = Some ((200, employee_balances_handler), [x])"
  | (applying) "app_route (app_of D cc service) m p = Some ((201, apply_handler D cc), [])"
  | (history) "app_route (app_of D cc service) m p = Some ((200, history_handler D), [])"
  | (cancelling) x where "app_route (app_of D cc service) m p = Some ((200, cancel_handler D cc), [x])"
  | (team) "app_route (app_of D cc service) m p = Some ((200, team_list_handler D cc), [])"
  | (approving) x where "app_route (app_of D cc service) m p = Some ((200, approve_handler D cc), [x])"
  | (rejecting) x where "app_route (app_of D cc service) m p = Some ((200, reject_handler D cc), [x])"
proof -
  let ?r = "app_route (app_of D cc service) m p"
  consider (1) "m = ''POST''" "p = ''/auth/login''" "service = ''auth-service''"
    | (2) "m = ''GET''" "p = ''/employees/me/balances''" "service = ''leave-balance-service''"
    | (3) x where "m = ''GET''" "path_segment x" "p = ''/employees/'' @ x @ ''/balances''" "service = ''leave-balance-service''"
    | (4) "m = ''POST''" "p = ''/leaves''" "service = ''leave-request-service''"
    | (5) "m = ''GET''" "p = ''/leaves/history''" "service = ''leave-request-service''"
    | (6) x where "m = ''PATCH''" "path_segment x" "p = ''/leaves/'' @ x @ ''/cancel''" "service = ''leave-request-service''"
    | (7) "m = ''GET''" "p = ''/manager/requests''" "service = ''manager-service''"
    | (8) x where "m = ''POST''" "path_segment x" "p = ''/manager/requests/'' @ x @ ''/approve''" "service = ''manager-service''"
    | (9) x where "m = ''POST''" "path_segment x" "p = ''/manager/requests/'' @ x @ ''/reject''" "service = ''manager-service''"
    using assms unfolding public_route_def by (elim disjE conjE exE) (rule that, assumption+)+
  then show ?thesis
  proof cases
    case 1 then have "?r = Some ((200, login_handler D cc), [])" by (simp add: app_defs)
    then show ?thesis by (rule login)
  next
    case 2 then have "?r = Some ((200, my_balances_handler), [])" by (simp add: app_defs)
    then show ?thesis by (rule mine)
  next
    case (3 x)
    have "?r = Some ((200, employee_balances_handler), [x])" if "x \<noteq> ''me''"
      unfolding 3 app_route_def template_matches_def split_public_paths(1) [OF 3(2)]
      using that 3(2) by (simp add: app_of_def balance_app_def service_names path_segment_def)
    moreover have "?r = Some ((200, my_balances_handler), [])" if "x = ''me''"
      unfolding 3 app_route_def template_matches_def split_public_paths(1) [OF 3(2)]
      using that by (simp add: app_of_def balance_app_def service_names)
    ultimately show ?thesis using balances mine by blast
  next
    case 4 then have "?r = Some ((201, apply_handler D cc), [])" by (simp add: app_defs)
    then show ?thesis by (rule applying)
  next
    case 5 then have "?r = Some ((200, history_handler D), [])" by (simp add: app_defs)
    then show ?thesis by (rule history)
  next
    case (6 x)
    have "?r = Some ((200, cancel_handler D cc), [x])"
      unfolding 6 app_route_def template_matches_def split_public_paths(2) [OF 6(2)]
      using 6(2) by (simp add: app_of_def request_app_def service_names path_segment_def)
    then show ?thesis by (rule cancelling)
  next
    case 7 then have "?r = Some ((200, team_list_handler D cc), [])" by (simp add: app_defs)
    then show ?thesis by (rule team)
  next
    case (8 x)
    have "?r = Some ((200, approve_handler D cc), [x])"
      unfolding 8 app_route_def template_matches_def split_public_paths(3) [OF 8(2)]
      using 8(2) by (simp add: app_of_def manager_app_def service_names path_segment_def)
    then show ?thesis by (rule approving)
  next
    case (9 x)
    have "?r = Some ((200, reject_handler D cc), [x])"
      unfolding 9 app_route_def template_matches_def split_public_paths(4) [OF 9(2)]
      using 9(2) by (simp add: app_of_def manager_app_def service_names path_segment_def)
    then show ?thesis by (rule rejecting)
  qed
qed

section \<open>What the gateway sends\<close>

lemma admission_iff: "admission env rq = Some user \<longleftrightarrow> admits env rq user"
  by (auto simp: admission_def admits_def presented_partition split: prod.splits sum.splits if_splits)

lemma forwarded_iff:
  "forwarded env rq rr = Some wr \<longleftrightarrow>
     (\<exists>user service base. admits env rq user \<and> public_route (rq_method rq) (rq_path rq) service
        \<and> snd (gateway_resolve (ge_consul env service) service rr) = Inr base \<and> wr = outgoing base user rq)"
  by (auto simp: forwarded_def admission_iff [symmetric] route_of_iff [symmetric] split: option.splits prod.splits sum.splits)

lemma admits_env [simp]: "admits (env\<lparr>ge_send := f\<rparr>) rq user \<longleftrightarrow> admits env rq user"
  by (simp add: admits_def presented_def)

lemma env_send:
  "ge_jwt (env\<lparr>ge_send := f\<rparr>) = ge_jwt env" "ge_settings (env\<lparr>ge_send := f\<rparr>) = ge_settings env"
  "ge_now (env\<lparr>ge_send := f\<rparr>) = ge_now env" "ge_header (env\<lparr>ge_send := f\<rparr>) = ge_header env"
  "ge_consul (env\<lparr>ge_send := f\<rparr>) = ge_consul env"
  by simp_all

lemma forwarded_env [simp]: "forwarded (env\<lparr>ge_send := f\<rparr>) rq rr = forwarded env rq rr"
  unfolding forwarded_def admission_def env_send ..

text \<open>The gateway asks its HTTP client for nothing but the forwarded request.\<close>

lemma gateway_sends_forwarded:
  assumes "\<And>wr. forwarded env rq rr = Some wr \<Longrightarrow> f wr = g wr"
  shows "gateway tx (env\<lparr>ge_send := f\<rparr>) rq rr = gateway tx (env\<lparr>ge_send := g\<rparr>) rq rr"
proof -
  have fwd: "forward (env\<lparr>ge_send := f\<rparr>) user rq service rr = forward (env\<lparr>ge_send := g\<rparr>) user rq service rr"
    if "admits env rq user" "route_of (rq_method rq) (rq_path rq) = Some service" for user service
  proof (cases "gateway_resolve (ge_consul env service) service rr")
    case (Pair rr' base)
    have "f (outgoing url user rq) = g (outgoing url user rq)" if "base = Inr url" for url
    proof (rule assms)
      have "snd (gateway_resolve (ge_consul env service) service rr) = Inr url" using Pair that by simp
      then show "forwarded env rq rr = Some (outgoing url user rq)"
        using \<open>admits env rq user\<close> \<open>route_of _ _ = _\<close> unfolding forwarded_iff route_of_iff by blast
    qed
    with Pair show ?thesis by (simp add: forward_def split: sum.split)
  qed
  have routes: "gateway_routes (env\<lparr>ge_send := f\<rparr>) user rq rr = gateway_routes (env\<lparr>ge_send := g\<rparr>) user rq rr"
    if "admits env rq user" for user
  proof (cases "route_of (rq_method rq) (rq_path rq)")
    case None
    then show ?thesis unfolding gateway_routes_def by (simp only: option.case gateway_env.select_convs) simp
  next
    case (Some service)
    with that fwd show ?thesis by (simp add: gateway_routes_def)
  qed
  have "jwt_dispatch (env\<lparr>ge_send := f\<rparr>) rq rr = jwt_dispatch (env\<lparr>ge_send := g\<rparr>) rq rr"
  proof (cases "\<exists>user. admits env rq user")
    case True
    then obtain user where u: "admits env rq user" ..
    have "jwt_dispatch (env\<lparr>ge_send := h\<rparr>) rq rr = gateway_routes (env\<lparr>ge_send := h\<rparr>) user rq rr" for h
      using u by (intro admits_dispatch) simp
    with routes [OF u] show ?thesis by simp
  next
    case False
    then obtain d where d: "\<forall>consul send. jwt_dispatch (env\<lparr>ge_consul := consul, ge_send := send\<rparr>) rq rr = (rr, Inr (unauthorized d))"
      using not_admitted [of env rq rr] by blast
    have "env\<lparr>ge_consul := ge_consul env, ge_send := h\<rparr> = env\<lparr>ge_send := h\<rparr>" for h by (cases env) simp
    with d show ?thesis by metis
  qed
  then show ?thesis by (simp only: gateway_def access_log_dispatch_def env_send)
qed

section \<open>One client request\<close>

text \<open>The gateway as the request meets it, and the deployments in which a service listens where it is
  resolved.\<close>

definition edge :: "'b deployment \<Rightarrow> circumstances \<Rightarrow> gateway_env" where
  "edge D cc = (de_gateway D)\<lparr>ge_now := cc_seconds cc\<rparr>"

definition listening_ok :: "'b deployment \<Rightarrow> bool" where
  "listening_ok D \<longleftrightarrow>
     (\<forall>service rr base path. snd (gateway_resolve (ge_consul (de_gateway D) service) service rr) = Inr base
        \<longrightarrow> de_listening D (base @ path) = Some (service, path))"

lemma gateway_at_edge: "gateway_at D cc w = (edge D cc)\<lparr>ge_send := (\<lambda>wr. snd (deliver D cc wr w))\<rparr>"
  by (simp add: gateway_at_def edge_def)

lemma edge_simps [simp]:
  "ge_jwt (edge D cc) = ge_jwt (de_gateway D)" "ge_settings (edge D cc) = ge_settings (de_gateway D)"
  "ge_now (edge D cc) = cc_seconds cc" "ge_header (edge D cc) = ge_header (de_gateway D)"
  "ge_consul (edge D cc) = ge_consul (de_gateway D)"
  by (simp_all add: edge_def)

lemma outgoing_simps [simp]:
  "wr_method (outgoing base user rq) = rq_method rq" "wr_url (outgoing base user rq) = base @ rq_path rq"
  "wr_headers (outgoing base user rq) = build_forward_headers user (rq_headers rq)"
  by (simp_all add: outgoing_def)

lemma serve_outgoing:
  assumes "fw_header (de_fw D) = ge_header (de_gateway D)"
  shows "serve D cc service path (outgoing base user rq) w =
    serve_as D cc (caller_downstream (ge_header (de_gateway D)) user (rq_headers rq)) service path (outgoing base user rq) w"
  using assms by (simp add: serve_def caller_downstream_def Let_def)

text \<open>What the network leaves of an answered request.\<close>

lemma deliver_cases:
  assumes "de_listening D (wr_url wr) = Some (service, path)"
  obtains (served) "deliver D cc wr w = (fst (serve D cc service path wr w), Inr (snd (serve D cc service path wr w)))"
      "cc_gateway_net cc = Delivered"
  | (lost) e where "deliver D cc wr w = ((w, []), Inl (HTTPXError e))" "cc_gateway_net cc = RequestLost e"
  | (unanswered) e where "deliver D cc wr w = (fst (serve D cc service path wr w), Inl (HTTPXError e))"
      "cc_gateway_net cc = ReplyLost e"
  using assms by (cases "cc_gateway_net cc") (auto simp: deliver_def split: prod.splits)

text \<open>The events of the gateway itself are error reports.\<close>

lemma gateway_events:
  assumes "gateway tx env rq rr = (rr', line, response, evs)"
  shows "\<forall>ev \<in> set evs. fst ev = SYSTEM_ERROR"
  using assms
  by (auto simp: gateway_def unhandled_exception_handler_def split: prod.splits sum.splits exn.splits)

lemma platform_step_effect:
  assumes "listening_ok D"
  obtains (idle) evs where "pf_world (fst (platform_step D cc rq st)) = pf_world st"
      "pf_outbox (fst (platform_step D cc rq st)) = pf_outbox st @ evs" "\<forall>ev \<in> set evs. fst ev = SYSTEM_ERROR"
  | (run) user service base w' evs' response evs where
      "admits (edge D cc) rq user" "public_route (rq_method rq) (rq_path rq) service"
      "serve D cc service (rq_path rq) (outgoing base user rq) (pf_world st) = ((w', evs'), response)"
      "pf_world (fst (platform_step D cc rq st)) = w'"
      "pf_outbox (fst (platform_step D cc rq st)) = pf_outbox st @ evs' @ evs" "\<forall>ev \<in> set evs. fst ev = SYSTEM_ERROR"
proof -
  let ?env = "gateway_at D cc (pf_world st)"
  obtain rr line resp evs where gw: "gateway (de_httpx_text D) ?env rq (pf_cursors st) = (rr, line, resp, evs)"
    by (metis prod_cases4)
  note sys = gateway_events [OF gw]
  have fwd: "forwarded ?env rq (pf_cursors st) = forwarded (edge D cc) rq (pf_cursors st)"
    by (simp add: gateway_at_edge)
  show ?thesis
  proof (cases "forwarded (edge D cc) rq (pf_cursors st)")
    case None
    then show ?thesis using gw sys fwd by (intro idle [of evs]) (simp_all add: platform_step_def Let_def)
  next
    case (Some wr)
    then obtain user service base where u: "admits (edge D cc) rq user" "public_route (rq_method rq) (rq_path rq) service"
      and base: "snd (gateway_resolve (ge_consul (de_gateway D) service) service (pf_cursors st)) = Inr base"
      and wr: "wr = outgoing base user rq"
      by (auto simp: forwarded_iff)
    have listen: "de_listening D (wr_url wr) = Some (service, rq_path rq)"
      using assms base unfolding listening_ok_def wr by simp
    obtain w' evs' where eff: "fst (deliver D cc wr (pf_world st)) = (w', evs')" by (metis prod.collapse)
    have st': "pf_world (fst (platform_step D cc rq st)) = w'"
      "pf_outbox (fst (platform_step D cc rq st)) = pf_outbox st @ evs' @ evs"
      using gw fwd Some eff by (simp_all add: platform_step_def Let_def)
    from listen show ?thesis
    proof (cases rule: deliver_cases [of D wr service "rq_path rq" cc "pf_world st"])
      case (lost e)
      then show ?thesis using st' eff sys by (intro idle [of evs]) simp_all
    next
      case served
      then have "serve D cc service (rq_path rq) (outgoing base user rq) (pf_world st)
          = ((w', evs'), snd (serve D cc service (rq_path rq) (outgoing base user rq) (pf_world st)))"
        using eff wr by (metis fst_conv prod.collapse)
      from run [OF u this st' sys] show ?thesis .
    next
      case (unanswered e)
      then have "serve D cc service (rq_path rq) (outgoing base user rq) (pf_world st)
          = ((w', evs'), snd (serve D cc service (rq_path rq) (outgoing base user rq) (pf_world st)))"
        using eff wr by (metis fst_conv prod.collapse)
      from run [OF u this st' sys] show ?thesis .
    qed
  qed
qed

section \<open>Health checks\<close>

text \<open>The path that every service registers with Consul answers 200 in its application and changes nothing,
  whoever asks; through the gateway a client only reaches the gateway's own.\<close>

lemma health_served:
  assumes "ls \<in> set LIFESPANS" and "ls \<noteq> gateway_lifespan" and "wr_method wr = ''GET''"
  shows "serve D cc (ls_service ls) ''/health'' wr w = ((w, []), json_answer (de_fw D) 200 (JObj (health_answer ls)))"
proof -
  from assms(1,2) consider "ls = auth_lifespan" | "ls = balance_lifespan" | "ls = request_lifespan"
    | "ls = manager_lifespan" | "ls = notification_lifespan" by (auto simp: LIFESPANS_def)
  then show ?thesis
    by cases (simp_all add: serve_def serve_as_def app_route_def app_of_def service_names assms(3) lifespan_defs
        auth_app_def balance_app_def request_app_def manager_app_def notification_app_def
        template_matches_def health_handler_def answer_only_def result_answer_def)
qed

end
