(* ===== verification/Platform_Refinement.thy ===== *)
theory Platform_Refinement
  imports Platform_Properties
begin

text \<open>
  Every client request is a run of the interleaved system of \<open>Leave_System\<close>: the handler behind the
  route, whole, is its parts with nothing in between. The platform's stores therefore have every
  property of the reachable states of that system, and the serial ones besides.
\<close>

section \<open>What a handler may do to the stores\<close>

text \<open>Leave events, which the system's outbox holds, as opposed to error reports.\<close>

definition leave_events :: "event list \<Rightarrow> event list" where
  "leave_events = filter (\<lambda>ev. fst ev \<noteq> SYSTEM_ERROR)"

lemma leave_events_simps [simp]:
  "leave_events [] = []" "leave_events (xs @ ys) = leave_events xs @ leave_events ys"
  by (simp_all add: leave_events_def)

lemma leave_events_errors: "\<forall>ev \<in> set evs. fst ev = SYSTEM_ERROR \<Longrightarrow> leave_events evs = []"
  by (simp add: leave_events_def)

lemma leave_events_leave: "\<forall>ev \<in> set evs. fst ev \<noteq> SYSTEM_ERROR \<Longrightarrow> leave_events evs = evs"
  by (simp add: leave_events_def)

definition simulated :: "'b breaker_ops \<Rightarrow> 'b world \<Rightarrow> 'b world \<Rightarrow> event list \<Rightarrow> bool" where
  "simulated ops w w' evs \<longleftrightarrow>
     (\<forall>s :: 'b system. sys_world s = w \<and> sys_tasks s = [] \<longrightarrow>
        (\<exists>s'. (sys_step ops)\<^sup>*\<^sup>* s s' \<and> sys_world s' = w' \<and> sys_tasks s' = []
           \<and> sys_outbox s' = sys_outbox s @ leave_events evs))"

text \<open>Besides the run: the request store moves by whole handlers, its time stamps stay time stamps, and
  the only id that may be new is the one drawn for this request.\<close>

definition well_served :: "'b breaker_ops \<Rightarrow> string \<Rightarrow> 'b world \<Rightarrow> 'b world \<Rightarrow> event list \<Rightarrow> bool" where
  "well_served ops i w w' evs \<longleftrightarrow>
     simulated ops w w' evs \<and> serial_step\<^sup>*\<^sup>* (w_req w) (w_req w') \<and> stamps_ok (w_req w')
     \<and> (\<forall>j. get_request (w_req w') j \<noteq> None \<longrightarrow> get_request (w_req w) j \<noteq> None \<or> j = i)"

lemma run_task_steps: "run_task ops t evs s = Some s' \<Longrightarrow> (sys_step ops)\<^sup>*\<^sup>* s s'"
proof (induction evs arbitrary: s)
  case (Cons ev evs)
  then obtain s1 where s1: "sys_exec ops ev s = Some s1"
    and "run_task ops t evs s1 = Some s' \<or> s1 = s'"
    by (auto split: option.splits if_splits)
  with Cons.IH have "(sys_step ops)\<^sup>*\<^sup>* s1 s'" by blast
  with sys_step.step [OF s1] show ?case by (rule converse_rtranclp_into_rtranclp)
qed simp

lemma simulatedI:
  assumes "\<And>s :: 'b system. sys_world s = w \<Longrightarrow> sys_tasks s = [] \<Longrightarrow>
      \<exists>t task_evs ans. run_task ops t task_evs s =
        Some (s\<lparr>sys_world := w', sys_outbox := sys_outbox s @ evs, sys_answers := ans\<rparr>)"
    and "leave_events evs = evs"
  shows "simulated ops w w' evs"
  unfolding simulated_def
proof (intro allI impI)
  fix s :: "'b system" assume s: "sys_world s = w \<and> sys_tasks s = []"
  with assms(1) obtain t task_evs ans where run: "run_task ops t task_evs s =
      Some (s\<lparr>sys_world := w', sys_outbox := sys_outbox s @ evs, sys_answers := ans\<rparr>)"
    by blast
  show "\<exists>s'. (sys_step ops)\<^sup>*\<^sup>* s s' \<and> sys_world s' = w' \<and> sys_tasks s' = []
      \<and> sys_outbox s' = sys_outbox s @ leave_events evs"
    using run_task_steps [OF run] s assms(2)
    by (intro exI [of _ "s\<lparr>sys_world := w', sys_outbox := sys_outbox s @ evs, sys_answers := ans\<rparr>"]) simp
qed

lemma simulated_refl: "leave_events evs = [] \<Longrightarrow> simulated ops w w evs"
  by (auto simp: simulated_def)

lemma well_served_refl: "stamps_ok (w_req w) \<Longrightarrow> leave_events evs = [] \<Longrightarrow> well_served ops i w w evs"
  by (simp add: well_served_def simulated_refl)

text \<open>Error reports added to the events change nothing.\<close>

lemma well_served_append:
  "well_served ops i w w' evs \<Longrightarrow> leave_events evs' = [] \<Longrightarrow> well_served ops i w w' (evs @ evs')"
  by (simp add: well_served_def simulated_def)

section \<open>Time stamps and ids\<close>

lemma stamps_ok_empty: "stamps_ok empty_requests"
  by (simp add: stamps_ok_def empty_requests_def get_request_def)

lemma stamps_ok_add:
  "stamps_ok s \<Longrightarrow> valid_datetime (lr_created_at r) \<Longrightarrow> valid_datetime (lr_updated_at r) \<Longrightarrow> stamps_ok (add_request r s)"
  by (simp add: stamps_ok_def)

lemma set_status_stamps:
  assumes "stamps_ok s" and "valid_datetime now" and "get_request s i = Some r"
  shows "stamps_ok (fst (set_status now r st why s))"
  using assms by (simp add: stamps_ok_def set_status_def Let_def)

lemma cancel_leave_stamps:
  assumes "stamps_ok s" and "valid_datetime now"
  shows "stamps_ok (fst (cancel_leave now i c s))"
  using assms set_status_stamps [OF assms] by (simp add: cancel_leave_def case_prod_beta' split: option.split)

lemma update_request_status_stamps:
  assumes "stamps_ok s" and "valid_datetime now"
  shows "stamps_ok (fst (update_request_status now i p s))"
  using assms set_status_stamps [OF assms] by (simp add: update_request_status_def case_prod_beta' split: option.split)

lemma set_status_ids:
  assumes "get_request s i = Some r" and "wf_requests s"
  shows "get_request (fst (set_status now r st why s)) j = None \<longleftrightarrow> get_request s j = None"
  using wf_requestsD(3) [OF assms(2,1)] assms(1) by (simp add: set_status_def Let_def)

lemma cancel_leave_ids:
  assumes "wf_requests s"
  shows "get_request (fst (cancel_leave now i c s)) j = None \<longleftrightarrow> get_request s j = None"
  using set_status_ids [OF _ assms] by (simp add: cancel_leave_def case_prod_beta' split: option.split)

lemma update_request_status_ids:
  assumes "wf_requests s"
  shows "get_request (fst (update_request_status now i p s)) j = None \<longleftrightarrow> get_request s j = None"
  using set_status_ids [OF _ assms] by (simp add: update_request_status_def case_prod_beta' split: option.split)

section \<open>Every handler is well served\<close>

definition clocks_ok :: "circumstances \<Rightarrow> bool" where
  "clocks_ok cc \<longleftrightarrow> valid_datetime (cc_now cc) \<and> valid_datetime (cc_created cc) \<and> valid_datetime (cc_updated cc)"

text \<open>A moment between two requests: well-formed stores, a fresh id, clocks that show times.\<close>

definition ready :: "circumstances \<Rightarrow> 'b world \<Rightarrow> bool" where
  "ready cc w \<longleftrightarrow>
     wf_requests (w_req w) \<and> stamps_ok (w_req w) \<and> get_request (w_req w) (cc_uuid cc) = None \<and> clocks_ok cc"

lemma well_served_decided:
  assumes "ready cc w"
    and "simulated ops w w' evs"
    and "w_req w' = w_req w \<or> (\<exists>now i p. valid_datetime now \<and> w_req w' = fst (update_request_status now i p (w_req w)))"
  shows "well_served ops (cc_uuid cc) w w' evs"
  using assms(3)
proof
  assume "w_req w' = w_req w"
  with assms(1,2) show ?thesis by (simp add: well_served_def ready_def)
next
  assume "\<exists>now i p. valid_datetime now \<and> w_req w' = fst (update_request_status now i p (w_req w))"
  then obtain now i p where now: "valid_datetime now" and req: "w_req w' = fst (update_request_status now i p (w_req w))"
    by blast
  have "serial_step (w_req w) (w_req w')" unfolding req by (rule serial_step.do_decide)
  with assms(1,2) now show ?thesis
    by (auto simp: well_served_def ready_def req update_request_status_stamps update_request_status_ids)
qed

lemma decide_update_store:
  "snd (fst (decide_update ops env now i m st why (cb, req))) = req
   \<or> (\<exists>p. snd (fst (decide_update ops env now i m st why (cb, req))) = fst (update_request_status now i p req))"
  using decide_update_req [of ops env now i m st why cb req]
  unfolding update_status_endpoint_state by (metis (full_types))

lemma approve_request_store:
  assumes "approve_request ops n env1 env2 now i caller w = (w', evs, r)"
  shows "w_req w' = w_req w \<or> (\<exists>p. w_req w' = fst (update_request_status now i p (w_req w)))"
    and "leave_events evs = evs"
  using assms decide_update_store [of ops env2 now i "ci_user_id caller" APPROVED None "w_mgr_req_cb w" "w_req w"]
  by (auto simp: approve_request_def leave_events_def approved_event_def Let_def
      split: sum.splits prod.splits)

lemma reject_request_store:
  assumes "reject_request ops n env now i reason caller w = (w', evs, r)"
  shows "w_req w' = w_req w \<or> (\<exists>p. w_req w' = fst (update_request_status now i p (w_req w)))"
    and "leave_events evs = evs"
  using assms decide_update_store [of ops env now i "ci_user_id caller" REJECTED "Some reason" "w_mgr_req_cb w" "w_req w"]
  by (auto simp: reject_request_def leave_events_def rejected_event_def Let_def
      split: sum.splits prod.splits)

lemma approve_served:
  assumes "ready cc w" and "wire_lib_ok L" and "ci_role c = MANAGER"
    and "approve_json L ops n env1 env2 (cc_now cc) i c w = (w', evs, r)"
  shows "well_served ops (cc_uuid cc) w w' evs"
proof -
  have run: "approve_request ops n env1 env2 (cc_now cc) i c w = (w', evs, r)"
    using assms(1,4) approve_agrees [OF assms(2), of w "cc_now cc"] by (simp add: ready_def clocks_ok_def)
  have "simulated ops w w' evs"
  proof (rule simulatedI)
    fix s :: "'a system" assume s: "sys_world s = w" "sys_tasks s = []"
    then have "\<not> dict_has (sys_tasks s) 0" by (simp add: dict_has_def)
    from approve_uninterrupted [OF this assms(3) run [folded s(1)]]
    show "\<exists>t task_evs ans. run_task ops t task_evs s =
        Some (s\<lparr>sys_world := w', sys_outbox := sys_outbox s @ evs, sys_answers := ans\<rparr>)"
      by blast
  qed (rule approve_request_store(2) [OF run])
  with assms(1) approve_request_store(1) [OF run] show ?thesis
    by (intro well_served_decided) (auto simp: ready_def clocks_ok_def)
qed

lemma reject_served:
  assumes "ready cc w" and "wire_lib_ok L" and "ci_role c = MANAGER" and "valid_RejectLeaveRequest reason"
    and "reject_json L ops n env (cc_now cc) i reason c w = (w', evs, r)"
  shows "well_served ops (cc_uuid cc) w w' evs"
proof -
  have run: "reject_request ops n env (cc_now cc) i reason c w = (w', evs, r)"
    using assms(1,5) reject_agrees [OF assms(2), of w "cc_now cc"] by (simp add: ready_def clocks_ok_def)
  have "simulated ops w w' evs"
  proof (rule simulatedI)
    fix s :: "'a system" assume s: "sys_world s = w" "sys_tasks s = []"
    then have "\<not> dict_has (sys_tasks s) 0" by (simp add: dict_has_def)
    from reject_uninterrupted [OF this assms(3,4) run [folded s(1)]]
    show "\<exists>t task_evs ans. run_task ops t task_evs s =
        Some (s\<lparr>sys_world := w', sys_outbox := sys_outbox s @ evs, sys_answers := ans\<rparr>)"
      by blast
  qed (rule reject_request_store(2) [OF run])
  with assms(1) reject_request_store(1) [OF run] show ?thesis
    by (intro well_served_decided) (auto simp: ready_def clocks_ok_def)
qed

lemma cancel_served:
  assumes "ready cc w"
  shows "well_served ops (cc_uuid cc) w (w\<lparr>w_req := fst (cancel_leave (cc_now cc) i c (w_req w))\<rparr>) []"
proof -
  let ?w' = "w\<lparr>w_req := fst (cancel_leave (cc_now cc) i c (w_req w))\<rparr>"
  have "simulated ops w ?w' []"
  proof (rule simulatedI)
    fix s :: "'a system" assume s: "sys_world s = w" "sys_tasks s = []"
    then have "run_task ops 0 [EvCancel 0 (cc_now cc) i c] s =
        Some (s\<lparr>sys_world := ?w', sys_outbox := sys_outbox s @ [],
                sys_answers := sys_answers s @ [(0, answer_code 200 (snd (cancel_leave (cc_now cc) i c (w_req w))))]\<rparr>)"
      by (auto simp: cancel_request_def run_simps split: prod.splits)
    then show "\<exists>t task_evs ans. run_task ops t task_evs s =
        Some (s\<lparr>sys_world := ?w', sys_outbox := sys_outbox s @ [], sys_answers := ans\<rparr>)"
      by blast
  qed simp
  moreover have "serial_step (w_req w) (w_req ?w')" by (simp add: serial_step.do_cancel)
  ultimately show ?thesis
    using assms by (auto simp: well_served_def ready_def clocks_ok_def cancel_leave_stamps cancel_leave_ids)
qed

lemma apply_served:
  fixes env :: call_env
  assumes "ready cc w" and "valid_ApplyLeaveRequest p"
    and "apply_leave_begin (cc_today cc) c p (w_req w) = Inr m"
    and "invoke_with_breaker ops (ce_before env) (ce_after env)
        (fetch_remaining (ce_net env) (ci_user_id c) (al_leave_type p)) (w_req_bal_cb w, w_bal w) = ((cb, bal), outcome)"
    and "apply_leave_finish (cc_uuid cc) (cc_created cc) (cc_updated cc) c p m outcome (w_req w) = (req, evs, r)"
  shows "well_served ops (cc_uuid cc) w (w\<lparr>w_req_bal_cb := cb, w_bal := bal, w_req := req\<rparr>) evs"
proof -
  let ?i = "cc_uuid cc"
  let ?w' = "w\<lparr>w_req_bal_cb := cb, w_bal := bal, w_req := req\<rparr>"
  have whole: "apply_leave ?i (cc_today cc) (cc_created cc) (cc_updated cc) c p outcome (w_req w) = (req, evs, r)"
    using assms(3,5) by (simp add: apply_leave_def)
  have fresh: "get_request (w_req w) ?i = None" using assms(1) by (simp add: ready_def)
  have "simulated ops w ?w' evs"
  proof (rule simulatedI)
    fix s :: "'a system" assume s: "sys_world s = w" "sys_tasks s = []"
    then have "\<not> dict_has (sys_tasks s) 0" by (simp add: dict_has_def)
    note run = apply_uninterrupted [OF this assms(2) fresh [folded s(1)] assms(4) [folded s(1)] whole [folded s(1)]]
    have "is_ok (apply_leave_begin (cc_today cc) c p (w_req (sys_world s)))" using assms(3) s(1) by simp
    from run [unfolded if_P [OF this], unfolded s(1)]
    show "\<exists>t task_evs ans. run_task ops t task_evs s =
        Some (s\<lparr>sys_world := ?w', sys_outbox := sys_outbox s @ evs, sys_answers := ans\<rparr>)"
      by blast
  next
    show "leave_events evs = evs"
      using assms(5) by (cases rule: apply_leave_finish_cases [of ?i "cc_created cc" "cc_updated cc" c p m outcome "w_req w"])
        (auto simp: leave_events_def applied_event_def)
  qed
  moreover have "serial_step (w_req w) req"
    using serial_step.do_apply [OF assms(2) fresh, of "cc_today cc" "cc_created cc" "cc_updated cc" c outcome] whole by simp
  moreover have "stamps_ok req \<and> (\<forall>j. get_request req j \<noteq> None \<longrightarrow> get_request (w_req w) j \<noteq> None \<or> j = ?i)"
    using assms(1,5)
    by (cases rule: apply_leave_finish_cases [of ?i "cc_created cc" "cc_updated cc" c p m outcome "w_req w"])
      (auto simp: ready_def clocks_ok_def new_request_def intro!: stamps_ok_add split: if_splits)
  ultimately show ?thesis by (auto simp: well_served_def)
qed

section \<open>Every request is well served\<close>

lemma ready_stamps: "ready cc w \<Longrightarrow> stamps_ok (w_req w)"
  by (simp add: ready_def)

lemma require_manager_Inr: "require_manager caller = Inr c \<Longrightarrow> ci_role c = MANAGER"
  by (simp add: require_manager_ok_iff)

text \<open>The handlers that only answer.\<close>

lemma reading_handlers:
  "login_handler D cc caller args query body w = (w', evs, r) \<Longrightarrow> w' = w \<and> evs = []"
  "my_balances_handler caller args query body w = (w', evs, r) \<Longrightarrow> w' = w \<and> evs = []"
  "employee_balances_handler caller args query body w = (w', evs, r) \<Longrightarrow> w' = w \<and> evs = []"
  "history_handler D caller args query body w = (w', evs, r) \<Longrightarrow> w' = w \<and> evs = []"
  "team_list_handler D cc caller args query body w = (w', evs, r) \<Longrightarrow> w' = w \<and> evs = []"
  by (auto simp: login_handler_def with_body_def answer_only_def my_balances_handler_def employee_balances_handler_def
      history_handler_def team_list_handler_def split: option.splits)

lemma apply_handler_served:
  assumes "ready cc w" and "apply_handler D cc caller args query body w = (w', evs, r)"
  shows "well_served (de_ops D) (cc_uuid cc) w w' evs"
proof -
  have refl: "well_served (de_ops D) (cc_uuid cc) w w []"
    using ready_stamps [OF assms(1)] by (simp add: well_served_refl)
  consider "w' = w" "evs = []"
    | b c p where "body = Some b" "caller = Inr c"
      "checked_body (ApplyLeaveRequest_read (de_lib D)) valid_ApplyLeaveRequest b = Inr p"
      "is_ok (apply_leave_begin (cc_today cc) c p (w_req w))"
    using assms(2)
    by (cases body; cases caller)
      (auto simp: apply_handler_def with_body_def with_caller_def answer_only_def is_ok_iff split: sum.splits)
  then show ?thesis
  proof cases
    case 1 with refl show ?thesis by simp
  next
    case (2 b c p)
    then obtain m where m: "apply_leave_begin (cc_today cc) c p (w_req w) = Inr m" by (auto simp: is_ok_iff)
    have valid: "valid_ApplyLeaveRequest p" using 2(3) by (auto simp: checked_body_def split: option.splits if_splits)
    obtain cb bal outcome where call: "invoke_with_breaker (de_ops D) (ce_before (cc_first cc)) (ce_after (cc_first cc))
        (fetch_remaining (ce_net (cc_first cc)) (ci_user_id c) (al_leave_type p)) (w_req_bal_cb w, w_bal w)
        = ((cb, bal), outcome)"
      by (metis prod.collapse)
    obtain req evs' r' where fin: "apply_leave_finish (cc_uuid cc) (cc_created cc) (cc_updated cc) c p m outcome (w_req w)
        = (req, evs', r')"
      by (metis prod_cases3)
    have "fetch_remaining_json (de_lib D) n e t = fetch_remaining n e t" for n e t
      by (rule ext) (rule fetch_remaining_agrees)
    then have "w' = w\<lparr>w_req_bal_cb := cb, w_bal := bal, w_req := req\<rparr>" "evs = evs'"
      using assms(2) 2 m call fin by (simp_all add: apply_handler_def with_body_def with_caller_def Let_def)
    with apply_served [OF assms(1) valid m call fin] show ?thesis by simp
  qed
qed

lemma cancel_handler_served:
  assumes "ready cc w" and "cancel_handler D cc caller args query body w = (w', evs, r)"
  shows "well_served (de_ops D) (cc_uuid cc) w w' evs"
proof (cases caller)
  case (Inl e)
  with assms show ?thesis
    by (simp add: cancel_handler_def with_caller_def answer_only_def well_served_refl ready_stamps)
next
  case (Inr c)
  with assms(2) have "w' = w\<lparr>w_req := fst (cancel_leave (cc_now cc) (hd args) c (w_req w))\<rparr>" "evs = []"
    by (auto simp: cancel_handler_def with_caller_def split: prod.splits)
  with cancel_served [OF assms(1)] show ?thesis by simp
qed

lemma approve_handler_served:
  assumes "ready cc w" and "wire_lib_ok (de_lib D)" and "approve_handler D cc caller args query body w = (w', evs, r)"
  shows "well_served (de_ops D) (cc_uuid cc) w w' evs"
proof (cases "require_manager caller")
  case (Inl e)
  with assms show ?thesis
    by (simp add: approve_handler_def with_caller_def answer_only_def well_served_refl ready_stamps)
next
  case (Inr c)
  with assms(3) obtain r' where "approve_json (de_lib D) (de_ops D) (cc_load_net cc) (cc_first cc) (cc_second cc)
      (cc_now cc) (hd args) c w = (w', evs, r')"
    by (auto simp: approve_handler_def with_caller_def split: prod.splits)
  from approve_served [OF assms(1,2) require_manager_Inr [OF Inr] this] show ?thesis .
qed

lemma reject_handler_served:
  assumes "ready cc w" and "wire_lib_ok (de_lib D)" and "reject_handler D cc caller args query body w = (w', evs, r)"
  shows "well_served (de_ops D) (cc_uuid cc) w w' evs"
proof -
  consider "w' = w" "evs = []"
    | b c reason where "body = Some b" "require_manager caller = Inr c"
      "checked_body (RejectLeaveRequest_read (de_lib D)) valid_RejectLeaveRequest b = Inr reason"
    using assms(3)
    by (cases body; cases "require_manager caller")
      (auto simp: reject_handler_def with_body_def with_caller_def answer_only_def split: sum.splits)
  then show ?thesis
  proof cases
    case 1 with assms(1) show ?thesis by (simp add: well_served_refl ready_stamps)
  next
    case (2 b c reason)
    then have valid: "valid_RejectLeaveRequest reason" by (auto simp: checked_body_def split: option.splits if_splits)
    obtain r' where "reject_json (de_lib D) (de_ops D) (cc_load_net cc) (cc_second cc) (cc_now cc) (hd args) reason c w
        = (w', evs, r')"
      using assms(3) 2 by (auto simp: reject_handler_def with_body_def with_caller_def split: prod.splits)
    from reject_served [OF assms(1,2) require_manager_Inr [OF 2(2)] valid this] show ?thesis .
  qed
qed

lemma result_answer_events: "leave_events (snd (result_answer D service path ok r)) = []"
  by (auto simp: result_answer_def unhandled_exception_handler_def leave_events_def
      split: sum.splits exn.splits)

lemma serve_as_handler:
  assumes "serve_as D cc caller service path wr w = ((w', evs), response)"
    and "app_route (app_of D cc service) (wr_method wr) path = Some ((ok, handler), args)"
  obtains evs1 evs2 r where "handler caller args (wr_params wr) (fw_body (de_fw D) wr) w = (w', evs1, r)"
    "evs = evs1 @ evs2" "leave_events evs2 = []" "response = fst (result_answer D service path ok r)"
proof -
  obtain w1 evs1 r where h: "handler caller args (wr_params wr) (fw_body (de_fw D) wr) w = (w1, evs1, r)"
    by (metis prod_cases3)
  with assms have "w1 = w'" "evs = evs1 @ snd (result_answer D service path ok r)"
    "response = fst (result_answer D service path ok r)"
    by (auto simp: serve_as_def split: prod.splits)
  with h that [of evs1 r] result_answer_events show ?thesis by blast
qed

lemma serve_well_served:
  assumes "ready cc w" and "wire_lib_ok (de_lib D)" and "public_route (wr_method wr) path service"
    and "serve_as D cc caller service path wr w = ((w', evs), response)"
  shows "well_served (de_ops D) (cc_uuid cc) w w' evs"
proof -
  have quiet: "well_served (de_ops D) (cc_uuid cc) w w' ([] @ evs2)"
    if "w' = w" "leave_events evs2 = []" for evs2
    using that ready_stamps [OF assms(1)] by (simp add: well_served_refl)
  note handler = serve_as_handler [OF assms(4)]
  from assms(3) show ?thesis
  proof (cases rule: public_handler [of "wr_method wr" path service D cc])
    case login show ?thesis by (rule handler [OF login]) (use reading_handlers(1) quiet in fastforce)
  next
    case mine show ?thesis by (rule handler [OF mine]) (use reading_handlers(2) quiet in fastforce)
  next
    case (balances x) show ?thesis by (rule handler [OF balances]) (use reading_handlers(3) quiet in fastforce)
  next
    case history show ?thesis by (rule handler [OF history]) (use reading_handlers(4) quiet in fastforce)
  next
    case team show ?thesis by (rule handler [OF team]) (use reading_handlers(5) quiet in fastforce)
  next
    case applying show ?thesis
      by (rule handler [OF applying]) (auto dest: apply_handler_served [OF assms(1)] intro: well_served_append)
  next
    case (cancelling x) show ?thesis
      by (rule handler [OF cancelling]) (auto dest: cancel_handler_served [OF assms(1)] intro: well_served_append)
  next
    case (approving x) show ?thesis
      by (rule handler [OF approving]) (auto dest: approve_handler_served [OF assms(1,2)] intro: well_served_append)
  next
    case (rejecting x) show ?thesis
      by (rule handler [OF rejecting]) (auto dest: reject_handler_served [OF assms(1,2)] intro: well_served_append)
  qed
qed

section \<open>The platform\<close>

lemma platform_step_served:
  assumes "listening_ok D" and "wire_lib_ok (de_lib D)" and "ready cc (pf_world st)"
  shows "\<exists>evs. well_served (de_ops D) (cc_uuid cc) (pf_world st) (pf_world (fst (platform_step D cc rq st))) evs
    \<and> pf_outbox (fst (platform_step D cc rq st)) = pf_outbox st @ evs"
  using assms(1)
proof (cases rule: platform_step_effect [of D cc rq st])
  case (idle evs)
  then show ?thesis
    using ready_stamps [OF assms(3)] leave_events_errors [of evs]
    by (intro exI [of _ evs]) (simp add: well_served_refl)
next
  case (run user service base w' evs' response evs)
  have "public_route (wr_method (outgoing base user rq)) (rq_path rq) service" using run(2) by simp
  from serve_well_served [OF assms(3,2) this run(3) [unfolded serve_def]]
  have "well_served (de_ops D) (cc_uuid cc) (pf_world st) w' (evs' @ evs)"
    using leave_events_errors [OF run(6)] by (rule well_served_append)
  with run(4,5) show ?thesis by auto
qed

text \<open>
  The platform refines the interleaved system. Any client request at all, with any token, headers
  and body, through the gateway over any network, to whichever service: its effect on the stores and
  breakers of all services and the leave events it publishes are those of a run of the system of
  \<open>Leave_System\<close> that starts and ends with no handler in progress.
\<close>

lemma platform_refines_system:
  assumes "listening_ok D" and "wire_lib_ok (de_lib D)" and "ready cc (pf_world st)"
    and "sys_world s = pf_world st" and "sys_tasks s = []"
  shows "\<exists>s' evs. (sys_step (de_ops D))\<^sup>*\<^sup>* s s' \<and> sys_tasks s' = []
    \<and> sys_world s' = pf_world (fst (platform_step D cc rq st))
    \<and> pf_outbox (fst (platform_step D cc rq st)) = pf_outbox st @ evs
    \<and> sys_outbox s' = sys_outbox s @ leave_events evs"
proof -
  obtain evs where evs: "simulated (de_ops D) (pf_world st) (pf_world (fst (platform_step D cc rq st))) evs"
    "pf_outbox (fst (platform_step D cc rq st)) = pf_outbox st @ evs"
    using platform_step_served [OF assms(1-3), of rq] unfolding well_served_def by blast
  from evs(1) [unfolded simulated_def, rule_format, OF conjI, OF assms(4,5)] evs(2) show ?thesis by blast
qed

section \<open>Runs of the platform\<close>

definition platform_init :: "'b platform \<Rightarrow> bool" where
  "platform_init st \<longleftrightarrow>
     (\<exists>uuids. inj uuids \<and> seed_balances uuids empty_balances = Inr (w_bal (pf_world st)))
     \<and> w_req (pf_world st) = empty_requests \<and> pf_outbox st = []"

text \<open>Reachable, with the ids of the stored requests among those drawn so far.\<close>

definition platform_inv :: "'b breaker_ops \<Rightarrow> string set \<Rightarrow> 'b platform \<Rightarrow> bool" where
  "platform_inv ops drawn st \<longleftrightarrow>
     (\<exists>s0 s. sys_init s0 \<and> (sys_step ops)\<^sup>*\<^sup>* s0 s \<and> sys_tasks s = [] \<and> sys_world s = pf_world st
        \<and> sys_outbox s = leave_events (pf_outbox st))
     \<and> serial_step\<^sup>*\<^sup>* empty_requests (w_req (pf_world st)) \<and> stamps_ok (w_req (pf_world st))
     \<and> (\<forall>j. get_request (w_req (pf_world st)) j \<noteq> None \<longrightarrow> j \<in> drawn)"

lemma platform_init_inv:
  assumes "platform_init st"
  shows "platform_inv ops {} st"
proof -
  have "sys_init \<lparr>sys_world = pf_world st, sys_tasks = [], sys_outbox = [], sys_answers = []\<rparr>"
    using assms by (simp add: sys_init_def platform_init_def)
  moreover have "get_request empty_requests j = None" for j by (simp add: get_request_def empty_requests_def)
  ultimately show ?thesis
    using assms stamps_ok_empty unfolding platform_inv_def platform_init_def by fastforce
qed

lemma platform_inv_ready:
  assumes "platform_inv ops drawn st" and "clocks_ok cc" and "cc_uuid cc \<notin> drawn"
  shows "ready cc (pf_world st)"
  using assms serial.inv_reachable [OF refl] unfolding ready_def platform_inv_def by blast

lemma platform_step_inv:
  assumes "listening_ok D" and "wire_lib_ok (de_lib D)" and "platform_inv (de_ops D) drawn st"
    and "clocks_ok cc" and "cc_uuid cc \<notin> drawn"
  shows "platform_inv (de_ops D) (insert (cc_uuid cc) drawn) (fst (platform_step D cc rq st))"
proof -
  let ?st' = "fst (platform_step D cc rq st)"
  obtain evs where w: "simulated (de_ops D) (pf_world st) (pf_world ?st') evs"
      "serial_step\<^sup>*\<^sup>* (w_req (pf_world st)) (w_req (pf_world ?st'))" "stamps_ok (w_req (pf_world ?st'))"
      "\<And>j. get_request (w_req (pf_world ?st')) j \<noteq> None \<Longrightarrow> get_request (w_req (pf_world st)) j \<noteq> None \<or> j = cc_uuid cc"
    and out: "pf_outbox ?st' = pf_outbox st @ evs"
    using platform_step_served [OF assms(1,2) platform_inv_ready [OF assms(3-5)], of rq]
    unfolding well_served_def by blast
  obtain s0 s where s: "sys_init s0" "(sys_step (de_ops D))\<^sup>*\<^sup>* s0 s" "sys_tasks s = []" "sys_world s = pf_world st"
    "sys_outbox s = leave_events (pf_outbox st)"
    using assms(3) unfolding platform_inv_def by blast
  with w(1) obtain s' where s': "(sys_step (de_ops D))\<^sup>*\<^sup>* s s'" "sys_tasks s' = []" "sys_world s' = pf_world ?st'"
    "sys_outbox s' = sys_outbox s @ leave_events evs"
    unfolding simulated_def by blast
  have "(sys_step (de_ops D))\<^sup>*\<^sup>* s0 s'" using s(2) s'(1) by simp
  moreover have "sys_outbox s' = leave_events (pf_outbox ?st')" by (simp add: s'(4) s(5) out)
  moreover have "serial_step\<^sup>*\<^sup>* empty_requests (w_req (pf_world ?st'))"
    using assms(3) w(2) unfolding platform_inv_def by (meson rtranclp_trans)
  ultimately show ?thesis
    using s(1) s'(2,3) w(3,4) assms(3) unfolding platform_inv_def by (metis insert_iff)
qed

lemma platform_run_inv:
  assumes "listening_ok D" and "wire_lib_ok (de_lib D)" and "platform_inv (de_ops D) drawn st"
    and "\<forall>(cc, rq) \<in> set rqs. clocks_ok cc \<and> cc_uuid cc \<notin> drawn" and "distinct (map (cc_uuid \<circ> fst) rqs)"
  shows "\<exists>drawn'. platform_inv (de_ops D) drawn' (fst (platform_run D rqs st))"
  using assms(3-5)
proof (induction rqs arbitrary: drawn st)
  case (Cons call rqs)
  obtain cc rq where call: "call = (cc, rq)" by (cases call)
  obtain st1 r where step: "platform_step D cc rq st = (st1, r)" by (cases "platform_step D cc rq st")
  have "platform_inv (de_ops D) (insert (cc_uuid cc) drawn) st1"
    using platform_step_inv [OF assms(1,2) Cons.prems(1), of cc rq] Cons.prems(2) call step by simp
  moreover have "\<forall>(cc', rq') \<in> set rqs. clocks_ok cc' \<and> cc_uuid cc' \<notin> insert (cc_uuid cc) drawn"
    using Cons.prems(2,3) call by (auto simp: image_iff)
  moreover have "distinct (map (cc_uuid \<circ> fst) rqs)" using Cons.prems(3) by (simp add: comp_def)
  ultimately have "\<exists>drawn'. platform_inv (de_ops D) drawn' (fst (platform_run D rqs st1))" by (rule Cons.IH)
  then show ?case by (simp add: call step case_prod_beta')
qed auto

text \<open>
  C3: the whole platform is safe, whatever its clients send. After any sequence of client requests from
  the seeded start, with any tokens, forged headers and bodies, over any network and breakers: the
  approved days of every employee and leave type are at most the days deducted, these at most the
  allocation; no employee has two pending or approved requests that share a day; the applied events
  name exactly the stored requests, and every decision event tells the status its request has.
\<close>

theorem platform_runs_safe:
  assumes "listening_ok D" and "wire_lib_ok (de_lib D)" and "platform_init st"
    and "\<forall>(cc, rq) \<in> set rqs. clocks_ok cc" and "distinct (map (cc_uuid \<circ> fst) rqs)"
  shows "let st' = fst (platform_run D rqs st); req = w_req (pf_world st'); bal = w_bal (pf_world st');
      out = leave_events (pf_outbox st')
    in approved_days req k \<le> used_days bal k \<and> used_days bal k \<le> seed_allocation k
      \<and> no_overlap req
      \<and> applied_ids out = request_ids req
      \<and> distinct (map fst (decisions out))
      \<and> (\<forall>(i, status) \<in> set (decisions out). \<exists>r. get_request req i = Some r \<and> lr_status r = status)"
proof -
  let ?st' = "fst (platform_run D rqs st)"
  obtain drawn where inv: "platform_inv (de_ops D) drawn ?st'"
    using platform_run_inv [OF assms(1,2) platform_init_inv [OF assms(3)] _ assms(5)] assms(4) by auto
  then obtain s0 s where s: "sys_init s0" "(sys_step (de_ops D))\<^sup>*\<^sup>* s0 s" "sys_world s = pf_world ?st'"
    "sys_outbox s = leave_events (pf_outbox ?st')"
    unfolding platform_inv_def by blast
  have "no_overlap (w_req (pf_world ?st'))"
    using inv serial.inv_reachable [OF refl] unfolding platform_inv_def by blast
  with sys_inv_bounds [OF system.inv_reachable [OF s(1,2)], of k] notices.inv_reachable [OF s(1,2)] s(3,4)
  show ?thesis unfolding notices_ok_def Let_def by fastforce
qed

end
