(* ===== verification/Platform_Identity.thy ===== *)
theory Platform_Identity
  imports Platform_Refinement
begin

text \<open>
  Who may do what, end to end: a client with a token and no identity headers of its own is served as the
  user of the token, and what changes in the stores then is within that user's authority; a client
  that sends the headers itself is served as whoever it names.
\<close>

section \<open>Authority\<close>

text \<open>
  The changes a caller is entitled to: cancelling a pending request of one's own, as a manager deciding
  a pending request routed to oneself and deducting for such a request, and adding a pending request
  for oneself.
\<close>

definition may_move :: "CallerIdentity \<Rightarrow> LeaveRequest \<Rightarrow> LeaveRequest \<Rightarrow> bool" where
  "may_move c r r' \<longleftrightarrow>
     r' = r
     \<or> lr_status r = PENDING
       \<and> (lr_status r' = CANCELLED \<and> lr_employee_id r = ci_user_id c
          \<or> lr_status r' \<in> {APPROVED, REJECTED} \<and> ci_role c = MANAGER \<and> lr_reporting_manager_id r = ci_user_id c)"

definition may_charge :: "CallerIdentity \<Rightarrow> request_state \<Rightarrow> string \<times> LeaveType \<Rightarrow> bool" where
  "may_charge c req k \<longleftrightarrow>
     ci_role c = MANAGER
     \<and> (\<exists>i r. get_request req i = Some r \<and> lr_status r = PENDING \<and> request_key r = k
          \<and> lr_reporting_manager_id r = ci_user_id c)"

definition within_authority :: "CallerIdentity \<Rightarrow> 'b world \<Rightarrow> 'b world \<Rightarrow> bool" where
  "within_authority c w w' \<longleftrightarrow>
     (\<forall>i r. get_request (w_req w) i = Some r \<longrightarrow> (\<exists>r'. get_request (w_req w') i = Some r' \<and> may_move c r r'))
     \<and> (\<forall>i r'. get_request (w_req w') i = Some r' \<and> get_request (w_req w) i = None
          \<longrightarrow> lr_employee_id r' = ci_user_id c \<and> lr_status r' = PENDING)
     \<and> (\<forall>k. used_days (w_bal w') k = used_days (w_bal w) k \<or> may_charge c (w_req w) k)"

lemma authority_refl [simp]: "within_authority c w w"
  by (auto simp: within_authority_def may_move_def)

lemma authority_replace:
  assumes "wf_requests (w_req w)" and "get_request (w_req w) i = Some r" and "lr_request_id r' = i"
    and "w_req w' = replace_request r' (w_req w)" and "may_move c r r'"
    and "\<And>k. used_days (w_bal w') k = used_days (w_bal w) k \<or> may_charge c (w_req w) k"
  shows "within_authority c w w'"
  using assms unfolding within_authority_def by (auto simp: may_move_def split: if_splits)

lemma authority_same_requests:
  assumes "w_req w' = w_req w"
    and "\<And>k. used_days (w_bal w') k = used_days (w_bal w) k \<or> may_charge c (w_req w) k"
  shows "within_authority c w w'"
  using assms by (auto simp: within_authority_def may_move_def)

lemma cancel_authority:
  assumes "wf_requests (w_req w)"
  shows "within_authority c w (w\<lparr>w_req := fst (cancel_leave now i c (w_req w))\<rparr>)"
proof (cases "cancel_leave now i c (w_req w)")
  case (Pair s' x)
  show ?thesis
  proof (cases x)
    case (Inl e)
    with Pair cancel_leave_refused [of now i c "w_req w" s' e] show ?thesis by simp
  next
    case (Inr b)
    with Pair obtain r where r: "get_request (w_req w) i = Some r" "lr_employee_id r = ci_user_id c" "lr_status r = PENDING"
      "s' = replace_request (r\<lparr>lr_status := CANCELLED, lr_rejection_reason := None, lr_updated_at := now\<rparr>) (w_req w)"
      by (auto simp: cancel_leave_ok_iff Let_def)
    show ?thesis
      by (rule authority_replace [OF assms r(1)])
        (use Pair r wf_requestsD(3) [OF assms r(1)] in \<open>auto simp: may_move_def\<close>)
  qed
qed

lemma apply_authority:
  assumes "get_request (w_req w) i = None"
    and "apply_leave_finish i created updated c p m outcome (w_req w) = (req, evs, r)" and "bal = w_bal w"
  shows "within_authority c w (w\<lparr>w_req_bal_cb := cb, w_bal := bal, w_req := req\<rparr>)"
  using assms
  by (cases rule: apply_leave_finish_cases [of i created updated c p m outcome "w_req w"])
    (auto simp: within_authority_def may_move_def new_request_def split: if_splits)

lemma decision_authority:
  assumes "wf_requests (w_req w)" and "ci_role c = MANAGER" and "st \<in> {APPROVED, REJECTED}"
    and "decide_update ops env now i (ci_user_id c) st why (cb, w_req w) = ((cb', req), res)" and "w_req w' = req"
    and "\<And>k. used_days (w_bal w') k = used_days (w_bal w) k \<or> may_charge c (w_req w) k"
  shows "within_authority c w w'"
  using decide_update_cases [OF assms(4)]
proof (elim disjE conjE exE)
  assume "req = w_req w"
  with assms(5,6) show ?thesis by (intro authority_same_requests) auto
next
  fix r assume r: "get_request (w_req w) i = Some r" "lr_status r = PENDING" "lr_reporting_manager_id r = ci_user_id c"
    "req = replace_request (decided now st why r) (w_req w)"
  show ?thesis
    by (rule authority_replace [OF assms(1) r(1), of "decided now st why r"])
      (use r assms wf_requestsD(3) [OF assms(1) r(1)] in \<open>auto simp: may_move_def\<close>)
qed

lemma approve_authority:
  assumes "wf_requests (w_req w)" and "wf_balances (w_bal w)" and "ci_role c = MANAGER"
    and "approve_request ops n env1 env2 now i c w = (w', evs, r)"
  shows "within_authority c w w'"
proof (cases "load_pending ''approved'' n i c (w_req w)")
  case (Inl e)
  with assms(4) show ?thesis by (simp add: approve_request_def)
next
  case (Inr lr)
  then obtain q where q: "get_request (w_req w) i = Some q" "lr_status q = PENDING"
    "lr_reporting_manager_id q = ci_user_id c" "lr = LeaveRequestResponse_from_model q"
    using load_pending_ok_iff [OF assms(1), of "''approved''" n i c lr] by auto
  obtain cb bal dres where d: "approve_deduct ops env1 lr (w_mgr_bal_cb w, w_bal w) = ((cb, bal), dres)"
    by (metis prod.collapse)
  have charge: "used_days bal k = used_days (w_bal w) k \<or> may_charge c (w_req w) k" for k
    using approve_deduct_effect(1) [OF assms(2) wf_requestsD(4) [OF assms(1) q(1)] d [unfolded q(4)]] q assms(3)
    by (auto simp: charged_def may_charge_def simp del: split_paired_All)
  obtain cb' req ures where u: "decide_update ops env2 now i (ci_user_id c) APPROVED None (w_mgr_req_cb w, w_req w)
      = ((cb', req), ures)"
    by (metis prod.collapse)
  have bal: "w_bal w' = bal" and "w_req w' = w_req w \<or> w_req w' = req"
    using assms(4) Inr d u by (auto simp: approve_request_def Let_def split: sum.splits)
  then show ?thesis
    using decision_authority [OF assms(1,3) _ u] authority_same_requests [of w' w c] charge by (metis insertI1)
qed

lemma reject_authority:
  assumes "wf_requests (w_req w)" and "ci_role c = MANAGER"
    and "reject_request ops n env now i reason c w = (w', evs, r)"
  shows "within_authority c w w'"
proof (cases "load_pending ''rejected'' n i c (w_req w)")
  case (Inl e)
  with assms(3) show ?thesis by (simp add: reject_request_def)
next
  case (Inr lr)
  obtain cb' req ures where u: "decide_update ops env now i (ci_user_id c) REJECTED (Some reason) (w_mgr_req_cb w, w_req w)
      = ((cb', req), ures)"
    by (metis prod.collapse)
  have "w_bal w' = w_bal w" "w_req w' = req"
    using assms(3) Inr u by (auto simp: reject_request_def Let_def split: sum.splits)
  then show ?thesis using decision_authority [OF assms(1,2) _ u] by simp
qed

lemma approve_handler_authority:
  assumes "ready cc w" and "wf_balances (w_bal w)" and "wire_lib_ok (de_lib D)"
    and "approve_handler D cc (Inr c) args query body w = (w', evs, r)"
  shows "within_authority c w w'"
proof (cases "ci_role c = MANAGER")
  case True
  then have "require_manager (Inr c) = Inr c" by (simp add: require_manager_def)
  moreover have "approve_json (de_lib D) (de_ops D) n env1 env2 (cc_now cc) i c w
      = approve_request (de_ops D) n env1 env2 (cc_now cc) i c w" for n env1 env2 i
    using assms(1) approve_agrees [OF assms(3), of w "cc_now cc" "de_ops D" n env1 env2 i c] by (simp add: ready_def clocks_ok_def)
  ultimately obtain r' where "approve_request (de_ops D) (cc_load_net cc) (cc_first cc) (cc_second cc) (cc_now cc) (hd args) c w
      = (w', evs, r')"
    using assms(4) by (auto simp: approve_handler_def with_caller_def split: prod.splits)
  from approve_authority [OF _ assms(2) True this] assms(1) show ?thesis by (simp add: ready_def)
next
  case False
  with assms(4) show ?thesis
    by (simp add: approve_handler_def with_caller_def answer_only_def require_manager_def)
qed

lemma reject_handler_authority:
  assumes "ready cc w" and "wire_lib_ok (de_lib D)"
    and "reject_handler D cc (Inr c) args query body w = (w', evs, r)"
  shows "within_authority c w w'"
proof -
  have agree: "reject_json (de_lib D) (de_ops D) n env (cc_now cc) i reason c w
      = reject_request (de_ops D) n env (cc_now cc) i reason c w" for n env i reason
    using assms(1) reject_agrees [OF assms(2), of w "cc_now cc" "de_ops D" n env i reason c] by (simp add: ready_def clocks_ok_def)
  consider "w' = w" | reason r' where "ci_role c = MANAGER"
    "reject_request (de_ops D) (cc_load_net cc) (cc_second cc) (cc_now cc) (hd args) reason c w = (w', evs, r')"
    using assms(3) agree
    by (cases body; cases "ci_role c")
      (auto simp: reject_handler_def with_body_def with_caller_def answer_only_def require_manager_def
        split: sum.splits prod.splits)
  then show ?thesis
  proof cases
    case 1 then show ?thesis by simp
  next
    case 2 with reject_authority [OF _ 2] assms(1) show ?thesis by (simp add: ready_def)
  qed
qed

lemma apply_handler_authority:
  assumes "ready cc w" and "apply_handler D cc (Inr c) args query body w = (w', evs, r)"
  shows "within_authority c w w'"
proof -
  consider "w' = w"
    | b p m where "body = Some b"
      "checked_body (ApplyLeaveRequest_read (de_lib D)) valid_ApplyLeaveRequest b = Inr p"
      "apply_leave_begin (cc_today cc) c p (w_req w) = Inr m"
    using assms(2)
    by (cases body) (auto simp: apply_handler_def with_body_def with_caller_def answer_only_def split: sum.splits)
  then show ?thesis
  proof cases
    case (2 b p m)
    obtain cb bal outcome where call: "invoke_with_breaker (de_ops D) (ce_before (cc_first cc)) (ce_after (cc_first cc))
        (fetch_remaining_json (de_lib D) (ce_net (cc_first cc)) (ci_user_id c) (al_leave_type p)) (w_req_bal_cb w, w_bal w)
        = ((cb, bal), outcome)"
      by (metis prod.collapse)
    obtain req evs' r' where fin: "apply_leave_finish (cc_uuid cc) (cc_created cc) (cc_updated cc) c p m outcome (w_req w)
        = (req, evs', r')"
      by (metis prod_cases3)
    have "bal = w_bal w"
      using invoke_world [of "de_ops D" "ce_before (cc_first cc)" "ce_after (cc_first cc)" _ "w_req_bal_cb w" "w_bal w"] call
      by (metis fetch_remaining_agrees fetch_remaining_state fst_conv snd_conv)
    from apply_authority [OF _ fin this, of cb] assms 2 call fin show ?thesis
      by (simp add: apply_handler_def with_body_def with_caller_def Let_def ready_def)
  qed simp
qed

lemma serve_authority:
  assumes "ready cc w" and "wf_balances (w_bal w)" and "wire_lib_ok (de_lib D)"
    and "public_route (wr_method wr) path service"
    and "serve_as D cc (Inr c) service path wr w = ((w', evs), response)"
  shows "within_authority c w w'"
proof -
  note handler = serve_as_handler [OF assms(5)]
  from assms(4) show ?thesis
  proof (cases rule: public_handler [of "wr_method wr" path service D cc])
    case login show ?thesis by (rule handler [OF login]) (use reading_handlers(1) in fastforce)
  next
    case mine show ?thesis by (rule handler [OF mine]) (use reading_handlers(2) in fastforce)
  next
    case (balances x) show ?thesis by (rule handler [OF balances]) (use reading_handlers(3) in fastforce)
  next
    case history show ?thesis by (rule handler [OF history]) (use reading_handlers(4) in fastforce)
  next
    case team show ?thesis by (rule handler [OF team]) (use reading_handlers(5) in fastforce)
  next
    case applying show ?thesis by (rule handler [OF applying]) (erule apply_handler_authority [OF assms(1)])
  next
    case (cancelling x)
    show ?thesis
    proof (rule handler [OF cancelling])
      fix evs1 r assume "cancel_handler D cc (Inr c) [x] (wr_params wr) (fw_body (de_fw D) wr) w = (w', evs1, r)"
      then have "w' = w\<lparr>w_req := fst (cancel_leave (cc_now cc) x c (w_req w))\<rparr>"
        by (auto simp: cancel_handler_def with_caller_def split: prod.splits)
      with cancel_authority [of w c "cc_now cc" x] assms(1) show ?thesis by (simp add: ready_def)
    qed
  next
    case (approving x) show ?thesis by (rule handler [OF approving]) (erule approve_handler_authority [OF assms(1-3)])
  next
    case (rejecting x) show ?thesis by (rule handler [OF rejecting]) (erule reject_handler_authority [OF assms(1,3)])
  qed
qed

section \<open>Served as whom\<close>

lemma gateway_forwards:
  assumes "admits env rq user" and "public_route (rq_method rq) (rq_path rq) service"
    and "gateway_resolve (ge_consul env service) service rr = (rr', Inr base)"
    and "ge_send env (outgoing base user rq) = Inr reply"
  shows "gateway tx env rq rr =
    (rr', (rq_method rq, rq_path rq, ws_status reply), build_response (ge_header env) reply, [])"
proof -
  have "jwt_dispatch env rq rr = (rr', Inr (build_response (ge_header env) reply))"
    using admits_forward [OF assms(1,2), of rr] assms(3,4) by (simp add: forward_def)
  from gateway_Inr [OF this, of tx] show ?thesis by (simp add: build_response_def)
qed

text \<open>An admitted request over a working network is served as the caller its headers name downstream.\<close>

lemma platform_step_forwarded:
  assumes "listening_ok D" and "fw_header (de_fw D) = ge_header (de_gateway D)"
    and "admits (edge D cc) rq user" and "public_route (rq_method rq) (rq_path rq) service"
    and "gateway_resolve (ge_consul (de_gateway D) service) service (pf_cursors st) = (rr', Inr base)"
    and "cc_gateway_net cc = Delivered"
    and "serve_as D cc (caller_downstream (ge_header (de_gateway D)) user (rq_headers rq)) service (rq_path rq)
           (outgoing base user rq) (pf_world st) = ((w', evs), reply)"
  shows "platform_step D cc rq st =
    (\<lparr>pf_world = w', pf_cursors = rr', pf_outbox = pf_outbox st @ evs\<rparr>,
     build_response (ge_header (de_gateway D)) reply)"
proof -
  let ?wr = "outgoing base user rq" and ?env = "gateway_at D cc (pf_world st)"
  have "de_listening D (wr_url ?wr) = Some (service, rq_path rq)"
    using assms(1,5) unfolding listening_ok_def by (metis outgoing_simps(2) snd_conv)
  then have deliver: "deliver D cc ?wr (pf_world st) = ((w', evs), Inr reply)"
    using assms(6,7) serve_outgoing [OF assms(2)] by (simp add: deliver_def)
  have gw: "gateway (de_httpx_text D) ?env rq (pf_cursors st) =
      (rr', (rq_method rq, rq_path rq, ws_status reply), build_response (ge_header ?env) reply, [])"
    using assms(3,5) by (intro gateway_forwards [OF _ assms(4), where user = user and base = base]) (simp_all add: gateway_at_edge deliver)
  have "forwarded ?env rq (pf_cursors st) = Some ?wr"
    unfolding gateway_at_edge forwarded_env forwarded_iff using assms(3-5) by (metis edge_simps(5) snd_conv)
  with gw deliver show ?thesis
    by (simp add: platform_step_def Let_def gateway_at_edge)
qed

text \<open>A request that is not admitted changes nothing at all.\<close>

lemma platform_step_refused:
  assumes "jwt_dispatch (edge D cc) rq (pf_cursors st) = (pf_cursors st, Inr (unauthorized d))"
    and "\<And>user. \<not> admits (edge D cc) rq user"
  shows "platform_step D cc rq st = (st, unauthorized d)"
proof -
  let ?env = "gateway_at D cc (pf_world st)"
  have none: "forwarded ?env rq (pf_cursors st) = None"
    unfolding gateway_at_edge forwarded_env using assms(2) forwarded_iff by (metis option.exhaust)
  have "gateway (de_httpx_text D) ?env rq (pf_cursors st) = gateway (de_httpx_text D) (edge D cc) rq (pf_cursors st)"
  proof -
    have "edge D cc = (edge D cc)\<lparr>ge_send := ge_send (edge D cc)\<rparr>" by simp
    with gateway_sends_forwarded [of "edge D cc" rq "pf_cursors st"] none show ?thesis
      unfolding gateway_at_edge forwarded_env by (metis option.distinct(1))
  qed
  with gateway_Inr [OF assms(1)] none show ?thesis by (simp add: platform_step_def Let_def)
qed

text \<open>A presented token of the platform, and what the gateway makes of it over time.\<close>

definition bears :: "gateway_env \<Rightarrow> gw_request \<Rightarrow> string \<Rightarrow> bool" where
  "bears env rq token \<longleftrightarrow>
     (\<exists>scheme. ge_header env (rq_headers rq) ''Authorization'' = Some (scheme @ '' '' @ token)
        \<and> str_lower scheme = ''bearer'')"

lemma issued_token_text:
  assumes "jwt_ok jl"
  shows "create_access_token jl cfg t u r \<noteq> []"
    and "str_strip (create_access_token jl cfg t u r) = create_access_token jl cfg t u r"
proof -
  let ?token = "create_access_token jl cfg t u r"
  have t: "?token \<noteq> []" "\<forall>c \<in> set ?token. \<not> is_space c"
    using assms unfolding jwt_ok_def create_access_token_def by blast+
  then show "?token \<noteq> []" "str_strip ?token = ?token" by (auto intro: str_strip_no_space)
qed

lemma bears_admits:
  assumes "jwt_ok (ge_jwt env)" and "rq_path rq \<notin> set PUBLIC_PATHS"
    and "bears env rq (create_access_token (ge_jwt env) (ge_settings env) issued user_id role)"
  shows "admits env rq user \<longleftrightarrow>
    ge_now env \<le> issued + 60 * jwt_expiration_minutes (ge_settings env)
    \<and> user = Some (token_claims (ge_settings env) issued user_id role)"
proof -
  let ?token = "create_access_token (ge_jwt env) (ge_settings env) issued user_id role"
  obtain scheme where h: "ge_header env (rq_headers rq) ''Authorization'' = Some (scheme @ '' '' @ ?token)"
    "str_lower scheme = ''bearer''"
    using assms(3) unfolding bears_def by blast
  have split: "str_partition (CHR '' '') (scheme @ '' '' @ ?token) = (scheme, '' '', ?token)"
    using str_partition_present [of "CHR '' ''" scheme ?token] bearer_no_space [OF h(2)] by simp
  have "presented env rq t \<longleftrightarrow> t = ?token" for t
    unfolding presented_partition h(1) option.case split
    using h(2) issued_token_text [OF assms(1), of "ge_settings env" issued user_id role] by auto
  then show ?thesis
    using decode_created [OF assms(1), of "ge_settings env" "ge_now env" issued user_id role] assms(2)
    by (auto simp: admits_def)
qed

lemma bears_expired:
  assumes "jwt_ok (ge_jwt env)" and "rq_path rq \<notin> set PUBLIC_PATHS"
    and "bears env rq (create_access_token (ge_jwt env) (ge_settings env) issued user_id role)"
    and "\<not> ge_now env \<le> issued + 60 * jwt_expiration_minutes (ge_settings env)"
  shows "jwt_dispatch env rq rr = (rr, Inr (unauthorized ''Invalid or expired authentication token''))"
proof -
  let ?token = "create_access_token (ge_jwt env) (ge_settings env) issued user_id role"
  obtain scheme where h: "ge_header env (rq_headers rq) ''Authorization'' = Some (scheme @ '' '' @ ?token)"
    "str_lower scheme = ''bearer''"
    using assms(3) unfolding bears_def by blast
  have "str_partition (CHR '' '') (scheme @ '' '' @ ?token) = (scheme, '' '', ?token)"
    using str_partition_present [of "CHR '' ''" scheme ?token] bearer_no_space [OF h(2)] by simp
  with h assms(2,4) issued_token_text [OF assms(1), of "ge_settings env" issued user_id role]
    decode_created [OF assms(1), of "ge_settings env" "ge_now env" issued user_id role]
  show ?thesis by (simp add: jwt_dispatch_def)
qed

lemma protected_route:
  "public_route m p service \<Longrightarrow> service \<noteq> ''auth-service'' \<Longrightarrow> p \<notin> set PUBLIC_PATHS"
  using public_route_public [of m p service] by blast

lemma clean_caller:
  assumes "header_ok header" and "asgi hs" and "no_identity_headers hs" and "user_id \<noteq> []"
  shows "caller_downstream header (Some (token_claims cfg t user_id role)) hs
    = Inr \<lparr>ci_user_id = user_id, ci_role = role\<rparr>"
  using assms(3) unfolding caller_downstream_eq [OF assms(1,2)] no_identity_headers_def
  by (simp only: option.case injected_token [OF assms(4)]) (simp add: get_caller_ok_iff assms(4))

lemma issued_token_served:
  fixes D :: "'b deployment"
  assumes "listening_ok D" and "fw_header (de_fw D) = ge_header (de_gateway D)"
    and "header_ok (ge_header (de_gateway D))" and "jwt_ok (ge_jwt (de_gateway D))"
    and "asgi (rq_headers rq)" and "no_identity_headers (rq_headers rq)" and "user_id \<noteq> []"
    and "public_route (rq_method rq) (rq_path rq) service" and "service \<noteq> ''auth-service''"
    and "bears (de_gateway D) rq
           (create_access_token (ge_jwt (de_gateway D)) (ge_settings (de_gateway D)) issued user_id role)"
    and "gateway_resolve (ge_consul (de_gateway D) service) service (pf_cursors st) = (rr', Inr base)"
    and "cc_gateway_net cc = Delivered"
  shows "let cfg = ge_settings (de_gateway D);
      wr = outgoing base (Some (token_claims cfg issued user_id role)) rq
    in platform_step D cc rq st =
      (if cc_seconds cc \<le> issued + 60 * jwt_expiration_minutes cfg
       then case serve_as D cc (Inr \<lparr>ci_user_id = user_id, ci_role = role\<rparr>) service (rq_path rq) wr (pf_world st) of
           ((w', evs), reply) \<Rightarrow>
             (\<lparr>pf_world = w', pf_cursors = rr', pf_outbox = pf_outbox st @ evs\<rparr>,
              build_response (ge_header (de_gateway D)) reply)
       else (st, unauthorized ''Invalid or expired authentication token''))"
proof -
  let ?cfg = "ge_settings (de_gateway D)" and ?env = "edge D cc"
  let ?claims = "token_claims ?cfg issued user_id role"
  have bears: "jwt_ok (ge_jwt ?env)" "rq_path rq \<notin> set PUBLIC_PATHS"
    "bears ?env rq (create_access_token (ge_jwt ?env) (ge_settings ?env) issued user_id role)"
    using assms(4,10) protected_route [OF assms(8,9)] by (simp_all add: bears_def)
  note admitted = bears_admits [OF bears]
  show ?thesis
  proof (cases "cc_seconds cc \<le> issued + 60 * jwt_expiration_minutes ?cfg")
    case False
    then have "platform_step D cc rq st = (st, unauthorized ''Invalid or expired authentication token'')"
      using bears_expired [OF bears] admitted by (intro platform_step_refused) simp_all
    with False show ?thesis by (simp add: Let_def)
  next
    case True
    obtain w' evs reply where served: "serve_as D cc (Inr \<lparr>ci_user_id = user_id, ci_role = role\<rparr>) service (rq_path rq)
        (outgoing base (Some ?claims) rq) (pf_world st) = ((w', evs), reply)"
      by (metis prod.collapse)
    have "admits ?env rq (Some ?claims)" using admitted True by simp
    from platform_step_forwarded [OF assms(1,2) this assms(8,11,12), unfolded clean_caller [OF assms(3,5-7)], OF served]
      True served
    show ?thesis by (simp add: Let_def)
  qed
qed

text \<open>
  C14: a token holder who sends no identity headers is served as the user of the token. Take a request to any
  of the protected routes that bears a token issued for a user id and a role and has no header of its own that
  names a user or a role, while the gateway finds an instance of the route's service and its call is delivered.
  It is answered by the route's handler run with exactly that caller, the effects and events being the
  handler's and the answer relayed; from the second after the expiry it is a 401 and nothing changes. (With
  identity headers of its own the request is served as whomever these name.)
\<close>

theorem token_holder_served:
  fixes D :: "'b deployment"
  assumes "listening_ok D" and "fw_header (de_fw D) = ge_header (de_gateway D)"
    and "header_ok (ge_header (de_gateway D))" and "jwt_ok (ge_jwt (de_gateway D))"
    and "asgi (rq_headers rq)" and "no_identity_headers (rq_headers rq)" and "user_id \<noteq> []"
    and "public_route (rq_method rq) (rq_path rq) service" and "service \<noteq> ''auth-service''"
    and "bears (de_gateway D) rq
           (create_access_token (ge_jwt (de_gateway D)) (ge_settings (de_gateway D)) issued user_id role)"
    and "gateway_resolve (ge_consul (de_gateway D) service) service (pf_cursors st) = (rr', Inr base)"
    and "cc_gateway_net cc = Delivered"
  shows "let cfg = ge_settings (de_gateway D);
      wr = outgoing base (Some (token_claims cfg issued user_id role)) rq
    in platform_step D cc rq st =
      (if cc_seconds cc \<le> issued + 60 * jwt_expiration_minutes cfg
       then case serve_as D cc (Inr \<lparr>ci_user_id = user_id, ci_role = role\<rparr>) service (rq_path rq) wr (pf_world st) of
           ((w', evs), reply) \<Rightarrow>
             (\<lparr>pf_world = w', pf_cursors = rr', pf_outbox = pf_outbox st @ evs\<rparr>,
              build_response (ge_header (de_gateway D)) reply)
       else (st, unauthorized ''Invalid or expired authentication token''))"
  unfolding Let_def by (rule issued_token_served [OF assms, unfolded Let_def])

text \<open>
  C9: and stays within the user's authority, whatever the path, query, body and network. Every
  stored request stays stored; one that changes was pending and is either cancelled by its owner or
  decided by a manager it is routed to; a new request is a pending one of the user's own; and days are
  only deducted by a manager, for a pending request routed to that manager.
\<close>

theorem token_within_authority:
  fixes D :: "'b deployment"
  assumes "listening_ok D" and "fw_header (de_fw D) = ge_header (de_gateway D)"
    and "header_ok (ge_header (de_gateway D))" and "jwt_ok (ge_jwt (de_gateway D))" and "wire_lib_ok (de_lib D)"
    and "asgi (rq_headers rq)" and "no_identity_headers (rq_headers rq)" and "user_id \<noteq> []"
    and "rq_path rq \<notin> set PUBLIC_PATHS"
    and "bears (de_gateway D) rq
           (create_access_token (ge_jwt (de_gateway D)) (ge_settings (de_gateway D)) issued user_id role)"
    and "ready cc (pf_world st)" and "wf_balances (w_bal (pf_world st))"
  shows "within_authority \<lparr>ci_user_id = user_id, ci_role = role\<rparr>
    (pf_world st) (pf_world (fst (platform_step D cc rq st)))"
  using assms(1)
proof (cases rule: platform_step_effect [of D cc rq st])
  case (idle evs)
  then show ?thesis by simp
next
  case (run user service base w' evs' response evs)
  have "bears (edge D cc) rq (create_access_token (ge_jwt (edge D cc)) (ge_settings (edge D cc)) issued user_id role)"
    using assms(10) by (simp add: bears_def)
  from bears_admits [OF _ assms(9) this, of user] run(1) assms(4)
  have "user = Some (token_claims (ge_settings (de_gateway D)) issued user_id role)" by simp
  then have "serve_as D cc (Inr \<lparr>ci_user_id = user_id, ci_role = role\<rparr>) service (rq_path rq)
      (outgoing base user rq) (pf_world st) = ((w', evs'), response)"
    using run(3) clean_caller [OF assms(3,6-8)] by (simp add: serve_outgoing [OF assms(2)])
  from serve_authority [OF assms(11,12,5) _ this] run(2,4) show ?thesis by simp
qed

section \<open>Served as whomever the client names\<close>

lemma forged_caller:
  assumes "header_ok header" and "asgi hs"
    and "map_of (rev hs) ''x-user-id'' = Some m" and "map_of (rev hs) ''x-user-role'' = Some (Role_value role)" and "m \<noteq> []"
  shows "caller_downstream header user hs = Inr \<lparr>ci_user_id = m, ci_role = role\<rparr>"
  unfolding caller_downstream_eq [OF assms(1,2)] assms(3,4)
  by (simp add: get_caller_ok_iff assms(5))

lemma approve_route:
  assumes "path_segment i"
  shows "app_route (app_of D cc ''manager-service'') ''POST'' (''/manager/requests/'' @ i @ ''/approve'') =
    Some ((200, approve_handler D cc), [i])"
  unfolding app_route_def template_matches_def split_public_paths(3) [OF assms]
  using assms by (simp add: app_of_def manager_app_def service_names path_segment_def)

text \<open>The approval of a pending request by its manager, answered by every service, through the service's
  application.\<close>

lemma serve_approval:
  assumes "wire_lib_ok (de_lib D)" and "ready cc w" and "wf_balances (w_bal w)"
    and "passes_success (de_ops D)" and "stored_state (de_ops D)"
    and "breaker_healthy (de_ops D) (w_mgr_bal_cb w)" and "breaker_healthy (de_ops D) (w_mgr_req_cb w)"
    and "cc_load_net cc = Delivered" and "ce_net (cc_first cc) = Delivered" and "ce_net (cc_second cc) = Delivered"
    and "get_request (w_req w) i = Some r" and "lr_status r = PENDING" and "deduct_status (w_bal w) r = 200"
    and "path_segment i" and "wr_method wr = ''POST''"
    and "serve_as D cc (Inr \<lparr>ci_user_id = lr_reporting_manager_id r, ci_role = MANAGER\<rparr>) ''manager-service''
      (''/manager/requests/'' @ i @ ''/approve'') wr w = ((w', evs), reply)"
  shows "get_request (w_req w') i = Some (decided (cc_now cc) APPROVED None r)"
    and "charged (w_bal w) (w_bal w') r" and "ws_status reply = 200"
proof -
  let ?c = "\<lparr>ci_user_id = lr_reporting_manager_id r, ci_role = MANAGER\<rparr>"
  have rq: "wf_requests (w_req w)" "stamps_ok (w_req w)" "valid_datetime (cc_now cc)"
    using assms(2) by (simp_all add: ready_def clocks_ok_def)
  have ids: "lr_request_id r = i" and rok: "request_ok r"
    using wf_requestsD(3,4) [OF rq(1) assms(11)] by auto
  have guard: "require_manager (Inr ?c) = Inr ?c" by (simp add: require_manager_def)
  obtain w1 evs1 resp where run: "approve_request (de_ops D) Delivered (cc_first cc) (cc_second cc) (cc_now cc) i ?c w
      = (w1, evs1, resp)"
    by (metis prod_cases3)
  have status: "approve_status w i (ci_user_id ?c) = 200"
    using assms(11-13) by (simp add: approve_status_def load_status_def)
  note answered = approve_answered [OF assms(4-7,9,10) rq(1) run, unfolded status, simplified]
  have handled: "approve_handler D cc (Inr ?c) [i] query body w = (w1, evs1, map_result (ManagerRequestView_json (de_lib D)) resp)"
    for query body
    using run approve_agrees [OF assms(1) rq, of "de_ops D" Delivered "cc_first cc" "cc_second cc" i ?c]
    by (simp add: approve_handler_def with_caller_def guard assms(8))
  have answer: "w' = w1" "reply = fst (result_answer D ''manager-service'' (''/manager/requests/'' @ i @ ''/approve'') 200
      (map_result (ManagerRequestView_json (de_lib D)) resp))"
    using assms(16) unfolding serve_as_def assms(15) approve_route [OF assms(14)] option.case prod.case handled
    by (auto split: prod.splits)
  from answered assms(11) have w1: "w_req w1 = replace_request (decided (cc_now cc) APPROVED None r) (w_req w)"
    "w_bal w1 = fst (deduct_endpoint (deduct_request_of (LeaveRequestResponse_from_model r)) (w_bal w))" "is_ok resp"
    by (auto simp: is_ok_iff)
  show "get_request (w_req w') i = Some (decided (cc_now cc) APPROVED None r)" by (simp add: answer(1) w1(1) ids)
  show "charged (w_bal w) (w_bal w') r"
    unfolding answer(1) w1(2)
    using deduct_endpoint_charged [OF assms(3), of r] deduct_of_request [OF rok, of "w_bal w"] assms(13) by simp
  show "ws_status reply = 200"
    using w1(3) by (auto simp: answer(2) is_ok_iff result_answer_def json_answer_def)
qed

text \<open>
  C15: but a client that sends the identity headers itself is served as whomever they name. Any request
  the gateway admits, with the token of any user, that posts to a pending request's approval route
  under \<open>x-user-id\<close> and \<open>x-user-role\<close> of its manager, approves it: the request becomes APPROVED, its days
  are deducted and the answer is 200, also when the token is the employee's whose request it is.
\<close>

theorem forged_headers_approve:
  fixes D :: "'b deployment"
  assumes "listening_ok D" and "fw_header (de_fw D) = ge_header (de_gateway D)"
    and "header_ok (ge_header (de_gateway D))" and "wire_lib_ok (de_lib D)"
    and "admits (edge D cc) rq user" and "asgi (rq_headers rq)"
    and "rq_method rq = ''POST''" and "rq_path rq = ''/manager/requests/'' @ i @ ''/approve''" and "path_segment i"
    and "map_of (rev (rq_headers rq)) ''x-user-id'' = Some (lr_reporting_manager_id r)"
    and "map_of (rev (rq_headers rq)) ''x-user-role'' = Some ''MANAGER''"
    and "get_request (w_req (pf_world st)) i = Some r" and "lr_status r = PENDING"
    and "deduct_status (w_bal (pf_world st)) r = 200"
    and "ready cc (pf_world st)" and "wf_balances (w_bal (pf_world st))"
    and "passes_success (de_ops D)" and "stored_state (de_ops D)"
    and "breaker_healthy (de_ops D) (w_mgr_bal_cb (pf_world st))" and "breaker_healthy (de_ops D) (w_mgr_req_cb (pf_world st))"
    and "cc_gateway_net cc = Delivered" and "cc_load_net cc = Delivered"
    and "ce_net (cc_first cc) = Delivered" and "ce_net (cc_second cc) = Delivered"
    and "gateway_resolve (ge_consul (de_gateway D) ''manager-service'') ''manager-service'' (pf_cursors st) = (rr', Inr base)"
    and "platform_step D cc rq st = (st', response)"
  shows "get_request (w_req (pf_world st')) i = Some (decided (cc_now cc) APPROVED None r)
    \<and> charged (w_bal (pf_world st)) (w_bal (pf_world st')) r \<and> gr_status response = 200"
proof -
  have route: "public_route (rq_method rq) (rq_path rq) ''manager-service''"
    using assms(7-9) by (auto simp: public_route_def)
  have m: "lr_reporting_manager_id r \<noteq> []"
    using request_ok_ids(2) wf_requestsD(4) [OF _ assms(12)] assms(15) by (auto simp: ready_def)
  have role: "map_of (rev (rq_headers rq)) ''x-user-role'' = Some (Role_value MANAGER)" using assms(11) by simp
  note caller = forged_caller [OF assms(3,6,10) role m, of user]
  obtain w' evs reply where served: "serve_as D cc (Inr \<lparr>ci_user_id = lr_reporting_manager_id r, ci_role = MANAGER\<rparr>)
      ''manager-service'' (rq_path rq) (outgoing base user rq) (pf_world st) = ((w', evs), reply)"
    by (metis prod.collapse)
  have post: "wr_method (outgoing base user rq) = ''POST''" using assms(7) by simp
  note effect = serve_approval [OF assms(4,15-20,22-24,12-14,9) post served [unfolded assms(8)]]
  from platform_step_forwarded [OF assms(1,2,5) route assms(25,21), unfolded caller, OF served] assms(26) effect
  show ?thesis by (auto simp: build_response_def)
qed

end
