(* ===== verification/Platform_Ledger.thy ===== *)
theory Platform_Ledger
  imports Platform_Identity
begin

text \<open>
  The ledger of the platform over a network that does not fail between the services: at every quiet
  moment the days deducted are exactly the days approved, whatever the clients send.
\<close>

section \<open>Breakers that only see successes\<close>

text \<open>A documented property of the breaker package: a success does not open a breaker.\<close>

definition success_keeps_closed :: "'b breaker_ops \<Rightarrow> bool" where
  "success_keeps_closed ops \<longleftrightarrow>
     (\<forall>t b. breaker_healthy ops b \<longrightarrow> breaker_healthy ops (fst (cb_call ops t b (Inr True))))"

lemma sample_success_keeps_closed: "success_keeps_closed (sample_ops cfg)"
  by (simp add: success_keeps_closed_def breaker_healthy_def sample_ops_def sample_record_def)

lemma invoke_healthy:
  assumes "success_keeps_closed ops" and "breaker_healthy ops b" and "is_ok (snd (coro s))"
  shows "breaker_healthy ops (fst (fst (invoke_with_breaker ops t0 t1 coro (b, s))))"
proof -
  obtain s' a where "coro s = (s', Inr a)" using assms(3) by (cases "coro s") (auto simp: is_ok_iff)
  moreover have "breaker_healthy ops (fst (cb_call ops t1 b (Inr True)))"
    using assms(1,2) by (simp add: success_keeps_closed_def)
  ultimately show ?thesis
    using assms(2) by (auto simp: invoke_with_breaker_def split: prod.splits sum.splits)
qed

lemma approve_deduct_healthy:
  assumes "success_keeps_closed ops" and "breaker_healthy ops cb" and "ce_net env = Delivered"
  shows "breaker_healthy ops (fst (fst (approve_deduct ops env lr (cb, bal))))"
proof -
  let ?i = "invoke_with_breaker ops (ce_before env) (ce_after env)
      (client_deduct_balance (ce_net env) (rr_employee_id lr) (rr_leave_type lr) (rr_number_of_days lr)) (cb, bal)"
  have "breaker_healthy ops (fst (fst ?i))"
    using assms by (intro invoke_healthy) (simp_all add: client_deduct_balance_def)
  then show ?thesis by (simp add: approve_deduct_def case_prod_beta')
qed

lemma decide_update_healthy:
  assumes "success_keeps_closed ops" and "breaker_healthy ops cb" and "ce_net env = Delivered"
  shows "breaker_healthy ops (fst (fst (decide_update ops env now i m st why (cb, req))))"
proof -
  let ?i = "invoke_with_breaker ops (ce_before env) (ce_after env)
      (set_request_status (ce_net env) now i m st why) (cb, req)"
  have "breaker_healthy ops (fst (fst ?i))"
    using assms by (intro invoke_healthy) (simp_all add: set_request_status_def)
  then show ?thesis by (simp add: decide_update_def case_prod_beta')
qed

section \<open>The ledger\<close>

definition calls_delivered :: "circumstances \<Rightarrow> bool" where
  "calls_delivered cc \<longleftrightarrow>
     cc_load_net cc = Delivered \<and> ce_net (cc_first cc) = Delivered \<and> ce_net (cc_second cc) = Delivered"

definition ledger_exact :: "'b breaker_ops \<Rightarrow> 'b world \<Rightarrow> bool" where
  "ledger_exact ops w \<longleftrightarrow>
     (\<forall>k. used_days (w_bal w) k = approved_days (w_req w) k)
     \<and> breaker_healthy ops (w_mgr_bal_cb w) \<and> breaker_healthy ops (w_mgr_req_cb w)"

definition breakers_ok :: "'b breaker_ops \<Rightarrow> bool" where
  "breakers_ok ops \<longleftrightarrow> passes_success ops \<and> stored_state ops \<and> success_keeps_closed ops"

lemma approve_exact:
  assumes "breakers_ok ops" and "ledger_exact ops w"
    and "wf_requests (w_req w)" and "wf_balances (w_bal w)"
    and "ce_net env1 = Delivered" and "ce_net env2 = Delivered"
    and "approve_request ops Delivered env1 env2 now i c w = (w', evs, r)"
  shows "ledger_exact ops w'"
proof -
  have ops: "passes_success ops" "stored_state ops" "success_keeps_closed ops"
    and healthy: "breaker_healthy ops (w_mgr_bal_cb w)" "breaker_healthy ops (w_mgr_req_cb w)"
    and exact: "used_days (w_bal w) k = approved_days (w_req w) k" for k
    using assms(1,2) unfolding breakers_ok_def ledger_exact_def by blast+
  have "used_days (w_bal w') k = approved_days (w_req w') k" for k
  proof (cases "approve_status w i (ci_user_id c) = 200")
    case False
    with approve_answered [OF ops(1,2) healthy assms(5,6,3,7)] exact show ?thesis by simp
  next
    case True
    with approve_answered [OF ops(1,2) healthy assms(5,6,3,7)] obtain q where q: "get_request (w_req w) i = Some q"
      "w_req w' = replace_request (decided now APPROVED None q) (w_req w)"
      "w_bal w' = fst (deduct_endpoint (deduct_request_of (LeaveRequestResponse_from_model q)) (w_bal w))"
      "deduct_status (w_bal w) q = 200" by auto
    have id: "lr_request_id q = i" using wf_requestsD(3) [OF assms(3) q(1)] .
    have pending: "lr_status q = PENDING"
      using True q(1) by (auto simp: approve_status_def load_status_def split: if_splits)
    have "charged (w_bal w) (w_bal w') q"
      unfolding q(3) using deduct_endpoint_charged [OF assms(4), of q] q(4)
        deduct_of_request [OF wf_requestsD(4) [OF assms(3) q(1)], of "w_bal w"] by simp
    then have "used_days (w_bal w') k = used_days (w_bal w) k + (if k = request_key q then lr_number_of_days q else 0)"
      unfolding charged_def by blast
    moreover have "approved_days (w_req w') k = approved_days (w_req w) k + (if request_key q = k then lr_number_of_days q else 0)"
      unfolding q(2) using approved_days_replace [of "w_req w" "decided now APPROVED None q" q k] q(1) id pending by simp
    ultimately show ?thesis using exact [of k] by auto
  qed
  moreover have "breaker_healthy ops (w_mgr_bal_cb w') \<and> breaker_healthy ops (w_mgr_req_cb w')"
    using assms(7) healthy approve_deduct_healthy [OF ops(3) healthy(1) assms(5), of _ "w_bal w"]
      decide_update_healthy [OF ops(3) healthy(2) assms(6), of now i "ci_user_id c" APPROVED None "w_req w"]
    by (auto simp: approve_request_def Let_def split: sum.splits prod.splits) (metis fst_conv)+
  ultimately show ?thesis by (simp add: ledger_exact_def)
qed

lemma reject_exact:
  assumes "breakers_ok ops" and "ledger_exact ops w" and "wf_requests (w_req w)" and "ce_net env = Delivered"
    and "reject_request ops n env now i reason c w = (w', evs, r)"
  shows "ledger_exact ops w'"
proof (cases "load_pending ''rejected'' n i c (w_req w)")
  case (Inl e)
  with assms(2,5) show ?thesis by (simp add: reject_request_def)
next
  case (Inr lr)
  obtain cb req res where u: "decide_update ops env now i (ci_user_id c) REJECTED (Some reason) (w_mgr_req_cb w, w_req w)
      = ((cb, req), res)"
    by (metis prod.collapse)
  have w': "w' = w\<lparr>w_mgr_req_cb := cb, w_req := req\<rparr>"
    using assms(5) Inr u by (auto simp: reject_request_def Let_def split: sum.splits)
  have "approved_days req k = approved_days (w_req w) k" for k
    using decide_update_days [OF assms(3) u, of k] by simp
  moreover have "breaker_healthy ops cb"
    using decide_update_healthy [of ops "w_mgr_req_cb w" env now i "ci_user_id c" REJECTED "Some reason" "w_req w"]
      assms(1,2,4) u by (simp add: breakers_ok_def ledger_exact_def)
  ultimately show ?thesis using assms(2) by (simp add: ledger_exact_def w')
qed

lemma exact_same_days:
  assumes "ledger_exact ops w" and "w_bal w' = w_bal w" and "w_mgr_bal_cb w' = w_mgr_bal_cb w"
    and "w_mgr_req_cb w' = w_mgr_req_cb w" and "\<And>k. approved_days (w_req w') k = approved_days (w_req w) k"
  shows "ledger_exact ops w'"
  using assms by (simp add: ledger_exact_def)

lemma apply_handler_exact:
  assumes "ready cc w" and "ledger_exact (de_ops D) w"
    and "apply_handler D cc caller args query body w = (w', evs, r)"
  shows "ledger_exact (de_ops D) w'"
proof -
  consider "w' = w"
    | b c p m where "body = Some b" "caller = Inr c"
      "checked_body (ApplyLeaveRequest_read (de_lib D)) valid_ApplyLeaveRequest b = Inr p"
      "apply_leave_begin (cc_today cc) c p (w_req w) = Inr m"
    using assms(3)
    by (cases body; cases caller)
      (auto simp: apply_handler_def with_body_def with_caller_def answer_only_def split: sum.splits)
  then show ?thesis
  proof cases
    case 1 with assms(2) show ?thesis by simp
  next
    case (2 b c p m)
    obtain cb bal outcome where call: "invoke_with_breaker (de_ops D) (ce_before (cc_first cc)) (ce_after (cc_first cc))
        (fetch_remaining_json (de_lib D) (ce_net (cc_first cc)) (ci_user_id c) (al_leave_type p)) (w_req_bal_cb w, w_bal w)
        = ((cb, bal), outcome)"
      by (metis prod.collapse)
    obtain req evs' r' where fin: "apply_leave_finish (cc_uuid cc) (cc_created cc) (cc_updated cc) c p m outcome (w_req w)
        = (req, evs', r')"
      by (metis prod_cases3)
    have "bal = w_bal w"
      using invoke_world [of "de_ops D" "ce_before (cc_first cc)" "ce_after (cc_first cc)" _ "w_req_bal_cb w" "w_bal w"] call
      by (metis fetch_remaining_agrees fetch_remaining_state fst_conv snd_conv)
    moreover have "w' = w\<lparr>w_req_bal_cb := cb, w_bal := bal, w_req := req\<rparr>"
      using assms(3) 2 call fin by (simp add: apply_handler_def with_body_def with_caller_def Let_def)
    moreover have "approved_days req k = approved_days (w_req w) k" for k
      using assms(1) fin
      by (cases rule: apply_leave_finish_cases [of "cc_uuid cc" "cc_created cc" "cc_updated cc" c p m outcome "w_req w"])
        (auto simp: ready_def new_request_def approved_days_add)
    ultimately show ?thesis by (intro exact_same_days [OF assms(2)]) simp_all
  qed
qed

lemma cancel_handler_exact:
  assumes "ready cc w" and "ledger_exact ops w" and "cancel_handler D cc caller args query body w = (w', evs, r)"
  shows "ledger_exact ops w'"
proof (cases caller)
  case (Inl e)
  with assms show ?thesis by (simp add: cancel_handler_def with_caller_def answer_only_def)
next
  case (Inr c)
  with assms(3) have "w' = w\<lparr>w_req := fst (cancel_leave (cc_now cc) (hd args) c (w_req w))\<rparr>"
    by (auto simp: cancel_handler_def with_caller_def split: prod.splits)
  with assms(1) cancel_days [of "w_req w"] show ?thesis by (intro exact_same_days [OF assms(2)]) (simp_all add: ready_def)
qed

lemma approve_handler_exact:
  assumes "ready cc w" and "wire_lib_ok (de_lib D)" and "breakers_ok (de_ops D)" and "ledger_exact (de_ops D) w"
    and "wf_balances (w_bal w)" and "calls_delivered cc"
    and "approve_handler D cc caller args query body w = (w', evs, r)"
  shows "ledger_exact (de_ops D) w'"
proof (cases "require_manager caller")
  case (Inl e)
  with assms(4,7) show ?thesis by (simp add: approve_handler_def with_caller_def answer_only_def)
next
  case (Inr c)
  have rq: "wf_requests (w_req w)" "stamps_ok (w_req w)" "valid_datetime (cc_now cc)"
    using assms(1) by (simp_all add: ready_def clocks_ok_def)
  from assms(7) Inr approve_agrees [OF assms(2) rq, of "de_ops D" "cc_load_net cc" "cc_first cc" "cc_second cc" "hd args" c]
  obtain r' where "approve_request (de_ops D) Delivered (cc_first cc) (cc_second cc) (cc_now cc) (hd args) c w = (w', evs, r')"
    using assms(6) by (auto simp: approve_handler_def with_caller_def calls_delivered_def split: prod.splits)
  from approve_exact [OF assms(3,4) rq(1) assms(5) _ _ this] assms(6) show ?thesis by (simp add: calls_delivered_def)
qed

lemma reject_handler_exact:
  assumes "ready cc w" and "wire_lib_ok (de_lib D)" and "breakers_ok (de_ops D)" and "ledger_exact (de_ops D) w"
    and "calls_delivered cc" and "reject_handler D cc caller args query body w = (w', evs, r)"
  shows "ledger_exact (de_ops D) w'"
proof -
  have rq: "wf_requests (w_req w)" "stamps_ok (w_req w)" "valid_datetime (cc_now cc)"
    using assms(1) by (simp_all add: ready_def clocks_ok_def)
  note agree = reject_agrees [OF assms(2) rq, of "de_ops D" "cc_load_net cc" "cc_second cc" "hd args"]
  consider "w' = w" | c reason r' where
    "reject_request (de_ops D) (cc_load_net cc) (cc_second cc) (cc_now cc) (hd args) reason c w = (w', evs, r')"
    using assms(6) agree
    by (cases body; cases "require_manager caller")
      (auto simp: reject_handler_def with_body_def with_caller_def answer_only_def split: sum.splits prod.splits)
  then show ?thesis
  proof cases
    case 1 with assms(4) show ?thesis by simp
  next
    case 2 from reject_exact [OF assms(3,4) rq(1) _ this] assms(5) show ?thesis by (simp add: calls_delivered_def)
  qed
qed

lemma serve_exact:
  assumes "ready cc w" and "wire_lib_ok (de_lib D)" and "breakers_ok (de_ops D)" and "ledger_exact (de_ops D) w"
    and "wf_balances (w_bal w)" and "calls_delivered cc" and "public_route (wr_method wr) path service"
    and "serve_as D cc caller service path wr w = ((w', evs), response)"
  shows "ledger_exact (de_ops D) w'"
proof -
  note handler = serve_as_handler [OF assms(8)]
  from assms(7) show ?thesis
  proof (cases rule: public_handler [of "wr_method wr" path service D cc])
    case login show ?thesis by (rule handler [OF login]) (use reading_handlers(1) assms(4) in fastforce)
  next
    case mine show ?thesis by (rule handler [OF mine]) (use reading_handlers(2) assms(4) in fastforce)
  next
    case (balances x) show ?thesis by (rule handler [OF balances]) (use reading_handlers(3) assms(4) in fastforce)
  next
    case history show ?thesis by (rule handler [OF history]) (use reading_handlers(4) assms(4) in fastforce)
  next
    case team show ?thesis by (rule handler [OF team]) (use reading_handlers(5) assms(4) in fastforce)
  next
    case applying show ?thesis by (rule handler [OF applying]) (erule apply_handler_exact [OF assms(1,4)])
  next
    case (cancelling x) show ?thesis by (rule handler [OF cancelling]) (erule cancel_handler_exact [OF assms(1,4)])
  next
    case (approving x) show ?thesis by (rule handler [OF approving]) (erule approve_handler_exact [OF assms(1-6)])
  next
    case (rejecting x) show ?thesis by (rule handler [OF rejecting]) (erule reject_handler_exact [OF assms(1-4,6)])
  qed
qed

section \<open>Runs\<close>

lemma platform_step_exact:
  assumes "listening_ok D" and "wire_lib_ok (de_lib D)" and "breakers_ok (de_ops D)" and "calls_delivered cc"
    and "ready cc (pf_world st)" and "wf_balances (w_bal (pf_world st))" and "ledger_exact (de_ops D) (pf_world st)"
  shows "ledger_exact (de_ops D) (pf_world (fst (platform_step D cc rq st)))"
  using assms(1)
proof (cases rule: platform_step_effect [of D cc rq st])
  case (idle evs)
  with assms(7) show ?thesis by simp
next
  case (run user service base w' evs' response evs)
  have "public_route (wr_method (outgoing base user rq)) (rq_path rq) service" using run(2) by simp
  from serve_exact [OF assms(5,2,3,7,6,4) this run(3) [unfolded serve_def]] run(4) show ?thesis by simp
qed

lemma platform_run_exact:
  assumes "listening_ok D" and "wire_lib_ok (de_lib D)" and "breakers_ok (de_ops D)"
    and "platform_inv (de_ops D) drawn st" and "ledger_exact (de_ops D) (pf_world st)"
    and "\<forall>(cc, rq) \<in> set rqs. clocks_ok cc \<and> calls_delivered cc \<and> cc_uuid cc \<notin> drawn"
    and "distinct (map (cc_uuid \<circ> fst) rqs)"
  shows "ledger_exact (de_ops D) (pf_world (fst (platform_run D rqs st)))"
  using assms(4-7)
proof (induction rqs arbitrary: drawn st)
  case (Cons call rqs)
  obtain cc rq where call: "call = (cc, rq)" by (cases call)
  obtain st1 r where step: "platform_step D cc rq st = (st1, r)" by (cases "platform_step D cc rq st")
  have cc: "clocks_ok cc" "calls_delivered cc" "cc_uuid cc \<notin> drawn" using Cons.prems(3) call by simp_all
  have "platform_inv (de_ops D) (insert (cc_uuid cc) drawn) st1"
    using platform_step_inv [OF assms(1,2) Cons.prems(1) cc(1,3), of rq] step by simp
  moreover have "wf_balances (w_bal (pf_world st))"
    using Cons.prems(1) sys_invD(1) system.inv_reachable unfolding platform_inv_def by metis
  then have "ledger_exact (de_ops D) (pf_world st1)"
    using platform_step_exact [OF assms(1-3) cc(2) platform_inv_ready [OF Cons.prems(1) cc(1,3)] _ Cons.prems(2), of rq] step
    by simp
  moreover have "\<forall>(cc', rq') \<in> set rqs. clocks_ok cc' \<and> calls_delivered cc' \<and> cc_uuid cc' \<notin> insert (cc_uuid cc) drawn"
    using Cons.prems(3,4) call by (auto simp: image_iff)
  moreover have "distinct (map (cc_uuid \<circ> fst) rqs)" using Cons.prems(4) by (simp add: comp_def)
  ultimately have "ledger_exact (de_ops D) (pf_world (fst (platform_run D rqs st1)))" by (rule Cons.IH)
  then show ?case by (simp add: call step case_prod_beta')
qed simp

text \<open>
  C8: without failures between the services nothing leaks. After any sequence of client requests from
  the seeded start, served one at a time, with whatever tokens, headers and bodies and however the
  clients' own connections fail, if the calls among the services are answered, the days deducted
  are exactly the days of the approved requests, for every employee and leave type, and the
  manager's breakers never open.
\<close>

theorem undisturbed_runs_exact:
  assumes "listening_ok D" and "wire_lib_ok (de_lib D)" and "breakers_ok (de_ops D)" and "platform_init st"
    and "breaker_healthy (de_ops D) (w_mgr_bal_cb (pf_world st))" and "breaker_healthy (de_ops D) (w_mgr_req_cb (pf_world st))"
    and "\<forall>(cc, rq) \<in> set rqs. clocks_ok cc \<and> calls_delivered cc" and "distinct (map (cc_uuid \<circ> fst) rqs)"
  shows "let w = pf_world (fst (platform_run D rqs st)) in
    used_days (w_bal w) k = approved_days (w_req w) k
    \<and> breaker_healthy (de_ops D) (w_mgr_bal_cb w) \<and> breaker_healthy (de_ops D) (w_mgr_req_cb w)"
proof -
  obtain uuids where u: "inj uuids" "seed_balances uuids empty_balances = Inr (w_bal (pf_world st))"
    and e: "w_req (pf_world st) = empty_requests"
    using assms(4) by (auto simp: platform_init_def)
  have "approved_days empty_requests k = 0" for k by (simp add: approved_days_def empty_requests_def)
  then have "ledger_exact (de_ops D) (pf_world st)"
    using assms(5,6) seeded_days [OF u] by (simp add: ledger_exact_def e)
  from platform_run_exact [OF assms(1-3) platform_init_inv [OF assms(4)] this _ assms(8)] assms(7)
  have "ledger_exact (de_ops D) (pf_world (fst (platform_run D rqs st)))" by auto
  then show ?thesis unfolding ledger_exact_def Let_def by blast
qed

end
