(* ===== verification/Platform_Session.thy ===== *)
theory Platform_Session
  imports Platform_Identity
begin

text \<open>
  From the credentials to the service: what a client gets for logging in through the gateway, and what
  the token in that answer is good for in its later requests.
\<close>

text \<open>The settings of the Auth Service and of the gateway agree on how tokens are made.\<close>

definition same_tokens :: "Settings \<Rightarrow> Settings \<Rightarrow> bool" where
  "same_tokens cfg cfg' \<longleftrightarrow> jwt_secret_key cfg = jwt_secret_key cfg' \<and> jwt_algorithm cfg = jwt_algorithm cfg'
     \<and> jwt_expiration_minutes cfg = jwt_expiration_minutes cfg'"

lemma same_tokens_create: "same_tokens cfg cfg' \<Longrightarrow> create_access_token jl cfg now u r = create_access_token jl cfg' now u r"
  by (simp add: same_tokens_def create_access_token_def token_claims_def)

definition credentials :: "string \<Rightarrow> string \<Rightarrow> json" where
  "credentials username password = JObj [(''username'', JStr username), (''password'', JStr password)]"

definition seeded_user :: "string \<Rightarrow> string \<Rightarrow> SeedUser option" where
  "seeded_user username password =
     List.find (\<lambda>u. su_username u = username \<and> su_password u = password) SEED_USERS"

text \<open>The answer of the login route, as the client gets it.\<close>

definition login_answer :: "'b deployment \<Rightarrow> int \<Rightarrow> SeedUser option \<Rightarrow> gw_response" where
  "login_answer D now user =
     build_response (ge_header (de_gateway D))
       (case user of
          None \<Rightarrow> json_answer (de_fw D) 401 (JObj [(''detail'', JStr ''Invalid username or password'')])
        | Some u \<Rightarrow> json_answer (de_fw D) 200
            (JObj [(''access_token'', JStr (create_access_token (ge_jwt (de_gateway D)) (ge_settings (de_gateway D))
                now (su_user_id u) (su_role u))),
              (''token_type'', JStr ''bearer'')]))"

lemma login_served:
  assumes "bcrypt_ok (de_passwords D)" and "de_users D = seed_users (de_passwords D) salts empty_users"
    and "same_tokens (de_auth_settings D) (ge_settings (de_gateway D))" and "wire_lib_ok (de_lib D)"
    and "username \<noteq> []" and "password \<noteq> []" and "ordinary password"
    and "wr_method wr = ''POST''" and "fw_body (de_fw D) wr = Some (credentials username password)"
  shows "\<exists>reply. serve_as D cc caller ''auth-service'' ''/auth/login'' wr w = ((w, []), reply)
    \<and> build_response (ge_header (de_gateway D)) reply = login_answer D (cc_seconds cc) (seeded_user username password)"
proof -
  have route: "app_route (app_of D cc ''auth-service'') ''POST'' ''/auth/login'' = Some ((200, login_handler D cc), [])"
    by (simp add: app_defs)
  let ?p = "\<lparr>lq_username = username, lq_password = password\<rparr>"
  have body: "checked_body (LoginRequest_read (de_lib D)) valid_LoginRequest (credentials username password) = Inr ?p"
    using assms(4-6) by (simp add: checked_body_def LoginRequest_read_def credentials_def valid_LoginRequest_def Suc_le_eq)
  have login: "login (de_passwords D) (ge_jwt (de_gateway D)) (de_auth_settings D) (cc_seconds cc) ?p (de_users D) =
      (case seeded_user username password of
         None \<Rightarrow> Inl invalid_credentials
       | Some u \<Rightarrow> Inr \<lparr>lp_access_token = create_access_token (ge_jwt (de_gateway D)) (ge_settings (de_gateway D))
           (cc_seconds cc) (su_user_id u) (su_role u), lp_token_type = ''bearer''\<rparr>)"
    unfolding assms(2) using login_seeded [OF assms(1), of ?p] assms(7) same_tokens_create [OF assms(3)]
    by (simp add: seeded_user_def cong: option.case_cong)
  show ?thesis
    by (cases "seeded_user username password")
      (simp_all add: serve_as_def assms(8,9) route login_handler_def with_body_def answer_only_def body login
        result_answer_def invalid_credentials_def unhandled_exception_handler_def detail_json_def
        login_answer_def LoginResponse_json_def)
qed

lemma seeded_user_id: "seeded_user username password = Some u \<Longrightarrow> su_user_id u \<noteq> []"
proof -
  assume "seeded_user username password = Some u"
  then have "u \<in> set SEED_USERS" unfolding seeded_user_def find_Some_iff by (metis nth_mem)
  then show "su_user_id u \<noteq> []" by (auto simp: SEED_USERS_def)
qed


end
