(* ===== verification/Platform_Demo.thy ===== *)
theory Platform_Demo
  imports Platform_Runs Platform_Ledger Platform_Session
begin

text \<open>
  A deployment of sample libraries over the static addresses, and the instances that show the hypotheses
  of the properties of the wire and of the platform can hold.
\<close>

section \<open>The deployment\<close>

definition demo_framework :: framework where
  "demo_framework =
     \<lparr>fw_header = demo_header,
      fw_body = (\<lambda>wr. if wr_body wr = [] then Some JNull else Some (from_nat (length (wr_body wr) - 1))),
      fw_dumps = (\<lambda>j. replicate (Suc (to_nat j)) (CHR ''j'')),
      fw_errors = JList [], fw_headers = (\<lambda>text. [(''content-type'', ''application/json'')]),
      fw_unrouted = (\<lambda>wr. \<lparr>ws_status = 404, ws_headers = [], ws_content = []\<rparr>)\<rparr>"

text \<open>The static addresses: \<open>http://<service>:<port>\<close>, a port of four digits.\<close>

definition demo_listening :: "string \<Rightarrow> (string \<times> string) option" where
  "demo_listening url =
     (let host = takeWhile (\<lambda>c. c \<noteq> CHR '':'') (drop 7 url)
      in if host \<in> set known_services then Some (host, drop (12 + length host) url) else None)"

definition demo_deployment :: "sample_cb deployment" where
  "demo_deployment =
     \<lparr>de_fw = demo_framework, de_lib = sample_wire, de_ops = demo_ops, de_passwords = sample_passwords,
      de_auth_settings = demo_settings, de_users = seed_users sample_passwords (\<lambda>n. []) empty_users,
      de_gateway = demo_gateway, de_listening = demo_listening, de_httpx_text = (\<lambda>e. ''error'')\<rparr>"

definition demo_cc :: circumstances where
  "demo_cc =
     \<lparr>cc_seconds = 100, cc_today = demo_date 1, cc_now = demo_time, cc_created = demo_time, cc_updated = demo_time,
      cc_uuid = ''b'', cc_gateway_net = Delivered, cc_load_net = Delivered, cc_first = demo_env, cc_second = demo_env\<rparr>"

definition demo_platform :: "sample_cb platform" where
  "demo_platform = \<lparr>pf_world = demo_world, pf_cursors = [], pf_outbox = []\<rparr>"

definition demo_platform_start :: "sample_cb platform" where
  "demo_platform_start = \<lparr>pf_world = sys_world demo_start, pf_cursors = [], pf_outbox = []\<rparr>"

lemma demo_deployment_simps [simp]:
  "de_fw demo_deployment = demo_framework" "de_lib demo_deployment = sample_wire" "de_ops demo_deployment = demo_ops"
  "de_gateway demo_deployment = demo_gateway" "fw_header demo_framework = demo_header"
  "ge_header demo_gateway = demo_header" "ge_jwt demo_gateway = sample_jwt" "ge_settings demo_gateway = demo_settings"
  by (simp_all add: demo_deployment_def demo_framework_def demo_gateway_def)

lemma demo_cc_simps [simp]:
  "cc_seconds demo_cc = 100" "cc_uuid demo_cc = ''b''" "cc_now demo_cc = demo_time" "cc_gateway_net demo_cc = Delivered"
  "cc_load_net demo_cc = Delivered" "cc_first demo_cc = demo_env" "cc_second demo_cc = demo_env"
  by (simp_all add: demo_cc_def)

lemma demo_platform_simps [simp]:
  "pf_world demo_platform = demo_world" "pf_cursors demo_platform = []"
  by (simp_all add: demo_platform_def)

lemma demo_resolve: "gateway_resolve (ge_consul demo_gateway service) service rr = (rr, gateway_static_base_url service)"
  by (simp add: gateway_resolve_def gateway_query_consul_def demo_gateway_def)

lemma four_digits: "length (str_of_int 8001) = 4" "length (str_of_int 8002) = 4" "length (str_of_int 8003) = 4"
  "length (str_of_int 8004) = 4" "length (str_of_int 8005) = 4"
  by (simp_all add: str_of_int_def str_of_nat.simps)

lemma static_addresses:
  "list_all (\<lambda>(name, host, port). host = name \<and> length (str_of_int port) = 4 \<and> CHR '':'' \<notin> set name
     \<and> name \<in> set known_services) GATEWAY_STATIC_SERVICE_MAP"
  by (simp add: GATEWAY_STATIC_SERVICE_MAP_def known_services_def STATIC_SERVICE_MAP_def four_digits)

lemma static_address:
  assumes "gateway_static_base_url service = Inr base"
  obtains port where "base = ''http://'' @ service @ '':'' @ port" "length port = 4" "CHR '':'' \<notin> set service"
    "service \<in> set known_services"
proof -
  from assms obtain host p where d: "dict_get GATEWAY_STATIC_SERVICE_MAP service = Some (host, p)"
    and base: "base = ''http://'' @ host @ '':'' @ str_of_int p"
    by (auto simp only: gateway_static_base_url_def split: option.splits)
  then have "(service, host, p) \<in> set GATEWAY_STATIC_SERVICE_MAP" by (metis dict_get_def map_of_SomeD)
  with static_addresses have "host = service \<and> length (str_of_int p) = 4 \<and> CHR '':'' \<notin> set service
      \<and> service \<in> set known_services"
    unfolding list_all_iff by blast
  with base that [of "str_of_int p"] show ?thesis by blast
qed

lemma demo_listening_static:
  assumes "CHR '':'' \<notin> set service" "service \<in> set known_services" "length port = 4"
  shows "demo_listening (''http://'' @ service @ '':'' @ port @ path) = Some (service, path)"
proof -
  have "takeWhile (\<lambda>c. c \<noteq> CHR '':'') (service @ '':'' @ port @ path) = service"
    using assms(1) by (subst takeWhile_append2) auto
  moreover have "drop (12 + length service) (''http://'' @ service @ '':'' @ port @ path) = path"
    using assms(3) by (simp add: eval_nat_numeral)
  ultimately show ?thesis using assms(2) unfolding demo_listening_def by (simp del: append_Cons add: Let_def)
qed

lemma demo_listening_ok: "listening_ok demo_deployment"
proof -
  have "demo_listening (base @ path) = Some (service, path)" if "gateway_static_base_url service = Inr base" for service base path
    using that by (rule static_address) (simp only: append_assoc demo_listening_static not_False_eq_True)
  then show ?thesis by (simp add: listening_ok_def demo_resolve) (simp add: demo_deployment_def)
qed

lemma demo_clocks: "valid_datetime demo_time" "clocks_ok demo_cc" "calls_delivered demo_cc"
  by (simp_all add: valid_datetime_def demo_time_def clocks_ok_def calls_delivered_def demo_cc_def)

lemma demo_stamps: "stamps_ok demo_requests"
  by (simp add: stamps_ok_def) (simp add: demo_request_def new_request_def demo_clocks)

lemma demo_ready: "ready demo_cc (pf_world demo_platform)"
  by (simp add: ready_def demo_requests_wf demo_stamps demo_clocks)

section \<open>The wire\<close>

theorem schemas_roundtrip_witness:
  "StatusUpdateRequest_read sample_wire (JObj (status_body MANAGER1_ID APPROVED None))
     = Some \<lparr>sr_new_status = APPROVED, sr_manager_id = MANAGER1_ID, sr_rejection_reason = None\<rparr>
   \<and> from_payload sample_wire (LeaveRequestResponse_json sample_wire (LeaveRequestResponse_from_model demo_request))
     = Inr (ManagerRequestView_from_payload (LeaveRequestResponse_from_model demo_request))"
proof -
  have "get_request demo_requests ''a'' = Some demo_request" by simp
  then have "sendable (LeaveRequestResponse_from_model demo_request)"
    using demo_requests_wf demo_stamps by (intro sendable_stored)
  from schemas_roundtrip [OF sample_wire_ok this] show ?thesis by blast
qed

theorem wire_handlers_agree_witness:
  "approve_json sample_wire demo_ops Delivered demo_env demo_env demo_time ''a'' demo_manager demo_world
     = approve_request demo_ops Delivered demo_env demo_env demo_time ''a'' demo_manager demo_world
   \<and> is_ok (snd (snd (approve_request demo_ops Delivered demo_env demo_env demo_time ''a'' demo_manager demo_world)))
   \<and> manager_list_json sample_wire Delivered demo_manager None None None None demo_requests
       = manager_list_requests (text_date sample_wire) Delivered demo_manager None None None None demo_requests"
proof -
  obtain w' evs resp where d: "approve_request demo_ops Delivered demo_env demo_env demo_time ''a'' demo_manager demo_world
      = (w', evs, resp)" by (cases rule: prod_cases3)
  from demo_approve_ok [OF this] d wire_handlers_agree [OF sample_wire_ok, of demo_world demo_time demo_ops Delivered
      demo_env demo_env "''a''" demo_manager]
  show ?thesis by (simp add: demo_requests_wf demo_stamps demo_clocks)
qed

section \<open>The platform\<close>

lemma demo_starts: "platform_init demo_platform_start" "clocks_ok demo_cc"
  using demo_init demo_clocks by (auto simp: demo_platform_start_def platform_init_def sys_init_def)

lemma platform_refines_system_witness:
  "\<exists>s'. (sys_step demo_ops)\<^sup>*\<^sup>* demo_system s' \<and> sys_tasks s' = []
     \<and> sys_world s' = pf_world (fst (platform_step demo_deployment demo_cc (demo_rq []) demo_platform))"
proof -
  have "sys_world demo_system = pf_world demo_platform" "sys_tasks demo_system = []" "wire_lib_ok (de_lib demo_deployment)"
    by (simp_all add: demo_system_def demo_start_def sample_wire_ok)
  with platform_refines_system [OF demo_listening_ok _ demo_ready, of demo_system "demo_rq []"] show ?thesis by auto
qed

theorem platform_runs_safe_witness:
  "no_overlap (w_req (pf_world (fst (platform_run demo_deployment [(demo_cc, demo_rq [])] demo_platform_start))))"
  using platform_runs_safe [OF demo_listening_ok _ demo_starts(1), of "[(demo_cc, demo_rq [])]"]
  by (simp add: Let_def sample_wire_ok demo_clocks)

definition demo_after :: "sample_cb world" where
  "demo_after = pf_world (fst (platform_run demo_deployment [(demo_cc, demo_rq [])] demo_platform_start))"

theorem undisturbed_runs_exact_witness:
  "used_days (w_bal demo_after) (EMP1_ID, CASUAL) = approved_days (w_req demo_after) (EMP1_ID, CASUAL)"
proof -
  have "breakers_ok (de_ops demo_deployment)" "breaker_healthy (de_ops demo_deployment) (w_mgr_bal_cb (pf_world demo_platform_start))"
    "breaker_healthy (de_ops demo_deployment) (w_mgr_req_cb (pf_world demo_platform_start))"
    by (simp_all add: breakers_ok_def sample_success_keeps_closed demo_platform_start_def demo_start_def demo_healthy)
  from undisturbed_runs_exact [OF demo_listening_ok _ this(1) demo_starts(1) this(2,3), of "[(demo_cc, demo_rq [])]"]
  show ?thesis unfolding demo_after_def Let_def by (simp add: sample_wire_ok demo_clocks del: platform_run.simps)
qed

lemma demo_bears: "bears demo_gateway (demo_rq []) (create_access_token sample_jwt demo_settings 0 EMP1_ID EMPLOYEE)"
  using demo_bearer(1) [of "[]"] demo_bearer(2) by (auto simp: bears_def demo_token_def)

lemma demo_no_identity: "no_identity_headers (rq_headers (demo_rq []))" "EMP1_ID \<noteq> []"
  "rq_path (demo_rq []) \<notin> set PUBLIC_PATHS"
  by (simp_all add: no_identity_headers_def demo_rq_def EMP1_ID_def PUBLIC_PATHS_def)

lemma demo_resolved: "gateway_resolve (ge_consul demo_gateway ''manager-service'') ''manager-service'' [] =
    ([], Inr (''http://manager-service:'' @ str_of_int 8004))"
  unfolding demo_resolve by (simp add: gateway_static_base_url_def GATEWAY_STATIC_SERVICE_MAP_def dict_get_def)

definition demo_sent :: wire_request where
  "demo_sent = outgoing (''http://manager-service:'' @ str_of_int 8004)
     (Some (token_claims demo_settings 0 EMP1_ID EMPLOYEE)) (demo_rq [])"

theorem token_holder_served_witness:
  "\<exists>w' evs reply. serve_as demo_deployment demo_cc (Inr demo_employee) ''manager-service'' ''/manager/requests''
       demo_sent demo_world = ((w', evs), reply)
     \<and> platform_step demo_deployment demo_cc (demo_rq []) demo_platform
         = (\<lparr>pf_world = w', pf_cursors = [], pf_outbox = evs\<rparr>, build_response demo_header reply)"
proof -
  obtain w' evs reply where s: "serve_as demo_deployment demo_cc (Inr demo_employee) ''manager-service'' ''/manager/requests''
      demo_sent demo_world = ((w', evs), reply)" by (metis surj_pair)
  have "rq_path (demo_rq []) = ''/manager/requests''" "pf_outbox demo_platform = []" "jwt_expiration_minutes demo_settings = 60"
    by (simp_all add: demo_rq_def demo_platform_def demo_settings_def)
  moreover have "fw_header (de_fw demo_deployment) = ge_header (de_gateway demo_deployment)"
    "header_ok (ge_header (de_gateway demo_deployment))" "jwt_ok (ge_jwt (de_gateway demo_deployment))"
    "''manager-service'' \<noteq> ''auth-service''" "cc_gateway_net demo_cc = Delivered"
    using demo_header_ok by simp_all
  moreover have "bears (de_gateway demo_deployment) (demo_rq [])
      (create_access_token (ge_jwt (de_gateway demo_deployment)) (ge_settings (de_gateway demo_deployment)) 0 EMP1_ID EMPLOYEE)"
    "gateway_resolve (ge_consul (de_gateway demo_deployment) ''manager-service'') ''manager-service'' (pf_cursors demo_platform)
      = ([], Inr (''http://manager-service:'' @ str_of_int 8004))"
    using demo_bears demo_resolved by simp_all
  ultimately show ?thesis
    using token_holder_served [OF demo_listening_ok _ _ _ demo_asgi(2) demo_no_identity(1,2) demo_route] s
    by (simp add: Let_def demo_sent_def demo_employee_def)
qed

text \<open>The employee logs in at time 0 and asks for the manager's list at time 100.\<close>

definition demo_login :: gw_request where
  "demo_login = \<lparr>rq_method = ''POST'', rq_path = ''/auth/login'', rq_query = [], rq_headers = [],
     rq_body = fw_dumps demo_framework (credentials ''emp1'' ''Employee@123'')\<rparr>"

lemma demo_user:
  obtains u where "seeded_user ''emp1'' ''Employee@123'' = Some u" "su_user_id u = EMP1_ID" "su_role u = EMPLOYEE"
  by (simp add: seeded_user_def SEED_USERS_def EMP1_ID_def)


theorem token_within_authority_witness:
  "within_authority demo_employee demo_world (pf_world (fst (platform_step demo_deployment demo_cc (demo_rq []) demo_platform)))"
  using token_within_authority [of demo_deployment "demo_rq []" EMP1_ID 0 EMPLOYEE demo_cc demo_platform]
  by (simp add: demo_listening_ok demo_header_ok [simplified] demo_asgi demo_no_identity demo_bears
        sample_jwt_ok sample_wire_ok demo_ready [simplified] demo_balances_ok demo_employee_def)

text \<open>The employee \<open>emp1\<close> approves the request \<open>a\<close>, which is their own.\<close>

definition demo_forged :: gw_request where
  "demo_forged = (demo_rq [(''x-user-id'', MANAGER1_ID), (''x-user-role'', ''MANAGER'')])
     \<lparr>rq_method := ''POST'', rq_path := ''/manager/requests/a/approve''\<rparr>"

lemma demo_forged_admitted:
  "admits (edge demo_deployment demo_cc) demo_forged (Some (token_claims demo_settings 0 EMP1_ID EMPLOYEE))"
proof -
  let ?rq = "demo_rq [(''x-user-id'', MANAGER1_ID), (''x-user-role'', ''MANAGER'')]"
  have "rq_path ?rq \<notin> set PUBLIC_PATHS" "rq_path demo_forged \<notin> set PUBLIC_PATHS" "rq_headers demo_forged = rq_headers ?rq"
    by (simp_all add: demo_rq_def demo_forged_def PUBLIC_PATHS_def)
  moreover have "ge_now demo_gateway = 100" by (simp add: demo_gateway_def)
  ultimately show ?thesis
    using demo_admits [of "[(''x-user-id'', MANAGER1_ID), (''x-user-role'', ''MANAGER'')]"]
    by (simp add: admits_def presented_def)
qed

lemma demo_forged_headers:
  "map_of (rev (rq_headers demo_forged)) ''x-user-id'' = Some MANAGER1_ID"
  "map_of (rev (rq_headers demo_forged)) ''x-user-role'' = Some ''MANAGER''"
  "asgi (rq_headers demo_forged)" "rq_method demo_forged = ''POST''"
  "rq_path demo_forged = ''/manager/requests/'' @ ''a'' @ ''/approve''" "path_segment ''a''"
  using demo_asgi(1) by (simp_all add: demo_forged_def demo_rq_def path_segment_def)

theorem forged_headers_approve_witness:
  "case platform_step demo_deployment demo_cc demo_forged demo_platform of (st', response) \<Rightarrow>
     get_request (w_req (pf_world st')) ''a'' = Some (Manager_Decisions.decided demo_time APPROVED None demo_request)
     \<and> lr_employee_id demo_request = EMP1_ID \<and> gr_status response = 200"
proof -
  obtain st' response where step: "platform_step demo_deployment demo_cc demo_forged demo_platform = (st', response)"
    by fastforce
  have "fw_header (de_fw demo_deployment) = ge_header (de_gateway demo_deployment)"
    "header_ok (ge_header (de_gateway demo_deployment))" "wire_lib_ok (de_lib demo_deployment)"
    using demo_header_ok sample_wire_ok by simp_all
  note platform = demo_listening_ok this demo_forged_admitted demo_forged_headers(3,4,5,6)
  have "get_request (w_req (pf_world demo_platform)) ''a'' = Some demo_request"
    "map_of (rev (rq_headers demo_forged)) ''x-user-id'' = Some (lr_reporting_manager_id demo_request)"
    "deduct_status (w_bal (pf_world demo_platform)) demo_request = 200" "wf_balances (w_bal (pf_world demo_platform))"
    "gateway_resolve (ge_consul (de_gateway demo_deployment) ''manager-service'') ''manager-service'' (pf_cursors demo_platform)
      = ([], Inr (''http://manager-service:'' @ str_of_int 8004))"
    "passes_success (de_ops demo_deployment)" "stored_state (de_ops demo_deployment)"
    "breaker_healthy (de_ops demo_deployment) (w_mgr_bal_cb (pf_world demo_platform))"
    "breaker_healthy (de_ops demo_deployment) (w_mgr_req_cb (pf_world demo_platform))"
    by (simp_all add: demo_forged_headers demo_deduct_status demo_balances_ok demo_resolved demo_healthy)
  note stored = this
  from forged_headers_approve [OF platform stored(2) demo_forged_headers(2) stored(1) _ stored(3) demo_ready stored(4)
      stored(6-9) _ _ _ _ stored(5) step] step
  show ?thesis by simp
qed

end
