(* ===== verification/Leave_Progress.thy ===== *)
theory Leave_Progress
  imports Leave_System "HOL-Library.Multiset"
begin

text \<open>
  Progress of the interleaved system: no handler waits for another, a handler resumes at most twice
  after its first part, and every request that comes in is answered exactly once. A call of another
  service has some outcome, as the clients have timeouts; which one is open.
\<close>

section \<open>Resuming\<close>

text \<open>The events that resume a handler, as opposed to those that begin one.\<close>

fun resumption :: "sys_event \<Rightarrow> bool" where
  "resumption (EvFetch t env) \<longleftrightarrow> True"
| "resumption (EvInsert t i created updated) \<longleftrightarrow> True"
| "resumption (EvDeduct t env) \<longleftrightarrow> True"
| "resumption (EvSetApproved t env now) \<longleftrightarrow> True"
| "resumption (EvSetRejected t env now) \<longleftrightarrow> True"
| "resumption ev \<longleftrightarrow> False"

text \<open>The number of the request that an event begins.\<close>

fun opens :: "sys_event \<Rightarrow> nat option" where
  "opens (EvApply t today caller p) = Some t"
| "opens (EvCancel t now i caller) = Some t"
| "opens (EvApprove t n i caller) = Some t"
| "opens (EvReject t n i reason caller) = Some t"
| "opens ev = None"

lemma resumption_opens: "resumption ev \<longleftrightarrow> opens ev = None"
  by (cases ev) auto

text \<open>The part a handler in progress waits for, given how its call ends, the clock and a fresh id.\<close>

fun next_part :: "nat \<Rightarrow> task \<Rightarrow> call_env \<Rightarrow> datetime \<Rightarrow> string \<Rightarrow> sys_event" where
  "next_part t (TApply caller p m) env now i = EvFetch t env"
| "next_part t (TFetched caller p m outcome) env now i = EvInsert t i now now"
| "next_part t (TApproveLoaded caller j lr) env now i = EvDeduct t env"
| "next_part t (TApproveDeducted caller j lr) env now i = EvSetApproved t env now"
| "next_part t (TRejectLoaded caller j reason lr) env now i = EvSetRejected t env now"

text \<open>How many parts a handler in progress still has before it.\<close>

fun task_rank :: "task \<Rightarrow> int" where
  "task_rank (TApply caller p m) = 2"
| "task_rank (TFetched caller p m outcome) = 1"
| "task_rank (TApproveLoaded caller i lr) = 2"
| "task_rank (TApproveDeducted caller i lr) = 1"
| "task_rank (TRejectLoaded caller i reason lr) = 1"

definition work :: "'b system \<Rightarrow> int" where
  "work s = dict_sum task_rank (sys_tasks s)"

text \<open>The numbers of the requests that were begun: the answered ones and those in progress.\<close>

definition begun :: "'b system \<Rightarrow> nat multiset" where
  "begun s = mset (map fst (sys_answers s)) + mset (map fst (sys_tasks s))"

lemma task_rank_pos: "0 < task_rank k"
  by (cases k) auto

lemma resumption_moves:
  assumes "sys_exec ops ev s = Some s'" and "resumption ev"
  obtains (parked) t k k' where "dict_get (sys_tasks s) t = Some k" "sys_tasks s' = dict_put (sys_tasks s) t k'"
      "task_rank k' < task_rank k" "sys_answers s' = sys_answers s"
  | (answered) t k where "dict_get (sys_tasks s) t = Some k" "sys_tasks s' = dict_del (sys_tasks s) t"
      "map fst (sys_answers s') = map fst (sys_answers s) @ [t]"
  using assms
proof (cases ev)
  case (EvFetch t env)
  then obtain caller p m where k: "dict_get (sys_tasks s) t = Some (TApply caller p m)"
    and s': "s' = fetch_balance ops t env caller p m s"
    using assms(1) by (auto split: option.splits task.splits)
  show ?thesis
    by (rule parked [OF k, of "TFetched caller p m (snd (invoke_with_breaker ops (ce_before env) (ce_after env)
        (fetch_remaining (ce_net env) (ci_user_id caller) (al_leave_type p)) (w_req_bal_cb (sys_world s), w_bal (sys_world s))))"])
      (auto simp: s' fetch_balance_def sys_edit_defs Let_def split: prod.splits)
next
  case (EvInsert t i c u)
  then obtain caller p m outcome where k: "dict_get (sys_tasks s) t = Some (TFetched caller p m outcome)"
    and s': "s' = insert_request t i c u caller p m outcome s"
    using assms(1) by (auto split: option.splits task.splits if_splits)
  show ?thesis
    by (rule answered [OF k]) (auto simp: s' insert_request_def sys_edit_defs Let_def split: prod.splits)
next
  case (EvDeduct t env)
  then obtain caller i lr where k: "dict_get (sys_tasks s) t = Some (TApproveLoaded caller i lr)"
    and s': "s' = deduct_days ops t env caller i lr s"
    using assms(1) by (auto split: option.splits task.splits)
  let ?r = "snd (approve_deduct ops env lr (w_mgr_bal_cb (sys_world s), w_bal (sys_world s)))"
  show ?thesis
  proof (cases ?r)
    case (Inl e)
    show ?thesis
      by (rule answered [OF k]) (use Inl in \<open>auto simp: s' deduct_days_def sys_edit_defs Let_def split: prod.splits\<close>)
  next
    case (Inr x)
    show ?thesis
      by (rule parked [OF k, of "TApproveDeducted caller i lr"])
        (use Inr in \<open>auto simp: s' deduct_days_def sys_edit_defs Let_def split: prod.splits\<close>)
  qed
next
  case (EvSetApproved t env now)
  then obtain caller i lr where k: "dict_get (sys_tasks s) t = Some (TApproveDeducted caller i lr)"
    and s': "s' = mark_approved ops t env now caller i lr s"
    using assms(1) by (auto split: option.splits task.splits)
  show ?thesis
    by (rule answered [OF k]) (auto simp: s' mark_approved_def sys_edit_defs Let_def split: prod.splits)
next
  case (EvSetRejected t env now)
  then obtain caller i reason lr where k: "dict_get (sys_tasks s) t = Some (TRejectLoaded caller i reason lr)"
    and s': "s' = mark_rejected ops t env now caller i reason lr s"
    using assms(1) by (auto split: option.splits task.splits)
  show ?thesis
    by (rule answered [OF k]) (auto simp: s' mark_rejected_def sys_edit_defs Let_def split: prod.splits)
qed simp_all

lemma mset_keys_put: "dict_get d t = Some k \<Longrightarrow> mset (map fst (dict_put d t k')) = mset (map fst d)"
  by (induction d) (auto simp: dict_get_def dict_put_def split: if_splits)

lemma mset_keys_del:
  assumes "wf_dict d" and "dict_get d t = Some k"
  shows "add_mset t (mset (map fst (dict_del d t))) = mset (map fst d)"
  using assms
proof (induction d)
  case (Cons kv d)
  show ?case
  proof (cases "fst kv = t")
    case True
    with Cons.prems(1) have "dict_del d t = d"
      by (intro dict_del_absent) (auto simp: wf_dict_def dict_get_def map_of_eq_None_iff)
    with True show ?thesis by (simp add: dict_del_def)
  next
    case False
    with Cons show ?thesis by (auto simp: wf_dict_def dict_get_def dict_del_def)
  qed
qed simp

text \<open>A resumption takes work away and loses no request.\<close>

lemma resumption_step:
  assumes "sys_exec ops ev s = Some s'" and "resumption ev" and "wf_dict (sys_tasks s)"
  shows "work s' < work s" and "begun s' = begun s" and "wf_dict (sys_tasks s')"
proof -
  from assms(1,2) have "work s' < work s \<and> begun s' = begun s \<and> wf_dict (sys_tasks s')"
  proof (cases rule: resumption_moves)
    case (parked t k k')
    then show ?thesis
      using assms(3) mset_keys_put [OF parked(1), of k'] by (simp add: work_def begun_def dict_sum_put del: mset_map)
  next
    case (answered t k)
    then show ?thesis
      using assms(3) mset_keys_del [OF assms(3) answered(1)] task_rank_pos [of k]
      by (simp add: work_def begun_def dict_sum_del del: mset_map)
  qed
  then show "work s' < work s" "begun s' = begun s" "wf_dict (sys_tasks s')" by blast+
qed

lemma resumptions:
  assumes "sys_run ops evs s = Some s'" and "list_all resumption evs" and "wf_dict (sys_tasks s)"
  shows "int (length evs) + work s' \<le> work s \<and> begun s' = begun s \<and> wf_dict (sys_tasks s')"
  using assms
proof (induction evs arbitrary: s)
  case (Cons ev evs)
  then obtain s1 where s1: "sys_exec ops ev s = Some s1" "sys_run ops evs s1 = Some s'"
    by (auto split: option.splits)
  from Cons.prems(2) have r: "resumption ev" "list_all resumption evs" by simp_all
  note step = resumption_step [OF s1(1) r(1) Cons.prems(3)]
  from Cons.IH [OF s1(2) r(2) step(3)] step(1,2) show ?case by auto
qed simp

section \<open>Beginning\<close>

lemma begun_park:
  assumes "\<not> dict_has (sys_tasks s) t" and "wf_dict (sys_tasks s)"
  shows "begun (park t k s) = add_mset t (begun s) \<and> wf_dict (sys_tasks (park t k s))
    \<and> work (park t k s) = work s + task_rank k"
proof -
  have none: "dict_get (sys_tasks s) t = None" using assms(1) by (simp add: dict_has_def)
  then have "mset (map fst (dict_put (sys_tasks s) t k)) = add_mset t (mset (map fst (sys_tasks s)))"
    by (simp add: dict_put_new)
  with none assms(2) show ?thesis by (simp add: begun_def park_def work_def dict_sum_put_new wf_dict_put del: mset_map)
qed

lemma begun_answer:
  assumes "\<not> dict_has (sys_tasks s) t" and "wf_dict (sys_tasks s)"
  shows "begun (answer t c s) = add_mset t (begun s) \<and> wf_dict (sys_tasks (answer t c s)) \<and> work (answer t c s) = work s"
  using assms by (simp add: begun_def answer_def work_def dict_has_def dict_del_absent)

text \<open>A request that comes in is answered at once or becomes a handler in progress.\<close>

lemma opening_step:
  assumes "sys_exec ops ev s = Some s'" and "opens ev = Some t" and "wf_dict (sys_tasks s)"
  shows "begun s' = add_mset t (begun s)" and "wf_dict (sys_tasks s')" and "work s' \<le> work s + 2"
proof -
  have new: "\<not> dict_has (sys_tasks s) t" using assms(1,2) by (cases ev) (auto split: if_splits)
  have "(\<exists>k. s' = park t k s \<and> task_rank k \<le> 2)
      \<or> (\<exists>c s1. s' = answer t c s1 \<and> sys_tasks s1 = sys_tasks s \<and> sys_answers s1 = sys_answers s)"
  proof (cases ev)
    case (EvApply x today caller p)
    with assms(1,2) show ?thesis by (auto simp: start_apply_def split: if_splits sum.splits)
  next
    case (EvCancel x now i caller)
    obtain req r where c: "cancel_leave now i caller (w_req (sys_world s)) = (req, r)" by (metis surj_pair)
    with EvCancel assms(1,2) have "s' = answer t (answer_code 200 r) (set_world ((sys_world s)\<lparr>w_req := req\<rparr>) s)"
      by (auto simp: cancel_request_def Let_def split: if_splits)
    then show ?thesis by (intro disjI2 exI conjI) (assumption, simp_all add: set_world_def)
  next
    case (EvApprove x n i caller)
    with assms(1,2) show ?thesis by (auto simp: start_approve_def split: if_splits sum.splits)
  next
    case (EvReject x n i reason caller)
    with assms(1,2) show ?thesis by (auto simp: start_reject_def split: if_splits sum.splits)
  qed (use assms(2) in simp_all)
  then have "begun s' = add_mset t (begun s) \<and> wf_dict (sys_tasks s') \<and> work s' \<le> work s + 2"
  proof (elim disjE exE conjE)
    fix k assume "s' = park t k s" "task_rank k \<le> 2"
    with begun_park [OF new assms(3)] show ?thesis by simp
  next
    fix c s1 assume s1: "s' = answer t c s1" "sys_tasks s1 = sys_tasks s" "sys_answers s1 = sys_answers s"
    then have "begun s1 = begun s" "work s1 = work s" by (simp_all add: begun_def work_def)
    with begun_answer [of s1 t c] new assms(3) s1 show ?thesis by simp
  qed
  then show "begun s' = add_mset t (begun s)" "wf_dict (sys_tasks s')" "work s' \<le> work s + 2" by blast+
qed

lemma run_begun:
  assumes "sys_run ops evs s = Some s'" and "wf_dict (sys_tasks s)"
  shows "begun s' = begun s + mset (List.map_filter opens evs) \<and> wf_dict (sys_tasks s')
    \<and> int (length (filter resumption evs)) + work s' \<le> work s + 2 * int (length (List.map_filter opens evs))"
  using assms
proof (induction evs arbitrary: s)
  case (Cons ev evs)
  then obtain s1 where s1: "sys_exec ops ev s = Some s1" "sys_run ops evs s1 = Some s'"
    by (auto split: option.splits)
  show ?case
  proof (cases "opens ev")
    case None
    then have "resumption ev" by (simp add: resumption_opens)
    note step = resumption_step [OF s1(1) this Cons.prems(2)]
    from Cons.IH [OF s1(2) step(3)] step(1,2) None \<open>resumption ev\<close> show ?thesis by (simp add: map_filter_def)
  next
    case (Some t)
    then have "\<not> resumption ev" by (simp add: resumption_opens)
    note step = opening_step [OF s1(1) Some Cons.prems(2)]
    from Cons.IH [OF s1(2) step(2)] step(1,3) Some \<open>\<not> resumption ev\<close> show ?thesis by (simp add: map_filter_def)
  qed
qed (simp add: map_filter_def)

section \<open>No handler is stuck\<close>

lemma fresh_request_id: "\<exists>i. get_request s i = None"
proof -
  have "finite (dom (get_request s))"
    using finite_dom_map_of [of "requests_store s"] by (simp add: get_request_def [abs_def] dict_get_def)
  then have "dom (get_request s) \<noteq> UNIV" using infinite_UNIV_listI by metis
  then show ?thesis by (auto simp: dom_def)
qed

lemma next_part_enabled:
  assumes "dict_get (sys_tasks s) t = Some k" and "get_request (w_req (sys_world s)) i = None"
  shows "resumption (next_part t k env now i) \<and> sys_exec ops (next_part t k env now i) s \<noteq> None"
  using assms by (cases k) simp_all

lemma task_resumes:
  assumes "dict_get (sys_tasks s) t = Some k"
  shows "\<exists>ev s'. resumption ev \<and> sys_exec ops ev s = Some s'"
  using next_part_enabled [OF assms] fresh_request_id by (metis option.exhaust)

lemma can_finish:
  fixes s :: "'b system"
  assumes "wf_dict (sys_tasks s)"
  shows "\<exists>evs s'. list_all resumption evs \<and> sys_run ops evs s = Some s' \<and> sys_tasks s' = []"
  using assms
proof (induction "nat (work s)" arbitrary: s rule: less_induct)
  case less
  show ?case
  proof (cases "sys_tasks s")
    case Nil
    then show ?thesis by (intro exI [of _ "[]"]) simp
  next
    case (Cons tk ts)
    then have "dict_get (sys_tasks s) (fst tk) = Some (snd tk)" by (simp add: dict_get_def)
    from task_resumes [OF this] obtain ev s1 where s1: "resumption ev" "sys_exec ops ev s = Some s1" by blast
    note step = resumption_step [OF s1(2,1) less.prems]
    have "0 \<le> work s1"
      unfolding work_def using task_rank_pos step(3) by (intro dict_sum_nonneg) (simp_all add: order_less_imp_le)
    with step(1) have "nat (work s1) < nat (work s)" by linarith
    from less.hyps [OF this step(3)] obtain evs s' where
      "list_all resumption evs" "sys_run ops evs s1 = Some s'" "sys_tasks s' = []" by blast
    with s1 show ?thesis by (intro exI [of _ "ev # evs"] exI [of _ s']) simp
  qed
qed

lemma work_bounds:
  assumes "wf_dict (sys_tasks s)"
  shows "0 \<le> work s" and "work s \<le> 2 * int (length (sys_tasks s))"
proof -
  show "0 \<le> work s"
    unfolding work_def using assms task_rank_pos by (intro dict_sum_nonneg) (simp_all add: order_less_imp_le)
  have "task_rank k \<le> 2" for k by (cases k) auto
  then have "dict_sum task_rank d \<le> 2 * int (length d)" for d :: "(nat, task) dict"
    by (induction d) (auto simp: dict_sum_def dict_values_def add.commute intro: add_mono)
  then show "work s \<le> 2 * int (length (sys_tasks s))" by (simp add: work_def)
qed

text \<open>However the handlers in progress resume, they come to an end, and then everything begun is answered.\<close>

lemma resuming_ends:
  assumes "wf_dict (sys_tasks s)" and "sys_run ops rest s = Some s'" and "list_all resumption rest"
  shows "length rest \<le> 2 * length (sys_tasks s)"
    and "\<forall>ev. resumption ev \<longrightarrow> sys_exec ops ev s' = None \<Longrightarrow> sys_tasks s' = [] \<and> mset (map fst (sys_answers s')) = begun s"
proof -
  note run = resumptions [OF assms(2,3,1)]
  from run work_bounds(1) [of s'] work_bounds(2) [OF assms(1)] show "length rest \<le> 2 * length (sys_tasks s)"
    by linarith
  assume stop: "\<forall>ev. resumption ev \<longrightarrow> sys_exec ops ev s' = None"
  have "sys_tasks s' = []"
  proof (rule ccontr)
    assume "sys_tasks s' \<noteq> []"
    then obtain t k ts where "sys_tasks s' = (t, k) # ts" by (metis list.exhaust surj_pair)
    then have "dict_get (sys_tasks s') t = Some k" by (simp add: dict_get_def)
    with task_resumes [of s' t k ops] stop show False by auto
  qed
  with run show "sys_tasks s' = [] \<and> mset (map fst (sys_answers s')) = begun s" by (simp add: begun_def)
qed

text \<open>
  C10: every request that comes in is answered, exactly once, and no handler can be stuck. In any run from the
  start: the requests that came in are, each as often as it came, those answered and those in progress; each
  handler in progress can go on whatever outcome its call has; however the handlers resume, and whatever
  fails, they do so at most twice each, and when none can go on any more none is left and exactly the requests
  that came in are answered.
\<close>

theorem every_request_answered:
  assumes "sys_init s0" and "sys_run ops evs s0 = Some s"
  shows "mset (map fst (sys_answers s)) + mset (map fst (sys_tasks s)) = mset (List.map_filter opens evs)
    \<and> length (filter resumption evs) \<le> 2 * length (List.map_filter opens evs)
    \<and> (\<forall>t k env now i. dict_get (sys_tasks s) t = Some k \<and> get_request (w_req (sys_world s)) i = None
        \<longrightarrow> sys_exec ops (next_part t k env now i) s \<noteq> None)
    \<and> (\<forall>rest s'. list_all resumption rest \<and> sys_run ops rest s = Some s'
        \<longrightarrow> length rest \<le> 2 * length (sys_tasks s)
          \<and> ((\<forall>ev. resumption ev \<longrightarrow> sys_exec ops ev s' = None) \<longrightarrow>
               sys_tasks s' = [] \<and> mset (map fst (sys_answers s')) = mset (List.map_filter opens evs)))
    \<and> (\<exists>rest s'. list_all resumption rest \<and> sys_run ops rest s = Some s' \<and> sys_tasks s' = [])"
proof -
  have start: "wf_dict (sys_tasks s0)" "begun s0 = {#}" "work s0 = 0"
    using assms(1) by (simp_all add: sys_init_def begun_def work_def dict_sum_def dict_values_def wf_dict_def)
  note run = run_begun [OF assms(2) start(1), unfolded start(2,3)]
  then have wf: "wf_dict (sys_tasks s)" and begun: "begun s = mset (List.map_filter opens evs)" by simp_all
  have "length (filter resumption evs) \<le> 2 * length (List.map_filter opens evs)"
    using run work_bounds(1) [OF wf] by linarith
  with begun can_finish [OF wf, of ops] resuming_ends [OF wf, where ops = ops] next_part_enabled [where s = s and ops = ops]
  show ?thesis unfolding begun [symmetric] begun_def [of s, symmetric] by blast
qed

end
