(* ===== verification/Traffic.thy ===== *)
theory Traffic
  imports Platform_Identity Leave_Progress
begin

text \<open>
  The platform with any number of client requests under way. A request reaches the gateway, which checks
  it and sends it on; it is in transit until a service takes it or the network loses it; the service runs
  the handler behind the route up to its first await; from then on the handler is one of the tasks of
  \<open>Leave_System\<close> and resumes in between the others. One request at a time is the special case of \<open>Platform\<close>.
\<close>

section \<open>The first part of a handler\<close>

text \<open>
  What a handler begins, given its caller, path arguments and body: nothing when it only reads or when
  caller or body are not there, otherwise the first event of its task. Whether the caller may do it is
  decided in that first part.
\<close>

type_synonym opener = "CallerIdentity result \<Rightarrow> string list \<Rightarrow> json option \<Rightarrow> sys_event option"

definition apply_opening :: "'b deployment \<Rightarrow> circumstances \<Rightarrow> nat \<Rightarrow> opener" where
  "apply_opening D cc t caller args body =
     (case (body, caller) of
        (Some b, Inr c) \<Rightarrow>
          (case checked_body (ApplyLeaveRequest_read (de_lib D)) valid_ApplyLeaveRequest b of
             Inl e \<Rightarrow> None
           | Inr p \<Rightarrow> Some (EvApply t (cc_today cc) c p))
      | _ \<Rightarrow> None)"

definition cancel_opening :: "circumstances \<Rightarrow> nat \<Rightarrow> opener" where
  "cancel_opening cc t caller args body =
     (case caller of Inl e \<Rightarrow> None | Inr c \<Rightarrow> Some (EvCancel t (cc_now cc) (hd args) c))"

definition approve_opening :: "circumstances \<Rightarrow> nat \<Rightarrow> opener" where
  "approve_opening cc t caller args body =
     (case caller of Inl e \<Rightarrow> None | Inr c \<Rightarrow> Some (EvApprove t (cc_load_net cc) (hd args) c))"

definition reject_opening :: "'b deployment \<Rightarrow> circumstances \<Rightarrow> nat \<Rightarrow> opener" where
  "reject_opening D cc t caller args body =
     (case (body, caller) of
        (Some b, Inr c) \<Rightarrow>
          (case checked_body (RejectLeaveRequest_read (de_lib D)) valid_RejectLeaveRequest b of
             Inl e \<Rightarrow> None
           | Inr reason \<Rightarrow> Some (EvReject t (cc_load_net cc) (hd args) reason c))
      | _ \<Rightarrow> None)"

text \<open>The routes of the services whose handlers change a store and that the gateway can reach.\<close>

definition first_routes ::
  "'b deployment \<Rightarrow> circumstances \<Rightarrow> nat \<Rightarrow> string \<Rightarrow> (string \<times> segment list \<times> opener) list" where
  "first_routes D cc t service =
     (if service = REQUEST_SERVICE then
        [(''POST'', [Lit ''leaves''], apply_opening D cc t),
         (''PATCH'', [Lit ''leaves'', Param ''leave_id'', Lit ''cancel''], cancel_opening cc t)]
      else if service = MANAGER_SERVICE then
        [(''POST'', [Lit ''manager'', Lit ''requests'', Param ''request_id'', Lit ''approve''], approve_opening cc t),
         (''POST'', [Lit ''manager'', Lit ''requests'', Param ''request_id'', Lit ''reject''], reject_opening D cc t)]
      else [])"

definition sender :: "framework \<Rightarrow> wire_request \<Rightarrow> CallerIdentity result" where
  "sender fw wr = get_caller (fw_header fw (wr_headers wr) ''X-User-Id'') (fw_header fw (wr_headers wr) ''X-User-Role'')"

definition first_part ::
  "'b deployment \<Rightarrow> circumstances \<Rightarrow> nat \<Rightarrow> string \<Rightarrow> string \<Rightarrow> wire_request \<Rightarrow> sys_event option" where
  "first_part D cc t service path wr =
     (case app_route (first_routes D cc t service) (wr_method wr) path of
        None \<Rightarrow> None
      | Some (opener, args) \<Rightarrow> opener (sender (de_fw D) wr) args (fw_body (de_fw D) wr))"

text \<open>The parts after the first, in the circumstances of one request.\<close>

fun later_parts :: "circumstances \<Rightarrow> sys_event \<Rightarrow> sys_event list" where
  "later_parts cc (EvApply t today c p) = [EvFetch t (cc_first cc), EvInsert t (cc_uuid cc) (cc_created cc) (cc_updated cc)]"
| "later_parts cc (EvApprove t n i c) = [EvDeduct t (cc_first cc), EvSetApproved t (cc_second cc) (cc_now cc)]"
| "later_parts cc (EvReject t n i reason c) = [EvSetRejected t (cc_second cc) (cc_now cc)]"
| "later_parts cc ev = []"

section \<open>Client requests under way\<close>

record 'b traffic =
  tf_sys :: "'b system"
  tf_cursors :: cursors
  tf_wire :: "(nat, wire_request) dict"

text \<open>
  A client request gets a number when it arrives at the gateway. It is then taken by a service or lost,
  and its handler resumes.
\<close>

datatype traffic_event =
    Arrive nat circumstances gw_request
  | Receive nat circumstances
  | Vanish nat
  | Resume sys_event

definition off_wire :: "nat \<Rightarrow> 'b traffic \<Rightarrow> 'b traffic" where
  "off_wire t st = st\<lparr>tf_wire := dict_del (tf_wire st) t\<rparr>"

text \<open>The gateway's part: its middleware, routing and resolution, and what it sends on.\<close>

definition arrive :: "'b deployment \<Rightarrow> nat \<Rightarrow> circumstances \<Rightarrow> gw_request \<Rightarrow> 'b traffic \<Rightarrow> 'b traffic" where
  "arrive D t cc rq st =
     (let env = (de_gateway D)\<lparr>ge_now := cc_seconds cc\<rparr>;
          rr = tf_cursors st
      in st\<lparr>tf_cursors := fst (gateway (de_httpx_text D) env rq rr),
            tf_wire := (case forwarded env rq rr of None \<Rightarrow> tf_wire st | Some wr \<Rightarrow> dict_put (tf_wire st) t wr)\<rparr>)"

definition receive ::
  "'b deployment \<Rightarrow> nat \<Rightarrow> circumstances \<Rightarrow> wire_request \<Rightarrow> 'b traffic \<Rightarrow> 'b traffic option" where
  "receive D t cc wr st =
     (case de_listening D (wr_url wr) of
        None \<Rightarrow> Some (off_wire t st)
      | Some (service, path) \<Rightarrow>
          (case first_part D cc t service path wr of
             None \<Rightarrow> Some (off_wire t st)
           | Some ev \<Rightarrow> map_option (\<lambda>s. off_wire t st\<lparr>tf_sys := s\<rparr>) (sys_exec (de_ops D) ev (tf_sys st))))"

fun traffic_exec :: "'b deployment \<Rightarrow> traffic_event \<Rightarrow> 'b traffic \<Rightarrow> 'b traffic option" where
  "traffic_exec D (Arrive t cc rq) st =
     (if dict_has (tf_wire st) t \<or> dict_has (sys_tasks (tf_sys st)) t then None else Some (arrive D t cc rq st))"
| "traffic_exec D (Receive t cc) st =
     (case dict_get (tf_wire st) t of None \<Rightarrow> None | Some wr \<Rightarrow> receive D t cc wr st)"
| "traffic_exec D (Vanish t) st = (if dict_has (tf_wire st) t then Some (off_wire t st) else None)"
| "traffic_exec D (Resume ev) st =
     (if resumption ev then map_option (\<lambda>s. st\<lparr>tf_sys := s\<rparr>) (sys_exec (de_ops D) ev (tf_sys st)) else None)"

fun traffic_run :: "'b deployment \<Rightarrow> traffic_event list \<Rightarrow> 'b traffic \<Rightarrow> 'b traffic option" where
  "traffic_run D [] st = Some st"
| "traffic_run D (ev # evs) st =
     (case traffic_exec D ev st of None \<Rightarrow> None | Some st' \<Rightarrow> traffic_run D evs st')"

definition traffic_init :: "'b traffic \<Rightarrow> bool" where
  "traffic_init st \<longleftrightarrow> sys_init (tf_sys st) \<and> tf_wire st = []"

section \<open>A handler is its parts\<close>

lemma serve_sender: "serve D cc service path wr = serve_as D cc (sender (de_fw D) wr) service path wr"
  by (simp add: serve_def sender_def)

lemmas first_defs = first_routes_def app_route_def template_matches_def service_names

text \<open>A GET route only reads.\<close>

lemma app_route_in:
  assumes "app_route routes m p = Some (h, args)"
  shows "\<exists>ts. (m, ts, h) \<in> set routes"
  using assms by (auto simp: app_route_def find_Some_iff) (metis nth_mem)

lemma app_get:
  assumes "app_route (app_of D cc service) ''GET'' p = Some ((ok, handler), args)"
    and "handler caller xs query body w = (w', evs, r)"
  shows "w' = w \<and> evs = []"
proof -
  have "handler \<in> {health_handler ls | ls. True} \<union> {my_balances_handler, employee_balances_handler, history_handler D,
      internal_list_handler D, team_list_handler D cc}"
    using app_route_in [OF assms(1)]
    by (auto simp: app_of_def auth_app_def balance_app_def request_app_def manager_app_def notification_app_def
        split: if_splits)
  with assms(2) show ?thesis
    by (auto simp: health_handler_def answer_only_def internal_list_handler_def dest: reading_handlers)
qed

lemma serve_get:
  assumes "wr_method wr = ''GET''" and "serve_as D cc caller service p wr w = ((w', evs), response)"
  shows "w' = w \<and> leave_events evs = []"
proof (cases "app_route (app_of D cc service) (wr_method wr) p")
  case None
  with assms show ?thesis by (simp add: serve_as_def)
next
  case (Some route)
  then obtain ok handler args where r: "app_route (app_of D cc service) (wr_method wr) p = Some ((ok, handler), args)"
    by (metis surj_pair)
  show ?thesis
  proof (rule serve_as_handler [OF assms(2) r])
    fix evs1 evs2 r' assume h: "handler caller args (wr_params wr) (fw_body (de_fw D) wr) w = (w', evs1, r')"
      "evs = evs1 @ evs2" "leave_events evs2 = []"
    from app_get [OF r [unfolded assms(1)] h(1)] h(2,3) show ?thesis by simp
  qed
qed

text \<open>The route behind a public path, in both tables.\<close>

lemma public_opening:
  assumes "public_route m p service"
  obtains (applying) "m = ''POST''" "p = ''/leaves''" "app_route (app_of D cc service) m p = Some ((201, apply_handler D cc), [])"
      "app_route (first_routes D cc t service) m p = Some (apply_opening D cc t, [])"
  | (cancelling) x where "m = ''PATCH''" "p = ''/leaves/'' @ x @ ''/cancel''"
      "app_route (app_of D cc service) m p = Some ((200, cancel_handler D cc), [x])"
      "app_route (first_routes D cc t service) m p = Some (cancel_opening cc t, [x])"
  | (approving) x where "m = ''POST''" "p = ''/manager/requests/'' @ x @ ''/approve''"
      "app_route (app_of D cc service) m p = Some ((200, approve_handler D cc), [x])"
      "app_route (first_routes D cc t service) m p = Some (approve_opening cc t, [x])"
  | (rejecting) x where "m = ''POST''" "p = ''/manager/requests/'' @ x @ ''/reject''"
      "app_route (app_of D cc service) m p = Some ((200, reject_handler D cc), [x])"
      "app_route (first_routes D cc t service) m p = Some (reject_opening D cc t, [x])"
  | (reading) "app_route (first_routes D cc t service) m p = None"
      "\<And>caller wr w w' evs response. wr_method wr = m \<Longrightarrow> serve_as D cc caller service p wr w = ((w', evs), response)
        \<Longrightarrow> w' = w \<and> leave_events evs = []"
proof -
  consider (get) "m = ''GET''" | (login) "m = ''POST''" "p = ''/auth/login''" "service = ''auth-service''"
    | (4) "m = ''POST''" "p = ''/leaves''" "service = ''leave-request-service''"
    | (6) x where "m = ''PATCH''" "path_segment x" "p = ''/leaves/'' @ x @ ''/cancel''" "service = ''leave-request-service''"
    | (8) x where "m = ''POST''" "path_segment x" "p = ''/manager/requests/'' @ x @ ''/approve''" "service = ''manager-service''"
    | (9) x where "m = ''POST''" "path_segment x" "p = ''/manager/requests/'' @ x @ ''/reject''" "service = ''manager-service''"
    using assms unfolding public_route_def by (elim disjE conjE exE) (rule that, assumption+)+
  then show ?thesis
  proof cases
    case get
    then have "app_route (first_routes D cc t service) m p = None" by (simp add: first_defs)
    then show ?thesis using get serve_get by (intro reading) blast+
  next
    case login
    then have none: "app_route (first_routes D cc t service) m p = None"
      and r: "app_route (app_of D cc service) m p = Some ((200, login_handler D cc), [])"
      by (simp_all add: app_defs first_defs)
    show ?thesis
    proof (rule reading [OF none])
      fix caller wr w w' evs response
      assume m: "wr_method wr = m" and s: "serve_as D cc caller service p wr w = ((w', evs), response)"
      show "w' = w \<and> leave_events evs = []"
        by (rule serve_as_handler [OF s r [folded m]]) (use reading_handlers(1) in fastforce)
    qed
  next
    case 4
    then show ?thesis by (intro applying) (simp_all add: app_defs first_defs)
  next
    case (6 x)
    note path = 6 app_route_def template_matches_def split_public_paths(2) [OF 6(2)]
    show ?thesis
      by (rule cancelling [of x])
        (use 6(2) in \<open>simp_all only: path, simp_all add: app_of_def request_app_def first_routes_def service_names path_segment_def\<close>)
  next
    case (8 x)
    note path = 8 app_route_def template_matches_def split_public_paths(3) [OF 8(2)]
    show ?thesis
      by (rule approving [of x])
        (use 8(2) in \<open>simp_all only: path, simp_all add: app_of_def manager_app_def first_routes_def service_names path_segment_def\<close>)
  next
    case (9 x)
    note path = 9 app_route_def template_matches_def split_public_paths(4) [OF 9(2)]
    show ?thesis
      by (rule rejecting [of x])
        (use 9(2) in \<open>simp_all only: path, simp_all add: app_of_def manager_app_def first_routes_def service_names path_segment_def\<close>)
  qed
qed

text \<open>The whole handler, as the run of the parts of its task when nothing comes in between.\<close>

definition in_parts ::
  "'b breaker_ops \<Rightarrow> circumstances \<Rightarrow> nat \<Rightarrow> sys_event option \<Rightarrow> 'b system \<Rightarrow> 'b world \<Rightarrow> event list \<Rightarrow> bool" where
  "in_parts ops cc t first s w' evs \<longleftrightarrow>
     (case first of
        None \<Rightarrow> w' = sys_world s \<and> leave_events evs = []
      | Some ev \<Rightarrow> \<exists>ans. run_task ops t (ev # later_parts cc ev) s =
          Some (s\<lparr>sys_world := w', sys_outbox := sys_outbox s @ leave_events evs, sys_answers := ans\<rparr>))"

lemma in_parts_append: "in_parts ops cc t first s w' evs \<Longrightarrow> leave_events evs' = [] \<Longrightarrow> in_parts ops cc t first s w' (evs @ evs')"
  by (cases first) (simp_all add: in_parts_def del: run_task.simps)

lemma apply_in_parts:
  fixes s :: "'b system"
  assumes "ready cc (sys_world s)" and "\<not> dict_has (sys_tasks s) t"
    and "apply_handler D cc caller args query body (sys_world s) = (w', evs, r)"
  shows "in_parts (de_ops D) cc t (apply_opening D cc t caller args body) s w' evs"
proof (cases "apply_opening D cc t caller args body")
  case None
  with assms(3) have "w' = sys_world s" "evs = []"
    by (cases body; cases caller; auto simp: apply_opening_def apply_handler_def with_body_def with_caller_def
        answer_only_def split: sum.splits)+
  with None show ?thesis by (simp add: in_parts_def)
next
  case (Some ev)
  then obtain b c p where b: "body = Some b" "caller = Inr c"
    "checked_body (ApplyLeaveRequest_read (de_lib D)) valid_ApplyLeaveRequest b = Inr p"
    and ev: "ev = EvApply t (cc_today cc) c p"
    by (auto simp: apply_opening_def split: option.splits sum.splits)
  let ?w = "sys_world s"
  have valid: "valid_ApplyLeaveRequest p" using b(3) by (auto simp: checked_body_def split: option.splits if_splits)
  obtain cb bal outcome where call: "invoke_with_breaker (de_ops D) (ce_before (cc_first cc)) (ce_after (cc_first cc))
      (fetch_remaining (ce_net (cc_first cc)) (ci_user_id c) (al_leave_type p)) (w_req_bal_cb ?w, w_bal ?w)
      = ((cb, bal), outcome)"
    by (metis prod.collapse)
  obtain req evs' r' where whole: "apply_leave (cc_uuid cc) (cc_today cc) (cc_created cc) (cc_updated cc) c p outcome
      (w_req ?w) = (req, evs', r')"
    by (metis prod_cases3)
  have fresh: "get_request (w_req ?w) (cc_uuid cc) = None" using assms(1) by (simp add: ready_def)
  have json: "fetch_remaining_json (de_lib D) n e l = fetch_remaining n e l" for n e l
    by (rule ext) (rule fetch_remaining_agrees)
  have "evs = evs' \<and> w' = (if is_ok (apply_leave_begin (cc_today cc) c p (w_req ?w))
      then ?w\<lparr>w_req_bal_cb := cb, w_bal := bal, w_req := req\<rparr> else ?w)"
    using assms(3) b call whole
    by (auto simp: apply_handler_def with_body_def with_caller_def answer_only_def json apply_leave_def Let_def
        split: sum.splits prod.splits)
  moreover have "leave_events evs' = evs'"
  proof (cases "apply_leave_begin (cc_today cc) c p (w_req ?w)")
    case Inl
    with whole show ?thesis by (auto simp: apply_leave_def)
  next
    case (Inr m)
    with whole show ?thesis
      by (cases rule: apply_leave_finish_cases [of "cc_uuid cc" "cc_created cc" "cc_updated cc" c p m outcome "w_req ?w"])
        (auto simp: apply_leave_def leave_events_def applied_event_def)
  qed
  ultimately show ?thesis
    using apply_uninterrupted [OF assms(2) valid fresh call whole]
    unfolding in_parts_def Some ev by auto
qed

lemma cancel_in_parts:
  fixes s :: "'b system"
  assumes "\<not> dict_has (sys_tasks s) t" and "cancel_handler D cc caller args query body (sys_world s) = (w', evs, r)"
  shows "in_parts (de_ops D) cc t (cancel_opening cc t caller args body) s w' evs"
proof (cases caller)
  case (Inl e)
  with assms(2) show ?thesis by (simp add: in_parts_def cancel_opening_def cancel_handler_def with_caller_def answer_only_def)
next
  case (Inr c)
  with assms show ?thesis
    by (auto simp: in_parts_def cancel_opening_def cancel_handler_def with_caller_def cancel_request_def run_simps
        split: prod.splits)
qed

text \<open>On the manager routes a caller without the role is answered in the first part.\<close>

lemma guarded_parts:
  assumes "\<not> dict_has (sys_tasks s) t" and "ci_role c \<noteq> MANAGER"
    and "ev \<in> {EvApprove t n i c, EvReject t n i reason c}"
  shows "\<exists>ans. run_task ops t (ev # evs) s = Some (s\<lparr>sys_world := sys_world s,
    sys_outbox := sys_outbox s @ leave_events [], sys_answers := ans\<rparr>)"
  using assms by (auto simp: start_approve_def start_reject_def require_manager_def run_simps)

lemma approve_in_parts:
  fixes s :: "'b system"
  assumes "ready cc (sys_world s)" and "wire_lib_ok (de_lib D)" and "\<not> dict_has (sys_tasks s) t"
    and "approve_handler D cc caller args query body (sys_world s) = (w', evs, r)"
  shows "in_parts (de_ops D) cc t (approve_opening cc t caller args body) s w' evs"
proof (cases "require_manager caller")
  case (Inl e)
  with assms(4) have same: "w' = sys_world s" "evs = []"
    by (simp_all add: approve_handler_def with_caller_def answer_only_def)
  show ?thesis
  proof (cases caller)
    case (Inr c)
    with Inl have "ci_role c \<noteq> MANAGER" by auto
    from guarded_parts [OF assms(3) this] Inr same show ?thesis
      by (auto simp: in_parts_def approve_opening_def simp del: run_task.simps)
  qed (simp add: in_parts_def approve_opening_def same)
next
  case (Inr c)
  with assms(1,2,4) approve_agrees [OF assms(2), of "sys_world s" "cc_now cc"] obtain r' where
    run: "approve_request (de_ops D) (cc_load_net cc) (cc_first cc) (cc_second cc) (cc_now cc) (hd args) c (sys_world s)
      = (w', evs, r')"
    by (auto simp: approve_handler_def with_caller_def ready_def clocks_ok_def split: prod.splits)
  from approve_uninterrupted [OF assms(3) require_manager_Inr [OF Inr] run] approve_request_store(2) [OF run] Inr
  show ?thesis by (auto simp: in_parts_def approve_opening_def require_manager_ok_iff)
qed

lemma reject_in_parts:
  fixes s :: "'b system"
  assumes "ready cc (sys_world s)" and "wire_lib_ok (de_lib D)" and "\<not> dict_has (sys_tasks s) t"
    and "reject_handler D cc caller args query body (sys_world s) = (w', evs, r)"
  shows "in_parts (de_ops D) cc t (reject_opening D cc t caller args body) s w' evs"
proof (cases "reject_opening D cc t caller args body")
  case None
  with assms(4) have "w' = sys_world s" "evs = []"
    by (cases body; cases "require_manager caller"; auto simp: reject_opening_def reject_handler_def with_body_def
        with_caller_def answer_only_def require_manager_ok_iff split: sum.splits)+
  with None show ?thesis by (simp add: in_parts_def)
next
  case (Some ev)
  then obtain b c reason where b: "body = Some b" "caller = Inr c"
    "checked_body (RejectLeaveRequest_read (de_lib D)) valid_RejectLeaveRequest b = Inr reason"
    and ev: "ev = EvReject t (cc_load_net cc) (hd args) reason c"
    by (auto simp: reject_opening_def split: option.splits sum.splits)
  show ?thesis
  proof (cases "ci_role c = MANAGER")
    case False
    with assms(4) b have "w' = sys_world s" "evs = []"
      by (auto simp: reject_handler_def with_body_def with_caller_def answer_only_def require_manager_def)
    with guarded_parts [OF assms(3) False] ev show ?thesis
      unfolding in_parts_def Some by (auto simp del: run_task.simps)
  next
    case True
    have valid: "valid_RejectLeaveRequest reason" using b(3) by (auto simp: checked_body_def split: option.splits if_splits)
    from b True assms(1,2,4) reject_agrees [OF assms(2), of "sys_world s" "cc_now cc"] obtain r' where
      run: "reject_request (de_ops D) (cc_load_net cc) (cc_second cc) (cc_now cc) (hd args) reason c (sys_world s) = (w', evs, r')"
      by (auto simp: reject_handler_def with_body_def with_caller_def ready_def clocks_ok_def split: prod.splits)
    from reject_uninterrupted [OF assms(3) True valid run] reject_request_store(2) [OF run]
    show ?thesis unfolding in_parts_def Some ev by auto
  qed
qed

lemma serve_in_parts:
  fixes s :: "'b system"
  assumes "ready cc (sys_world s)" and "wire_lib_ok (de_lib D)" and "\<not> dict_has (sys_tasks s) t"
    and "public_route (wr_method wr) path service"
    and "serve D cc service path wr (sys_world s) = ((w', evs), response)"
  shows "in_parts (de_ops D) cc t (first_part D cc t service path wr) s w' evs"
proof -
  note s = assms(5) [unfolded serve_sender]
  note handler = serve_as_handler [OF s]
  from assms(4) show ?thesis
  proof (cases rule: public_opening [of "wr_method wr" path service D cc t])
    case applying
    show ?thesis
      by (rule handler [OF applying(3)])
        (use applying(4) apply_in_parts [OF assms(1,3)] in_parts_append in \<open>fastforce simp: first_part_def\<close>)
  next
    case (cancelling x)
    show ?thesis
      by (rule handler [OF cancelling(3)])
        (use cancelling(4) cancel_in_parts [OF assms(3)] in_parts_append in \<open>fastforce simp: first_part_def\<close>)
  next
    case (approving x)
    show ?thesis
      by (rule handler [OF approving(3)])
        (use approving(4) approve_in_parts [OF assms(1-3)] in_parts_append in \<open>fastforce simp: first_part_def\<close>)
  next
    case (rejecting x)
    show ?thesis
      by (rule handler [OF rejecting(3)])
        (use rejecting(4) reject_in_parts [OF assms(1-3)] in_parts_append in \<open>fastforce simp: first_part_def\<close>)
  next
    case reading
    from reading(2) [OF refl s] reading(1) show ?thesis by (simp add: first_part_def in_parts_def)
  qed
qed

section \<open>One request at a time\<close>

text \<open>The gateway's cursors do not depend on what its client returns.\<close>

lemma forward_cursors: "fst (forward (env\<lparr>ge_send := f\<rparr>) user rq service rr) = fst (forward env user rq service rr)"
  by (simp add: forward_def split: prod.split sum.split)

lemma routes_cursors: "fst (gateway_routes (env\<lparr>ge_send := f\<rparr>) user rq rr) = fst (gateway_routes env user rq rr)"
  by (simp add: gateway_routes_def forward_cursors split: option.split)

lemma dispatch_cursors: "fst (jwt_dispatch (env\<lparr>ge_send := f\<rparr>) rq rr) = fst (jwt_dispatch env rq rr)"
  by (simp add: jwt_dispatch_def routes_cursors Let_def env_send split: prod.split sum.split)

lemma gateway_cursors: "fst (gateway tx (env\<lparr>ge_send := f\<rparr>) rq rr) = fst (gateway tx env rq rr)"
proof -
  have "fst (gateway tx e rq rr) = fst (jwt_dispatch e rq rr)" for e
    by (simp add: gateway_def access_log_dispatch_def case_prod_beta' split: prod.split sum.split)
  then show ?thesis by (simp only: dispatch_cursors)
qed

lemma platform_step_split:
  obtains evs where "leave_events evs = []"
    "pf_cursors (fst (platform_step D cc rq st)) = fst (gateway (de_httpx_text D) (edge D cc) rq (pf_cursors st))"
    "forwarded (edge D cc) rq (pf_cursors st) = None \<longrightarrow>
       pf_world (fst (platform_step D cc rq st)) = pf_world st \<and> pf_outbox (fst (platform_step D cc rq st)) = pf_outbox st @ evs"
    "\<forall>wr w' evs'. forwarded (edge D cc) rq (pf_cursors st) = Some wr \<and> fst (deliver D cc wr (pf_world st)) = (w', evs') \<longrightarrow>
       pf_world (fst (platform_step D cc rq st)) = w' \<and> pf_outbox (fst (platform_step D cc rq st)) = pf_outbox st @ evs' @ evs"
proof -
  let ?env = "gateway_at D cc (pf_world st)"
  obtain rr line resp evs where gw: "gateway (de_httpx_text D) ?env rq (pf_cursors st) = (rr, line, resp, evs)"
    by (metis prod_cases4)
  have fwd: "forwarded ?env rq (pf_cursors st) = forwarded (edge D cc) rq (pf_cursors st)"
    by (simp add: gateway_at_edge)
  have rr: "rr = fst (gateway (de_httpx_text D) (edge D cc) rq (pf_cursors st))"
    using gw gateway_cursors [where env = "edge D cc" and tx = "de_httpx_text D" and rq = rq and rr = "pf_cursors st"]
    unfolding gateway_at_edge by (metis fst_conv)
  show ?thesis
    by (rule that [of evs]) (use leave_events_errors [OF gateway_events [OF gw]] gw fwd rr in \<open>simp_all add: platform_step_def Let_def split: prod.splits\<close>)
qed

text \<open>What is left of an answer that was served.\<close>

lemma deliver_effect:
  assumes "de_listening D (wr_url wr) = Some (service, path)"
  shows "fst (deliver D cc wr w) =
    (case cc_gateway_net cc of RequestLost e \<Rightarrow> (w, []) | _ \<Rightarrow> fst (serve D cc service path wr w))"
  using assms by (auto simp: deliver_def split: net.splits prod.splits)

text \<open>The parts of one task, as events of the traffic.\<close>

lemma traffic_run_append:
  "traffic_run D (evs @ evs') st = (case traffic_run D evs st of None \<Rightarrow> None | Some st' \<Rightarrow> traffic_run D evs' st')"
  by (induction evs arbitrary: st) (auto split: option.splits)

lemma later_parts_resume: "ev \<in> set (later_parts cc ev0) \<Longrightarrow> resumption ev"
  by (cases ev0) auto

lemma run_task_resumes:
  assumes "run_task (de_ops D) t evs (tf_sys st) = Some s'" and "\<forall>ev \<in> set evs. resumption ev"
  shows "\<exists>pre. set pre \<subseteq> set evs \<and> traffic_run D (map Resume pre) st = Some (st\<lparr>tf_sys := s'\<rparr>)"
  using assms
proof (induction evs arbitrary: st)
  case Nil
  then show ?case by (intro exI [of _ "[]"]) simp
next
  case (Cons ev evs)
  then obtain s1 where s1: "sys_exec (de_ops D) ev (tf_sys st) = Some s1"
    and rest: "if dict_has (sys_tasks s1) t then run_task (de_ops D) t evs s1 = Some s' else s1 = s'"
    by (auto split: option.splits if_splits)
  have ev: "traffic_exec D (Resume ev) st = Some (st\<lparr>tf_sys := s1\<rparr>)" using s1 Cons.prems(2) by simp
  show ?case
  proof (cases "dict_has (sys_tasks s1) t")
    case True
    with rest Cons.prems(2) Cons.IH [of "st\<lparr>tf_sys := s1\<rparr>"] obtain pre where
      "set pre \<subseteq> set evs" "traffic_run D (map Resume pre) (st\<lparr>tf_sys := s1\<rparr>) = Some (st\<lparr>tf_sys := s'\<rparr>)" by auto
    with ev show ?thesis by (intro exI [of _ "ev # pre"]) auto
  next
    case False
    with rest ev show ?thesis by (intro exI [of _ "[ev]"]) auto
  qed
qed

lemma received_in_parts:
  fixes tf :: "'b traffic"
  assumes "de_listening D (wr_url wr) = Some (service, path)" and "dict_get (tf_wire tf) t = Some wr"
    and "in_parts (de_ops D) cc t (first_part D cc t service path wr) (tf_sys tf) w' evs"
  obtains pre ans where "list_all resumption pre"
    "traffic_run D (Receive t cc # map Resume pre) tf = Some (off_wire t tf\<lparr>tf_sys := (tf_sys tf)
      \<lparr>sys_world := w', sys_outbox := sys_outbox (tf_sys tf) @ leave_events evs, sys_answers := ans\<rparr>\<rparr>)"
proof (cases "first_part D cc t service path wr")
  case None
  with assms that [of "[]" "sys_answers (tf_sys tf)"] show ?thesis
    by (simp add: in_parts_def receive_def off_wire_def)
next
  case (Some ev)
  with assms(3) obtain ans where run: "run_task (de_ops D) t (ev # later_parts cc ev) (tf_sys tf) = Some ((tf_sys tf)
      \<lparr>sys_world := w', sys_outbox := sys_outbox (tf_sys tf) @ leave_events evs, sys_answers := ans\<rparr>)" (is "_ = Some ?s'")
    by (auto simp: in_parts_def simp del: run_task.simps)
  then obtain s1 where s1: "sys_exec (de_ops D) ev (tf_sys tf) = Some s1"
    and rest: "if dict_has (sys_tasks s1) t then run_task (de_ops D) t (later_parts cc ev) s1 = Some ?s' else s1 = ?s'"
    by (auto split: option.splits if_splits)
  let ?tf1 = "off_wire t tf\<lparr>tf_sys := s1\<rparr>"
  have first: "traffic_exec D (Receive t cc) tf = Some ?tf1"
    using assms(1,2) Some s1 by (simp add: receive_def)
  have "\<exists>pre. set pre \<subseteq> set (later_parts cc ev) \<and> traffic_run D (map Resume pre) ?tf1 = Some (?tf1\<lparr>tf_sys := ?s'\<rparr>)"
  proof (cases "dict_has (sys_tasks s1) t")
    case True
    with rest show ?thesis by (intro run_task_resumes) (auto intro: later_parts_resume)
  next
    case False
    with rest show ?thesis by (intro exI [of _ "[]"]) simp
  qed
  then obtain pre where "set pre \<subseteq> set (later_parts cc ev)"
    "traffic_run D (map Resume pre) ?tf1 = Some (?tf1\<lparr>tf_sys := ?s'\<rparr>)" by blast
  with first later_parts_resume that [of pre ans] show ?thesis by (auto simp: list_all_iff)
qed

lemma delivered_in_parts:
  fixes tf :: "'b traffic"
  assumes "de_listening D (wr_url wr) = Some (service, path)" and "wire_lib_ok (de_lib D)"
    and "ready cc (sys_world (tf_sys tf))" and "dict_get (tf_wire tf) t = Some wr"
    and "\<not> dict_has (sys_tasks (tf_sys tf)) t" and "public_route (wr_method wr) path service"
    and "fst (deliver D cc wr (sys_world (tf_sys tf))) = (w', evs)"
  obtains parts ans where "list_all (\<lambda>ev. ev \<in> {Receive t cc, Vanish t} \<union> Resume ` {ev. resumption ev}) parts"
    "traffic_run D parts tf = Some (off_wire t tf\<lparr>tf_sys := (tf_sys tf)
      \<lparr>sys_world := w', sys_outbox := sys_outbox (tf_sys tf) @ leave_events evs, sys_answers := ans\<rparr>\<rparr>)"
proof (cases "\<exists>e. cc_gateway_net cc = RequestLost e")
  case True
  then have "w' = sys_world (tf_sys tf)" "evs = []" using assms(7) deliver_effect [OF assms(1)] by auto
  with assms(4) that [of "[Vanish t]" "sys_answers (tf_sys tf)"] show ?thesis
    by (simp add: off_wire_def dict_has_def)
next
  case False
  then have "fst (serve D cc service path wr (sys_world (tf_sys tf))) = (w', evs)"
    using assms(7) deliver_effect [OF assms(1)] by (cases "cc_gateway_net cc") auto
  then obtain response where "serve D cc service path wr (sys_world (tf_sys tf)) = ((w', evs), response)"
    by (metis prod.collapse)
  from serve_in_parts [OF assms(3,2,5,6) this]
  obtain pre ans where "list_all resumption pre"
    "traffic_run D (Receive t cc # map Resume pre) tf = Some (off_wire t tf\<lparr>tf_sys := (tf_sys tf)
      \<lparr>sys_world := w', sys_outbox := sys_outbox (tf_sys tf) @ leave_events evs, sys_answers := ans\<rparr>\<rparr>)"
    by (rule received_in_parts [OF assms(1,4)])
  with that [of "Receive t cc # map Resume pre" ans] show ?thesis by (simp add: list_all_iff)
qed

text \<open>
  C4: the platform is the traffic of one request at a time. Between two requests, in any state of the
  traffic with the same stores and cursors, also with other requests in transit or handlers in progress:
  letting one client request arrive, be received or lost, and resume without anything in between leaves the
  stores, breakers and cursors and publishes the leave events that \<open>platform_step\<close> gives, and all other
  requests under way are as before.
\<close>

theorem one_at_a_time:
  fixes tf :: "'b traffic"
  assumes "listening_ok D" and "wire_lib_ok (de_lib D)" and "ready cc (pf_world st)"
    and "sys_world (tf_sys tf) = pf_world st" and "tf_cursors tf = pf_cursors st"
    and "\<not> dict_has (tf_wire tf) t" and "\<not> dict_has (sys_tasks (tf_sys tf)) t"
  shows "\<exists>evs tf' new.
    traffic_run D (Arrive t cc rq # evs) tf = Some tf'
    \<and> list_all (\<lambda>ev. ev \<in> {Receive t cc, Vanish t} \<union> Resume ` {ev. resumption ev}) evs
    \<and> sys_world (tf_sys tf') = pf_world (fst (platform_step D cc rq st))
    \<and> tf_cursors tf' = pf_cursors (fst (platform_step D cc rq st))
    \<and> tf_wire tf' = tf_wire tf \<and> sys_tasks (tf_sys tf') = sys_tasks (tf_sys tf)
    \<and> pf_outbox (fst (platform_step D cc rq st)) = pf_outbox st @ new
    \<and> sys_outbox (tf_sys tf') = sys_outbox (tf_sys tf) @ leave_events new"
proof -
  let ?st' = "fst (platform_step D cc rq st)" and ?fwd = "forwarded (edge D cc) rq (pf_cursors st)"
  let ?tf1 = "arrive D t cc rq tf"
  obtain errs where errs: "leave_events errs = []"
    and step: "pf_cursors ?st' = fst (gateway (de_httpx_text D) (edge D cc) rq (pf_cursors st))"
    "?fwd = None \<longrightarrow> pf_world ?st' = pf_world st \<and> pf_outbox ?st' = pf_outbox st @ errs"
    "\<forall>wr w' evs'. ?fwd = Some wr \<and> fst (deliver D cc wr (pf_world st)) = (w', evs') \<longrightarrow>
       pf_world ?st' = w' \<and> pf_outbox ?st' = pf_outbox st @ evs' @ errs"
    by (rule platform_step_split [of D cc rq st])
  have arrived: "traffic_exec D (Arrive t cc rq) tf = Some ?tf1" using assms(6,7) by simp
  have tf1: "tf_sys ?tf1 = tf_sys tf" "tf_cursors ?tf1 = pf_cursors ?st'"
    "tf_wire ?tf1 = (case ?fwd of None \<Rightarrow> tf_wire tf | Some wr \<Rightarrow> dict_put (tf_wire tf) t wr)"
    using assms(5) step(1) by (simp_all add: arrive_def edge_def Let_def)
  show ?thesis
  proof (cases ?fwd)
    case None
    with arrived tf1 step(2) errs assms(4) show ?thesis
      by (intro exI [of _ "[]"] exI [of _ ?tf1] exI [of _ errs]) simp
  next
    case (Some wr)
    then obtain user service base where wr: "public_route (rq_method rq) (rq_path rq) service" "wr = outgoing base user rq"
      and base: "snd (gateway_resolve (ge_consul (de_gateway D) service) service (pf_cursors st)) = Inr base"
      by (auto simp: forwarded_iff)
    have listen: "de_listening D (wr_url wr) = Some (service, rq_path rq)"
      using assms(1) base unfolding listening_ok_def wr(2) by simp
    have wire: "dict_get (tf_wire ?tf1) t = Some wr" "dict_del (tf_wire ?tf1) t = tf_wire tf"
      using Some tf1(3) assms(6) by (simp_all add: del_put_absent dict_has_def)
    have there: "ready cc (sys_world (tf_sys ?tf1))" "\<not> dict_has (sys_tasks (tf_sys ?tf1)) t" "public_route (wr_method wr) (rq_path rq) service"
      using assms(3,4,7) tf1(1) wr by simp_all
    obtain w' evs' where eff: "fst (deliver D cc wr (pf_world st)) = (w', evs')" by (metis prod.collapse)
    then have "fst (deliver D cc wr (sys_world (tf_sys ?tf1))) = (w', evs')" using assms(4) tf1(1) by simp
    from delivered_in_parts [OF listen assms(2) there(1) wire(1) there(2,3) this]
    obtain parts ans where parts: "list_all (\<lambda>ev. ev \<in> {Receive t cc, Vanish t} \<union> Resume ` {ev. resumption ev}) parts"
      and run: "traffic_run D parts ?tf1 = Some (off_wire t ?tf1\<lparr>tf_sys := (tf_sys ?tf1)
        \<lparr>sys_world := w', sys_outbox := sys_outbox (tf_sys ?tf1) @ leave_events evs', sys_answers := ans\<rparr>\<rparr>)"
      (is "_ = Some ?tf'") .
    from arrived run have "traffic_run D (Arrive t cc rq # parts) tf = Some ?tf'" by simp
    with parts step(3) [rule_format, OF conjI, OF Some eff] tf1(1,2) wire(2) errs show ?thesis
      by (intro exI [of _ parts] exI [of _ ?tf'] exI [of _ "evs' @ errs"]) (simp add: off_wire_def)
  qed
qed

end
