(* ===== verification/Traffic_Authority.thy ===== *)
theory Traffic_Authority
  imports Traffic
begin

text \<open>
  With any number of client requests under way, nothing happens to a leave request that nobody asked for:
  each stored request and each decision goes back to a client request that the gateway admitted, made by
  the employee or the manager concerned, and without identity headers from clients to a token of that user.
\<close>

section \<open>What a task or a step is there for\<close>

text \<open>The route, with its path, and the caller that a handler in progress serves, or that an event begins to serve.\<close>

type_synonym call = "string \<times> string \<times> CallerIdentity"

fun task_call :: "task \<Rightarrow> call" where
  "task_call (TApply c p m) = (''POST'', ''/leaves'', c)"
| "task_call (TFetched c p m outcome) = (''POST'', ''/leaves'', c)"
| "task_call (TApproveLoaded c i lr) = (''POST'', ''/manager/requests/'' @ i @ ''/approve'', c)"
| "task_call (TApproveDeducted c i lr) = (''POST'', ''/manager/requests/'' @ i @ ''/approve'', c)"
| "task_call (TRejectLoaded c i reason lr) = (''POST'', ''/manager/requests/'' @ i @ ''/reject'', c)"

fun event_call :: "sys_event \<Rightarrow> call option" where
  "event_call (EvApply t today c p) = Some (''POST'', ''/leaves'', c)"
| "event_call (EvCancel t now i c) = Some (''PATCH'', ''/leaves/'' @ i @ ''/cancel'', c)"
| "event_call (EvApprove t n i c) = Some (''POST'', ''/manager/requests/'' @ i @ ''/approve'', c)"
| "event_call (EvReject t n i reason c) = Some (''POST'', ''/manager/requests/'' @ i @ ''/reject'', c)"
| "event_call ev = None"

lemma resumption_call: "resumption ev \<longleftrightarrow> event_call ev = None"
  by (cases ev) auto

lemma sys_exec_task_call:
  assumes "sys_exec ops ev s = Some s'" and "dict_get (sys_tasks s') t = Some k"
  shows "(\<exists>k0. dict_get (sys_tasks s) t = Some k0 \<and> task_call k0 = task_call k) \<or> event_call ev = Some (task_call k)"
  using assms
  by (cases ev)
    (auto simp: start_apply_def fetch_balance_def insert_request_def cancel_request_def start_approve_def deduct_days_def
      mark_approved_def start_reject_def mark_rejected_def sys_edit_defs Let_def
      split: option.splits task.splits if_splits sum.splits prod.splits)

section \<open>Who asked for a request and its decision\<close>

text \<open>
  Given which calls were made: somebody with the employee's id applied, and when it is no longer pending,
  somebody with the employee's id cancelled it or a manager with the id it is routed to decided it so.
\<close>

definition justified :: "(call \<Rightarrow> bool) \<Rightarrow> string \<Rightarrow> LeaveRequest \<Rightarrow> bool" where
  "justified A i r \<longleftrightarrow>
     (\<exists>c. A (''POST'', ''/leaves'', c) \<and> ci_user_id c = lr_employee_id r)
     \<and> (case lr_status r of
          PENDING \<Rightarrow> True
        | CANCELLED \<Rightarrow> \<exists>c. A (''PATCH'', ''/leaves/'' @ i @ ''/cancel'', c) \<and> ci_user_id c = lr_employee_id r
        | APPROVED \<Rightarrow> \<exists>c. A (''POST'', ''/manager/requests/'' @ i @ ''/approve'', c)
            \<and> ci_role c = MANAGER \<and> ci_user_id c = lr_reporting_manager_id r
        | REJECTED \<Rightarrow> \<exists>c. A (''POST'', ''/manager/requests/'' @ i @ ''/reject'', c)
            \<and> ci_role c = MANAGER \<and> ci_user_id c = lr_reporting_manager_id r)"

lemma justified_mono: "justified A i r \<Longrightarrow> (\<And>x. A x \<Longrightarrow> B x) \<Longrightarrow> justified B i r"
  unfolding justified_def by (cases "lr_status r") auto

lemma justified_decision:
  assumes "justified A i r" and "same_terms r r'" and "lr_status r' = st" and "st \<noteq> PENDING"
    and "A (m, p, c)"
    and "st = CANCELLED \<Longrightarrow> m = ''PATCH'' \<and> p = ''/leaves/'' @ i @ ''/cancel'' \<and> ci_user_id c = lr_employee_id r"
    and "st \<noteq> CANCELLED \<Longrightarrow> m = ''POST'' \<and> p = ''/manager/requests/'' @ i @ (if st = APPROVED then ''/approve'' else ''/reject'')
      \<and> ci_role c = MANAGER \<and> ci_user_id c = lr_reporting_manager_id r"
  shows "justified A i r'"
  using assms same_terms_fields [OF assms(2)] unfolding justified_def by (cases st) (auto split: if_splits)

text \<open>One step: if every handler in progress and the step itself serve calls that were made, what it leaves
  in the request store is justified by them.\<close>

lemma sys_exec_justified:
  assumes "sys_inv s" and "sys_exec ops ev s = Some s'"
    and "\<And>i r. get_request (w_req (sys_world s)) i = Some r \<Longrightarrow> justified A i r"
    and "\<And>t k. dict_get (sys_tasks s) t = Some k \<Longrightarrow> A (task_call k)"
    and "\<And>call. event_call ev = Some call \<Longrightarrow> A call"
    and "get_request (w_req (sys_world s')) i = Some r'"
  shows "justified A i r'"
proof -
  let ?req = "w_req (sys_world s)"
  note inv = sys_invD [OF assms(1)]
  note edits = sys_edit_defs Let_def
  have decided: "justified A j q"
    if d: "decide_update ops env now i' (ci_user_id c) st why (cb, ?req) = ((cb', req), res)" "st \<in> {APPROVED, REJECTED}"
      and q: "get_request req j = Some q"
      and A: "A (''POST'', ''/manager/requests/'' @ i' @ (if st = APPROVED then ''/approve'' else ''/reject''), c)" "ci_role c = MANAGER"
    for env now i' c st why cb cb' req res j q
    using decide_update_cases [OF d(1)]
  proof (elim disjE conjE exE)
    fix r assume r: "get_request ?req i' = Some r" "lr_status r = PENDING" "lr_reporting_manager_id r = ci_user_id c"
      "req = replace_request (Manager_Decisions.decided now st why r) ?req"
    have id: "lr_request_id (Manager_Decisions.decided now st why r) = i'"
      using wf_requestsD(3) [OF inv(2) r(1)] same_terms_fields [of r "Manager_Decisions.decided now st why r"] by simp
    show ?thesis
    proof (cases "j = i'")
      case True
      with q r(4) id have q': "q = Manager_Decisions.decided now st why r" by simp
      show ?thesis unfolding True
        by (rule justified_decision [OF assms(3) [OF r(1)], where st = st]) (use d(2) A r(3) q' in auto)
    next
      case False
      with q r(4) id assms(3) show ?thesis by simp
    qed
  qed (use q assms(3) in simp)
  show ?thesis
  proof (cases ev)
    case (EvInsert t j c u)
    with assms(2) obtain caller p m outcome where t: "dict_get (sys_tasks s) t = Some (TFetched caller p m outcome)"
      and new: "get_request ?req j = None" and s': "s' = insert_request t j c u caller p m outcome s"
      by (auto split: option.splits task.splits if_splits)
    from assms(4) [OF t] have "A (''POST'', ''/leaves'', caller)" by simp
    then have "justified A j (new_request j c u caller p m)" by (auto simp: justified_def new_request_def)
    with assms(3,6) s' show ?thesis
      by (cases rule: apply_leave_finish_cases [of j c u caller p m outcome ?req])
        (auto simp: insert_request_def edits new_request_def split: if_splits)
  next
    case (EvCancel t now j c)
    with assms(2) have s': "w_req (sys_world s') = fst (cancel_leave now j c ?req)"
      by (auto simp: cancel_request_def edits split: if_splits prod.splits)
    show ?thesis
    proof (cases "cancel_leave now j c ?req")
      case (Pair req x)
      show ?thesis
      proof (cases x)
        case (Inl e)
        with Pair s' assms(3,6) cancel_leave_refused show ?thesis by fastforce
      next
        case (Inr b)
        with Pair obtain r where r: "get_request ?req j = Some r" "lr_employee_id r = ci_user_id c" "lr_status r = PENDING"
          "req = replace_request (r\<lparr>lr_status := CANCELLED, lr_rejection_reason := None, lr_updated_at := now\<rparr>) ?req"
          by (auto simp: cancel_leave_ok_iff Let_def)
        have "A (''PATCH'', ''/leaves/'' @ j @ ''/cancel'', c)" using assms(5) EvCancel by simp
        then have "justified A j (r\<lparr>lr_status := CANCELLED, lr_rejection_reason := None, lr_updated_at := now\<rparr>)"
          by (intro justified_decision [OF assms(3) [OF r(1)], where st = CANCELLED]) (use r in \<open>auto simp: same_terms_def\<close>)
        with r(4) Pair s' assms(3,6) wf_requestsD(3) [OF inv(2) r(1)] show ?thesis by (auto split: if_splits)
      qed
    qed
  next
    case (EvSetApproved t env now)
    with assms(2) obtain caller j lr where t: "dict_get (sys_tasks s) t = Some (TApproveDeducted caller j lr)"
      and s': "s' = mark_approved ops t env now caller j lr s"
      by (auto split: option.splits task.splits)
    from assms(4) [OF t] inv(4) [OF t] decided [where st = APPROVED and i' = j and c = caller] assms(6) show ?thesis
      by (auto simp: s' mark_approved_def edits split: prod.splits)
  next
    case (EvSetRejected t env now)
    with assms(2) obtain caller j reason lr where t: "dict_get (sys_tasks s) t = Some (TRejectLoaded caller j reason lr)"
      and s': "s' = mark_rejected ops t env now caller j reason lr s"
      by (auto split: option.splits task.splits)
    from assms(4) [OF t] inv(4) [OF t] decided [where st = REJECTED and i' = j and c = caller] assms(6) show ?thesis
      by (auto simp: s' mark_rejected_def edits split: prod.splits)
  qed (use assms(2,3,6) in \<open>auto simp: start_apply_def fetch_balance_def start_approve_def deduct_days_def
        start_reject_def edits split: option.splits task.splits if_splits sum.splits prod.splits\<close>)
qed

section \<open>From a handler's first part to the client request\<close>

lemma apply_opening_call: "apply_opening D cc t caller args body = Some ev \<Longrightarrow>
    \<exists>c. caller = Inr c \<and> event_call ev = Some (''POST'', ''/leaves'', c)"
  by (auto simp: apply_opening_def split: option.splits sum.splits)

lemma cancel_opening_call: "cancel_opening cc t caller args body = Some ev \<Longrightarrow>
    \<exists>c. caller = Inr c \<and> event_call ev = Some (''PATCH'', ''/leaves/'' @ hd args @ ''/cancel'', c)"
  by (auto simp: cancel_opening_def split: sum.splits)

lemma approve_opening_call: "approve_opening cc t caller args body = Some ev \<Longrightarrow>
    \<exists>c. caller = Inr c \<and> event_call ev = Some (''POST'', ''/manager/requests/'' @ hd args @ ''/approve'', c)"
  by (auto simp: approve_opening_def split: sum.splits)

lemma reject_opening_call: "reject_opening D cc t caller args body = Some ev \<Longrightarrow>
    \<exists>c. caller = Inr c \<and> event_call ev = Some (''POST'', ''/manager/requests/'' @ hd args @ ''/reject'', c)"
  by (auto simp: reject_opening_def split: option.splits sum.splits)

lemma first_part_call:
  assumes "public_route (wr_method wr) path service" and "first_part D cc t service path wr = Some ev"
  shows "\<exists>c. sender (de_fw D) wr = Inr c \<and> event_call ev = Some (wr_method wr, path, c)"
  using assms(1)
proof (cases rule: public_opening [of "wr_method wr" path service D cc t])
  case applying
  with assms(2) apply_opening_call show ?thesis by (fastforce simp: first_part_def)
next
  case (cancelling x)
  with assms(2) cancel_opening_call [of cc t _ "[x]"] show ?thesis by (fastforce simp: first_part_def)
next
  case (approving x)
  with assms(2) approve_opening_call [of cc t _ "[x]"] show ?thesis by (fastforce simp: first_part_def)
next
  case (rejecting x)
  with assms(2) reject_opening_call [of D cc t _ "[x]"] show ?thesis by (fastforce simp: first_part_def)
next
  case reading
  with assms(2) show ?thesis by (simp add: first_part_def)
qed

text \<open>
  A client request that arrived, that the gateway admitted, and whose identity, as the service reads it from
  what the gateway sends on, is the given caller.
\<close>

definition asked :: "'b deployment \<Rightarrow> traffic_event list \<Rightarrow> call \<Rightarrow> bool" where
  "asked D evs call \<longleftrightarrow>
     (case call of (m, p, c) \<Rightarrow> \<exists>t cc rq user. Arrive t cc rq \<in> set evs \<and> rq_method rq = m \<and> rq_path rq = p
        \<and> admits (edge D cc) rq user \<and> caller_downstream (ge_header (de_gateway D)) user (rq_headers rq) = Inr c)"

lemma asked_later: "asked D evs call \<Longrightarrow> asked D (evs @ evs') call"
  by (auto simp: asked_def)

text \<open>The invariant: everything stored, in progress or in transit was asked for.\<close>

definition all_asked :: "(call \<Rightarrow> bool) \<Rightarrow> 'b deployment \<Rightarrow> 'b traffic \<Rightarrow> bool" where
  "all_asked A D st \<longleftrightarrow>
     (\<forall>i r. get_request (w_req (sys_world (tf_sys st))) i = Some r \<longrightarrow> justified A i r)
     \<and> (\<forall>t k. dict_get (sys_tasks (tf_sys st)) t = Some k \<longrightarrow> A (task_call k))
     \<and> (\<forall>t wr. dict_get (tf_wire st) t = Some wr \<longrightarrow>
          (\<exists>service path. de_listening D (wr_url wr) = Some (service, path) \<and> public_route (wr_method wr) path service
             \<and> (\<forall>c. sender (de_fw D) wr = Inr c \<longrightarrow> A (wr_method wr, path, c))))"

lemma all_asked_mono: "all_asked A D st \<Longrightarrow> (\<And>x. A x \<Longrightarrow> B x) \<Longrightarrow> all_asked B D st"
  unfolding all_asked_def by (meson justified_mono)

lemma all_asked_sys:
  assumes "all_asked A D st" and "sys_inv (tf_sys st)" and "sys_exec (de_ops D) ev (tf_sys st) = Some s"
    and "\<And>call. event_call ev = Some call \<Longrightarrow> A call"
  shows "all_asked A D (st\<lparr>tf_sys := s\<rparr>)"
proof -
  from assms(1) have old: "\<And>i r. get_request (w_req (sys_world (tf_sys st))) i = Some r \<Longrightarrow> justified A i r"
    "\<And>t k. dict_get (sys_tasks (tf_sys st)) t = Some k \<Longrightarrow> A (task_call k)"
    unfolding all_asked_def by blast+
  have "justified A i r" if "get_request (w_req (sys_world s)) i = Some r" for i r
    by (rule sys_exec_justified [OF assms(2,3) old assms(4) that])
  moreover have "A (task_call k)" if "dict_get (sys_tasks s) t = Some k" for t k
    using sys_exec_task_call [OF assms(3) that] assms(1,4) unfolding all_asked_def by metis
  ultimately show ?thesis using assms(1) by (simp add: all_asked_def)
qed

lemma all_asked_off_wire: "all_asked A D st \<Longrightarrow> all_asked A D (off_wire t st)"
  by (auto simp: all_asked_def off_wire_def split: if_splits)

lemma off_wire_sys [simp]: "tf_sys (off_wire t st) = tf_sys st"
  by (simp add: off_wire_def)

lemma all_asked_arrive:
  assumes "listening_ok D" and "fw_header (de_fw D) = ge_header (de_gateway D)"
    and "all_asked A D st" and "\<And>call. asked D [Arrive t cc rq] call \<Longrightarrow> A call"
  shows "all_asked A D (arrive D t cc rq st)"
proof (cases "forwarded (edge D cc) rq (tf_cursors st)")
  case None
  with assms(3) show ?thesis by (simp add: all_asked_def arrive_def edge_def Let_def)
next
  case (Some wr)
  then obtain user service base where u: "admits (edge D cc) rq user" "public_route (rq_method rq) (rq_path rq) service"
    and wr: "wr = outgoing base user rq"
    and base: "snd (gateway_resolve (ge_consul (de_gateway D) service) service (tf_cursors st)) = Inr base"
    by (auto simp: forwarded_iff)
  have "de_listening D (wr_url wr) = Some (service, rq_path rq)"
    using assms(1) base unfolding listening_ok_def wr by simp
  moreover have "A (wr_method wr, rq_path rq, c)" if "sender (de_fw D) wr = Inr c" for c
    using that u(1) assms(2) by (intro assms(4)) (auto simp: asked_def wr sender_def caller_downstream_def Let_def)
  moreover have "public_route (wr_method wr) (rq_path rq) service" using u(2) wr by simp
  moreover have "tf_sys (arrive D t cc rq st) = tf_sys st" "tf_wire (arrive D t cc rq st) = dict_put (tf_wire st) t wr"
    using Some by (simp_all add: arrive_def edge_def Let_def)
  ultimately show ?thesis using assms(3) unfolding all_asked_def by simp
qed

lemma all_asked_exec:
  assumes "listening_ok D" and "fw_header (de_fw D) = ge_header (de_gateway D)"
    and "all_asked A D st" and "sys_inv (tf_sys st)" and "traffic_exec D ev st = Some st'"
    and "\<And>call. asked D [ev] call \<Longrightarrow> A call"
  shows "all_asked A D st'"
proof (cases ev)
  case (Arrive t cc rq)
  with assms all_asked_arrive [OF assms(1-3)] show ?thesis by (auto split: if_splits)
next
  case (Receive t cc)
  with assms(5) obtain wr where wr: "dict_get (tf_wire st) t = Some wr" and r: "receive D t cc wr st = Some st'"
    by (auto split: option.splits)
  with assms(3) obtain service path where at: "de_listening D (wr_url wr) = Some (service, path)"
    "public_route (wr_method wr) path service" "\<And>c. sender (de_fw D) wr = Inr c \<Longrightarrow> A (wr_method wr, path, c)"
    unfolding all_asked_def by blast
  show ?thesis
  proof (cases "first_part D cc t service path wr")
    case None
    with r at(1) assms(3) show ?thesis by (auto simp: receive_def all_asked_off_wire)
  next
    case (Some ev')
    with r at(1) obtain s where s: "sys_exec (de_ops D) ev' (tf_sys (off_wire t st)) = Some s"
      "st' = off_wire t st\<lparr>tf_sys := s\<rparr>"
      by (auto simp: receive_def)
    from first_part_call [OF at(2) Some] at(3) have "A call" if "event_call ev' = Some call" for call
      using that by auto
    with s assms(4) show ?thesis
      by (simp add: all_asked_sys [OF all_asked_off_wire [OF assms(3)], of t])
  qed
next
  case (Vanish t)
  with assms(3,5) show ?thesis by (auto simp: all_asked_off_wire split: if_splits)
next
  case (Resume ev')
  with assms(5) obtain s where "resumption ev'" "sys_exec (de_ops D) ev' (tf_sys st) = Some s" "st' = st\<lparr>tf_sys := s\<rparr>"
    by (auto split: if_splits)
  with all_asked_sys [OF assms(3,4)] show ?thesis
    unfolding resumption_call by (metis option.distinct(1))
qed

section \<open>Runs\<close>

text \<open>The traffic is a run of the interleaved system.\<close>

lemma traffic_exec_steps:
  assumes "traffic_exec D ev st = Some st'"
  shows "(sys_step (de_ops D))\<^sup>*\<^sup>* (tf_sys st) (tf_sys st')"
proof -
  have "tf_sys st' = tf_sys st \<or> (\<exists>ev'. sys_exec (de_ops D) ev' (tf_sys st) = Some (tf_sys st'))"
    using assms by (cases ev) (auto simp: arrive_def Let_def receive_def split: if_splits option.splits)
  then show ?thesis by (metis r_into_rtranclp rtranclp.rtrancl_refl sys_step.step)
qed

lemma traffic_run_steps: "traffic_run D evs st = Some st' \<Longrightarrow> (sys_step (de_ops D))\<^sup>*\<^sup>* (tf_sys st) (tf_sys st')"
proof (induction evs arbitrary: st)
  case (Cons ev evs)
  then obtain st1 where "traffic_exec D ev st = Some st1" "traffic_run D evs st1 = Some st'"
    by (auto split: option.splits)
  with Cons.IH traffic_exec_steps show ?case by (meson rtranclp_trans)
qed simp

lemma traffic_run_asked:
  assumes "listening_ok D" and "fw_header (de_fw D) = ge_header (de_gateway D)"
    and "traffic_init st0" and "traffic_run D evs st0 = Some st"
  shows "all_asked (asked D evs) D st"
  using assms(4)
proof (induction evs arbitrary: st rule: rev_induct)
  case Nil
  have "get_request empty_requests i = None" for i by (simp add: get_request_def empty_requests_def)
  with Nil assms(3) show ?case by (auto simp: all_asked_def traffic_init_def sys_init_def)
next
  case (snoc ev evs)
  then obtain st1 where st1: "traffic_run D evs st0 = Some st1" "traffic_exec D ev st1 = Some st"
    by (auto simp: traffic_run_append split: option.splits)
  have "sys_inv (tf_sys st1)"
    using system.inv_reachable [OF _ traffic_run_steps [OF st1(1)]] assms(3) by (simp add: traffic_init_def)
  moreover have "all_asked (asked D (evs @ [ev])) D st1"
    using all_asked_mono [OF snoc.IH [OF st1(1)] asked_later] .
  moreover have "asked D (evs @ [ev]) call" if "asked D [ev] call" for call using that by (auto simp: asked_def)
  ultimately show ?case using all_asked_exec [OF assms(1,2) _ _ st1(2)] by blast
qed

section \<open>Tokens\<close>

text \<open>A client request that presented a token which the gateway verified at that moment and that names the caller.\<close>

definition signed_in :: "'b deployment \<Rightarrow> traffic_event list \<Rightarrow> call \<Rightarrow> bool" where
  "signed_in D evs call \<longleftrightarrow>
     (case call of (m, p, c) \<Rightarrow> \<exists>t cc rq token claims.
        Arrive t cc rq \<in> set evs \<and> rq_method rq = m \<and> rq_path rq = p \<and> presented (edge D cc) rq token
        \<and> decode_token (ge_jwt (de_gateway D)) (ge_settings (de_gateway D)) (cc_seconds cc) token = Inr claims
        \<and> json_str (field claims ''sub'') = ci_user_id c \<and> json_str (field claims ''role'') = Role_value (ci_role c))"

lemma asked_signed_in:
  assumes "header_ok (ge_header (de_gateway D))"
    and "\<forall>t cc rq. Arrive t cc rq \<in> set evs \<longrightarrow> asgi (rq_headers rq) \<and> no_identity_headers (rq_headers rq)"
    and "asked D evs call"
  shows "signed_in D evs call"
proof -
  obtain m p c where call: "call = (m, p, c)" by (cases call)
  with assms(3) obtain t cc rq user where rq: "Arrive t cc rq \<in> set evs" "rq_method rq = m" "rq_path rq = p"
    "admits (edge D cc) rq user" "caller_downstream (ge_header (de_gateway D)) user (rq_headers rq) = Inr c"
    by (auto simp: asked_def)
  from assms(2) rq(1) have clean: "asgi (rq_headers rq)" "map_of (rev (rq_headers rq)) ''x-user-id'' = None"
    "map_of (rev (rq_headers rq)) ''x-user-role'' = None"
    unfolding no_identity_headers_def by blast+
  have id: "map_of (lower_names (injected user)) ''x-user-id'' = Some (ci_user_id c)"
    "map_of (lower_names (injected user)) ''x-user-role'' = Some (Role_value (ci_role c))"
    using rq(5) unfolding caller_downstream_eq [OF assms(1) clean(1)] clean(2,3) option.case get_caller_ok_iff by blast+
  then obtain claims where claims: "user = Some claims"
    by (cases user) (auto simp: injected_def lower_names_def)
  with rq(4) obtain token where "presented (edge D cc) rq token"
    "decode_token (ge_jwt (de_gateway D)) (ge_settings (de_gateway D)) (cc_seconds cc) token = Inr claims"
    by (auto simp: admits_def split: if_splits)
  moreover have "json_str (field claims ''sub'') = ci_user_id c" "json_str (field claims ''role'') = Role_value (ci_role c)"
    using id unfolding claims by (auto simp: injected_def lower_names_def lower_names_x_user split: if_splits)
  ultimately show ?thesis using rq(1-3) unfolding signed_in_def call prod.case by blast
qed

text \<open>
  C2: nothing happens to a leave request that nobody asked for, whatever else is under way. After any traffic
  from the seeded start, with requests arriving, being lost and resuming in any order and with any failures,
  where clients send no identity headers of their own: for each stored request an application was posted, and
  for each cancelled, approved or rejected one that very route of it was called, with a token that the gateway
  verified then; the token names the employee, or the manager the request is routed to in the manager role.
\<close>

theorem traffic_authentic:
  assumes "listening_ok D" and "fw_header (de_fw D) = ge_header (de_gateway D)" and "header_ok (ge_header (de_gateway D))"
    and "traffic_init st0" and "traffic_run D evs st0 = Some st"
    and "\<forall>t cc rq. Arrive t cc rq \<in> set evs \<longrightarrow> asgi (rq_headers rq) \<and> no_identity_headers (rq_headers rq)"
    and "get_request (w_req (sys_world (tf_sys st))) i = Some r"
  shows "justified (signed_in D evs) i r"
proof (rule justified_mono)
  show "justified (asked D evs) i r"
    using traffic_run_asked [OF assms(1,2,4,5)] assms(7) by (simp add: all_asked_def)
qed (rule asked_signed_in [OF assms(3,6)])

end
