(* ===== verification/Traffic_Demo.thy ===== *)
theory Traffic_Demo
  imports Platform_Demo Traffic_Authority
begin

text \<open>
  A run of the traffic on the sample deployment, in which an employee applies and the manager approves, and
  the instances of the properties of the traffic.
\<close>

section \<open>Two client requests\<close>

definition demo_bearing :: "string \<Rightarrow> Role \<Rightarrow> string \<Rightarrow> string \<Rightarrow> string \<Rightarrow> gw_request" where
  "demo_bearing user_id role http_method path body =
     \<lparr>rq_method = http_method, rq_path = path, rq_query = [],
      rq_headers = [(''authorization'', ''Bearer '' @ create_access_token sample_jwt demo_settings 0 user_id role)],
      rq_body = body\<rparr>"

definition demo_application :: json where
  "demo_application = JObj
     [(''leave_type'', JStr (LeaveType_value CASUAL)),
      (''start_date'', JStr (wl_date_text sample_wire (demo_date 7))),
      (''end_date'', JStr (wl_date_text sample_wire (demo_date 9))),
      (''number_of_days'', JInt 3),
      (''reason'', JStr ''trip'')]"

definition demo_apply_rq :: gw_request where
  "demo_apply_rq = demo_bearing EMP1_ID EMPLOYEE ''POST'' ''/leaves'' (fw_dumps demo_framework demo_application)"

definition demo_approve_rq :: gw_request where
  "demo_approve_rq = demo_bearing MANAGER1_ID MANAGER ''POST'' ''/manager/requests/a/approve'' []"

definition demo_traffic_start :: "sample_cb traffic" where
  "demo_traffic_start = \<lparr>tf_sys = demo_start, tf_cursors = [], tf_wire = []\<rparr>"

definition demo_traffic :: "traffic_event list" where
  "demo_traffic =
     [Arrive 0 demo_cc demo_apply_rq, Receive 0 demo_cc, Resume (EvFetch 0 demo_env),
      Resume (EvInsert 0 ''a'' demo_time demo_time),
      Arrive 1 demo_cc demo_approve_rq, Receive 1 demo_cc, Resume (EvDeduct 1 demo_env),
      Resume (EvSetApproved 1 demo_env demo_time)]"

lemma demo_traffic_init: "traffic_init demo_traffic_start"
  by (simp add: traffic_init_def demo_traffic_start_def demo_init)

lemma demo_bearing_headers:
  "asgi (rq_headers (demo_bearing u r m p b))" "no_identity_headers (rq_headers (demo_bearing u r m p b))"
proof -
  have "str_lower ''authorization'' = ''authorization''" by code_simp
  then show "asgi (rq_headers (demo_bearing u r m p b))" "no_identity_headers (rq_headers (demo_bearing u r m p b))"
    by (simp_all add: demo_bearing_def asgi_def lower_names_def no_identity_headers_def)
qed

lemma demo_bearing_bears:
  "bears (edge demo_deployment demo_cc) (demo_bearing u r m p b) (create_access_token sample_jwt demo_settings 0 u r)"
proof -
  have "str_lower ''authorization'' = ''authorization''" "str_lower ''Authorization'' = ''authorization''"
    by code_simp+
  then have "demo_header (rq_headers (demo_bearing u r m p b)) ''Authorization''
      = Some (''Bearer'' @ '' '' @ create_access_token sample_jwt demo_settings 0 u r)"
    by (simp add: demo_header_def demo_bearing_def lower_names_def)
  moreover have "str_lower ''Bearer'' = ''bearer''" by code_simp
  ultimately show ?thesis unfolding bears_def by (simp only: edge_simps demo_deployment_simps) blast
qed

lemma demo_bearing_admitted:
  assumes "p \<notin> set PUBLIC_PATHS"
  shows "admits (edge demo_deployment demo_cc) (demo_bearing u r m p b) (Some (token_claims demo_settings 0 u r))"
  using bears_admits [of "edge demo_deployment demo_cc" "demo_bearing u r m p b" 0 u r] demo_bearing_bears [of u r m p b] assms
  by (simp add: sample_jwt_ok demo_settings_def demo_bearing_def)

lemma demo_arrival:
  fixes tf :: "sample_cb traffic"
  assumes "public_route m p service" and "service \<noteq> ''auth-service''" and "service \<in> set known_services" and "u \<noteq> []"
    and "\<And>wr. wr_method wr = m \<Longrightarrow> wr_body wr = b \<Longrightarrow> sender demo_framework wr = Inr \<lparr>ci_user_id = u, ci_role = r\<rparr> \<Longrightarrow>
      first_part demo_deployment demo_cc t service p wr = Some ev"
    and "sys_exec demo_ops ev (tf_sys tf) = Some s" and "tf_wire tf = []" and "\<not> dict_has (sys_tasks (tf_sys tf)) t"
  shows "\<exists>cur. traffic_run demo_deployment [Arrive t demo_cc (demo_bearing u r m p b), Receive t demo_cc] tf
    = Some (tf\<lparr>tf_sys := s, tf_cursors := cur\<rparr>)"
proof -
  let ?D = demo_deployment and ?rq = "demo_bearing u r m p b" and ?claims = "token_claims demo_settings 0 u r"
  let ?tf1 = "arrive ?D t demo_cc ?rq tf"
  have rq: "rq_method ?rq = m" "rq_path ?rq = p" "rq_body ?rq = b" by (simp_all add: demo_bearing_def)
  obtain base where base: "gateway_static_base_url service = Inr base"
    using assms(3) static_base_url_known [of service] by (auto simp: static_maps_agree is_ok_iff)
  let ?wr = "outgoing base (Some ?claims) ?rq"
  have admitted: "admits (edge ?D demo_cc) ?rq (Some ?claims)"
    using assms(1,2) protected_route by (intro demo_bearing_admitted) blast
  have "snd (gateway_resolve (ge_consul demo_gateway service) service (tf_cursors tf)) = Inr base"
    unfolding demo_resolve using base by simp
  with admitted assms(1) rq have fwd: "forwarded (edge ?D demo_cc) ?rq (tf_cursors tf) = Some ?wr"
    unfolding forwarded_iff by auto
  then have tf1: "tf_wire ?tf1 = [(t, ?wr)]" "tf_sys ?tf1 = tf_sys tf"
    using assms(7) by (simp_all add: arrive_def edge_def Let_def dict_put_def)
  have "de_listening ?D (wr_url ?wr) = Some (service, p)"
    using demo_listening_ok base rq(2) unfolding listening_ok_def by (simp add: demo_resolve)
  moreover have "sender demo_framework ?wr = Inr \<lparr>ci_user_id = u, ci_role = r\<rparr>"
    using clean_caller [of demo_header "rq_headers ?rq" u demo_settings 0 r] demo_bearing_headers demo_header_ok(1) assms(4)
    by (simp add: sender_def caller_downstream_def Let_def)
  then have "first_part ?D demo_cc t service p ?wr = Some ev"
    by (intro assms(5)) (simp_all add: rq outgoing_def)
  ultimately have "receive ?D t demo_cc ?wr ?tf1 = Some (off_wire t ?tf1\<lparr>tf_sys := s\<rparr>)"
    using assms(6) tf1(2) by (simp add: receive_def)
  moreover have "off_wire t ?tf1\<lparr>tf_sys := s\<rparr> = tf\<lparr>tf_sys := s, tf_cursors := tf_cursors ?tf1\<rparr>"
    using tf1 assms(7) by (intro traffic.equality) (simp_all add: off_wire_def dict_del_def)
  moreover have "\<not> dict_has (tf_wire tf) t" "dict_get (tf_wire ?tf1) t = Some ?wr"
    using assms(7) tf1(1) by (simp_all add: dict_has_def dict_get_def)
  ultimately show ?thesis using assms(8) by (intro exI [of _ "tf_cursors ?tf1"]) simp
qed

lemma demo_apply_opened:
  assumes "wr_body wr = fw_dumps demo_framework demo_application" and "wr_method wr = ''POST''"
    and "sender demo_framework wr = Inr demo_employee"
  shows "first_part demo_deployment demo_cc 0 ''leave-request-service'' ''/leaves'' wr
    = Some (EvApply 0 (demo_date 1) demo_employee demo_payload)"
proof -
  have "fw_body demo_framework wr = Some j" if "wr_body wr = fw_dumps demo_framework j" for j
    using that by (simp add: demo_framework_def)
  with assms(1) have "fw_body demo_framework wr = Some demo_application" by blast
  moreover have "ApplyLeaveRequest_read sample_wire demo_application = Some demo_payload"
    using wire_lib_reads [OF sample_wire_ok] LeaveType_of_value [of CASUAL]
    by (simp add: ApplyLeaveRequest_read_def demo_application_def demo_payload_def)
  moreover have "valid_ApplyLeaveRequest demo_payload" by (simp add: valid_ApplyLeaveRequest_def demo_payload_def)
  ultimately show ?thesis
    using assms(2,3) by (simp add: first_part_def first_defs apply_opening_def checked_body_def demo_cc_def)
qed

lemma demo_approve_opened:
  assumes "wr_method wr = ''POST''" and "sender demo_framework wr = Inr demo_manager"
  shows "first_part demo_deployment demo_cc 1 ''manager-service'' ''/manager/requests/a/approve'' wr
    = Some (EvApprove 1 Delivered ''a'' demo_manager)"
  using assms by (simp add: first_part_def first_defs approve_opening_def)

lemma demo_traffic_run:
  obtains st r where "traffic_run demo_deployment demo_traffic demo_traffic_start = Some st"
    "get_request (w_req (sys_world (tf_sys st))) ''a'' = Some r" "lr_status r = APPROVED"
proof -
  from approval_run obtain s r where s: "sys_run demo_ops (demo_apply 0 ''a'' @ demo_approval) demo_start = Some s"
    and r: "get_request (w_req (sys_world s)) ''a'' = Some r" "lr_status r = APPROVED" by blast
  then obtain s1 s2 s3 s4 s5 where
    s1: "sys_exec demo_ops (EvApply 0 (demo_date 1) demo_employee demo_payload) demo_start = Some s1" and
    s2: "sys_exec demo_ops (EvFetch 0 demo_env) s1 = Some s2" and
    s3: "sys_exec demo_ops (EvInsert 0 ''a'' demo_time demo_time) s2 = Some s3" and
    s4: "sys_exec demo_ops (EvApprove 1 Delivered ''a'' demo_manager) s3 = Some s4" and
    s5: "sys_exec demo_ops (EvDeduct 1 demo_env) s4 = Some s5" "sys_exec demo_ops (EvSetApproved 1 demo_env demo_time) s5 = Some s"
    by (auto simp: demo_apply_def demo_approval_def simp del: sys_exec.simps split: option.splits)
  have callers: "demo_employee = \<lparr>ci_user_id = EMP1_ID, ci_role = EMPLOYEE\<rparr>"
    "demo_manager = \<lparr>ci_user_id = MANAGER1_ID, ci_role = MANAGER\<rparr>" "EMP1_ID \<noteq> []" "MANAGER1_ID \<noteq> []"
    by (simp_all add: demo_employee_def demo_manager_def EMP1_ID_def MANAGER1_ID_def)
  have routes: "public_route ''POST'' ''/leaves'' ''leave-request-service''"
    "public_route ''POST'' ''/manager/requests/a/approve'' ''manager-service''"
    by (auto simp: public_route_def path_segment_def intro: exI [of _ "''a''"])
  have known: "''leave-request-service'' \<in> set known_services" "''manager-service'' \<in> set known_services"
    by (simp_all add: known_services_def STATIC_SERVICE_MAP_def)
  obtain cur1 where t1: "traffic_run demo_deployment [Arrive 0 demo_cc demo_apply_rq, Receive 0 demo_cc] demo_traffic_start
      = Some (demo_traffic_start\<lparr>tf_sys := s1, tf_cursors := cur1\<rparr>)"
    unfolding demo_apply_rq_def
    using demo_arrival [OF routes(1) _ known(1) callers(3), of "fw_dumps demo_framework demo_application" EMPLOYEE 0
        "EvApply 0 (demo_date 1) demo_employee demo_payload" demo_traffic_start s1] demo_apply_opened s1 callers(1)
    by (auto simp: demo_traffic_start_def demo_start_def dict_has_def)
  let ?tf3 = "demo_traffic_start\<lparr>tf_sys := s3, tf_cursors := cur1\<rparr>"
  have t3: "traffic_run demo_deployment [Resume (EvFetch 0 demo_env), Resume (EvInsert 0 ''a'' demo_time demo_time)]
      (demo_traffic_start\<lparr>tf_sys := s1, tf_cursors := cur1\<rparr>) = Some ?tf3"
    using s2 s3 by (simp del: sys_exec.simps)
  have "\<not> dict_has (sys_tasks s3) 1" using s4 by (auto split: if_splits)
  then obtain cur2 where t4: "traffic_run demo_deployment [Arrive 1 demo_cc demo_approve_rq, Receive 1 demo_cc] ?tf3
      = Some (?tf3\<lparr>tf_sys := s4, tf_cursors := cur2\<rparr>)"
    unfolding demo_approve_rq_def
    using demo_arrival [OF routes(2) _ known(2) callers(4), of "[]" MANAGER 1 "EvApprove 1 Delivered ''a'' demo_manager" ?tf3 s4]
      demo_approve_opened s4 callers(2)
    by (auto simp: demo_traffic_start_def)
  have t5: "traffic_run demo_deployment [Resume (EvDeduct 1 demo_env), Resume (EvSetApproved 1 demo_env demo_time)]
      (?tf3\<lparr>tf_sys := s4, tf_cursors := cur2\<rparr>) = Some (?tf3\<lparr>tf_sys := s, tf_cursors := cur2\<rparr>)" (is "_ = Some ?end")
    using s5 by (simp del: sys_exec.simps)
  have parts: "demo_traffic = [Arrive 0 demo_cc demo_apply_rq, Receive 0 demo_cc]
      @ [Resume (EvFetch 0 demo_env), Resume (EvInsert 0 ''a'' demo_time demo_time)]
      @ [Arrive 1 demo_cc demo_approve_rq, Receive 1 demo_cc]
      @ [Resume (EvDeduct 1 demo_env), Resume (EvSetApproved 1 demo_env demo_time)]"
    by (simp add: demo_traffic_def)
  have "traffic_run demo_deployment demo_traffic demo_traffic_start = Some ?end"
    unfolding parts traffic_run_append t1 option.case t3 t4 by (rule t5)
  with r that show thesis by simp
qed

section \<open>Instances\<close>

theorem traffic_authentic_witness:
  "\<exists>st r. traffic_run demo_deployment demo_traffic demo_traffic_start = Some st
     \<and> get_request (w_req (sys_world (tf_sys st))) ''a'' = Some r \<and> lr_status r = APPROVED
     \<and> justified (signed_in demo_deployment demo_traffic) ''a'' r"
proof -
  obtain st r where st: "traffic_run demo_deployment demo_traffic demo_traffic_start = Some st"
    "get_request (w_req (sys_world (tf_sys st))) ''a'' = Some r" "lr_status r = APPROVED"
    by (rule demo_traffic_run)
  have "\<forall>t cc rq. Arrive t cc rq \<in> set demo_traffic \<longrightarrow> asgi (rq_headers rq) \<and> no_identity_headers (rq_headers rq)"
    by (auto simp: demo_traffic_def demo_apply_rq_def demo_approve_rq_def demo_bearing_headers)
  with traffic_authentic [OF demo_listening_ok _ _ demo_traffic_init st(1) _ st(2)] st demo_header_ok show ?thesis
    by auto
qed

theorem one_at_a_time_witness:
  "\<exists>evs tf'. traffic_run demo_deployment (Arrive 5 demo_cc demo_forged # evs)
       \<lparr>tf_sys = demo_system, tf_cursors = [], tf_wire = []\<rparr> = Some tf'
     \<and> sys_world (tf_sys tf') = pf_world (fst (platform_step demo_deployment demo_cc demo_forged demo_platform))"
proof -
  let ?tf = "\<lparr>tf_sys = demo_system, tf_cursors = [], tf_wire = []\<rparr> :: sample_cb traffic"
  have "sys_world (tf_sys ?tf) = pf_world demo_platform" "tf_cursors ?tf = pf_cursors demo_platform"
    "\<not> dict_has (tf_wire ?tf) 5" "\<not> dict_has (sys_tasks (tf_sys ?tf)) 5" "wire_lib_ok (de_lib demo_deployment)"
    by (simp_all add: demo_system_def demo_start_def dict_has_def sample_wire_ok)
  from one_at_a_time [OF demo_listening_ok this(5) demo_ready this(1-4), of demo_forged] show ?thesis by blast
qed

theorem every_request_answered_witness:
  "\<exists>s rest t. sys_run demo_ops [EvApply 0 (demo_date 1) demo_employee demo_payload] demo_start = Some s
     \<and> map fst (sys_tasks s) = [0] \<and> sys_run demo_ops rest s = Some t \<and> map fst (sys_answers t) = [0]"
proof -
  obtain s where s: "sys_run demo_ops [EvApply 0 (demo_date 1) demo_employee demo_payload] demo_start = Some s"
    and shape: "map fst (sys_tasks s) = [0]"
    by (simp add: run_evals)
  note answered = every_request_answered [OF demo_init s]
  then obtain rest t where rest: "list_all resumption rest" "sys_run demo_ops rest s = Some t" "sys_tasks t = []"
    by blast
  have "sys_exec demo_ops ev t = None" if "resumption ev" for ev
    using that rest(3) by (cases ev) (simp_all add: dict_get_def)
  with answered rest have "mset (map fst (sys_answers t)) = mset [0]"
    by (simp add: map_filter_def)
  then have "map fst (sys_answers t) = [0]" by (simp only: mset_single_iff mset.simps add_0)
  with s shape rest(2) show ?thesis by (intro exI conjI)
qed

end
