(* ===== verification/Tracing.thy ===== *)
theory Tracing
  imports Service_Startup
begin

text \<open>
  \<open>shared/tracing.py\<close>: the set-up of span export, over the OpenTelemetry library as a parameter, and
  what the lifespans make of it.
\<close>

text \<open>
  The library: a resource with attributes, a tracer provider for a resource, a processor that exports every
  span to the console added to it, the process-wide provider, and the two instrumentations with the state
  they leave in the process.
\<close>

record ('r, 'p, 's) otel =
  ot_resource :: "(string, string) dict \<Rightarrow> 'r"
  ot_provider :: "'r \<Rightarrow> 'p"
  ot_add_console :: "'p \<Rightarrow> 'p"
  ot_set_provider :: "'p \<Rightarrow> 's \<Rightarrow> 's"
  ot_instrument_app :: "string \<Rightarrow> 's \<Rightarrow> 's"
  ot_instrument_httpx :: "'s \<Rightarrow> 's"

definition init_tracing :: "('r, 'p, 's) otel \<Rightarrow> string \<Rightarrow> 's \<Rightarrow> 's" where
  "init_tracing L service =
     (let resource = ot_resource L [(''service.name'', service)];
          provider = ot_provider L resource
      in ot_set_provider L (ot_add_console L provider))"

definition instrument_fastapi :: "('r, 'p, 's) otel \<Rightarrow> string \<Rightarrow> 's \<Rightarrow> 's" where
  "instrument_fastapi L app = ot_instrument_app L app"

definition instrument_httpx :: "('r, 'p, 's) otel \<Rightarrow> 's \<Rightarrow> 's" where
  "instrument_httpx L = ot_instrument_httpx L"

text \<open>What a service's process does with it: the application is instrumented when its module is loaded, the
  rest are steps of the lifespan.\<close>

definition trace_step :: "('r, 'p, 's) otel \<Rightarrow> Settings \<Rightarrow> lifespan_step \<Rightarrow> 's \<Rightarrow> 's" where
  "trace_step L cfg st =
     (case st of
        InitTracing \<Rightarrow> init_tracing L (service_name cfg)
      | InstrumentHttpx \<Rightarrow> instrument_httpx L
      | _ \<Rightarrow> id)"

definition traced_start :: "('r, 'p, 's) otel \<Rightarrow> Settings \<Rightarrow> lifespan \<Rightarrow> 's \<Rightarrow> 's" where
  "traced_start L cfg ls s = fold (trace_step L cfg) (ls_startup ls) (instrument_fastapi L (ls_service ls) s)"

text \<open>
  The documented behaviour, through what can be observed of the process: the service name under which spans
  are exported, which the first provider fixes (a later one is refused with a warning), the instrumented
  applications, and whether outbound calls carry the trace context.
\<close>

definition otel_ok ::
  "('r, 'p, 's) otel \<Rightarrow> ('s \<Rightarrow> string option) \<Rightarrow> ('s \<Rightarrow> string set) \<Rightarrow> ('s \<Rightarrow> bool) \<Rightarrow> bool" where
  "otel_ok L exported apps outbound \<longleftrightarrow>
     (\<forall>attrs s. exported (ot_set_provider L (ot_add_console L (ot_provider L (ot_resource L attrs))) s)
        = (case exported s of None \<Rightarrow> dict_get attrs ''service.name'' | Some n \<Rightarrow> Some n))
     \<and> (\<forall>p s. apps (ot_set_provider L p s) = apps s \<and> outbound (ot_set_provider L p s) = outbound s)
     \<and> (\<forall>a s. exported (ot_instrument_app L a s) = exported s \<and> apps (ot_instrument_app L a s) = insert a (apps s)
          \<and> outbound (ot_instrument_app L a s) = outbound s)
     \<and> (\<forall>s. exported (ot_instrument_httpx L s) = exported s \<and> apps (ot_instrument_httpx L s) = apps s
          \<and> outbound (ot_instrument_httpx L s))"

lemma trace_effects:
  assumes "otel_ok L exported apps outbound"
  shows "exported (init_tracing L n s) = (case exported s of None \<Rightarrow> Some n | Some m \<Rightarrow> Some m)"
    "apps (init_tracing L n s) = apps s" "outbound (init_tracing L n s) = outbound s"
    "exported (instrument_fastapi L a s) = exported s" "apps (instrument_fastapi L a s) = insert a (apps s)"
    "outbound (instrument_fastapi L a s) = outbound s"
    "exported (instrument_httpx L s) = exported s" "apps (instrument_httpx L s) = apps s" "outbound (instrument_httpx L s)"
  using assms
  by (simp_all add: otel_ok_def init_tracing_def instrument_fastapi_def instrument_httpx_def Let_def dict_get_def
      split: option.split)

text \<open>
  In a process of its own every service exports its spans under its own name and has its application
  instrumented, and exactly those that open an HTTP client propagate the trace context on outbound
  calls. Started in a process where a tracer is set already, it exports under the earlier name.
\<close>

lemma services_traced:
  assumes "otel_ok L exported apps outbound" and "ls \<in> set LIFESPANS" and "\<not> outbound s"
  shows "exported (traced_start L cfg ls s) = (case exported s of None \<Rightarrow> Some (service_name cfg) | Some n \<Rightarrow> Some n)
    \<and> apps (traced_start L cfg ls s) = insert (ls_service ls) (apps s)
    \<and> outbound (traced_start L cfg ls s) = (OpenHttpClient \<in> set (ls_startup ls))"
proof -
  note effects = trace_effects [OF assms(1)]
  from assms(2) consider "ls \<in> {gateway_lifespan, request_lifespan, manager_lifespan}"
    | "ls \<in> {auth_lifespan, balance_lifespan}" | "ls = notification_lifespan"
    by (auto simp: LIFESPANS_def)
  then show ?thesis
    using assms(3) by cases (auto simp: lifespan_defs traced_start_def trace_step_def effects)
qed

text \<open>A library that behaves so.\<close>

definition sample_otel :: "((string, string) dict, (string, string) dict, string option \<times> string set \<times> bool) otel" where
  "sample_otel =
     \<lparr>ot_resource = id, ot_provider = id, ot_add_console = id,
      ot_set_provider = (\<lambda>p (n, a, h). (case n of None \<Rightarrow> dict_get p ''service.name'' | Some m \<Rightarrow> Some m, a, h)),
      ot_instrument_app = (\<lambda>app (n, a, h). (n, insert app a, h)),
      ot_instrument_httpx = (\<lambda>(n, a, h). (n, a, True))\<rparr>"

lemma sample_otel_ok: "otel_ok sample_otel fst (fst \<circ> snd) (snd \<circ> snd)"
  by (auto simp: otel_ok_def sample_otel_def)

end
