(* ===== verification/Postman_Collection.thy ===== *)
theory Postman_Collection
  imports Gateway_Properties
begin

text \<open>
  The builder of the end-to-end test collection (\<open>build_collection.py\<close>): the helpers that make URLs,
  headers, bodies and requests, the request folders with their test scripts, and the assembled
  document; with the agreement between the requests of the collection and the gateway's routes.
\<close>

section \<open>json.dumps with indentation\<close>

definition escape_char :: "char \<Rightarrow> string" where
  "escape_char c =
     (let n = of_char c :: nat in
      if n = 34 \<or> n = 92 then [CHR 0x5C, c]
      else if n = 8 then [CHR 0x5C, CHR ''b''] else if n = 12 then [CHR 0x5C, CHR ''f'']
      else if n = 10 then [CHR 0x5C, CHR ''n''] else if n = 13 then [CHR 0x5C, CHR ''r'']
      else if n = 9 then [CHR 0x5C, CHR ''t'']
      else if 32 \<le> n \<and> n < 127 then [c]
      else [CHR 0x5C, CHR ''u'', CHR ''0'', CHR ''0'', hex_digit (n div 16), hex_digit (n mod 16)])"

definition json_quote :: "string \<Rightarrow> string" where
  "json_quote s = [CHR 0x22] @ concat (map escape_char s) @ [CHR 0x22]"

definition line_at :: "nat \<Rightarrow> string" where
  "line_at level = CHR 0x0A # replicate (2 * level) (CHR '' '')"

fun json_dumps :: "nat \<Rightarrow> json \<Rightarrow> string" where
  "json_dumps level JNull = ''null''"
| "json_dumps level (JBool b) = (if b then ''true'' else ''false'')"
| "json_dumps level (JInt i) = str_of_int i"
| "json_dumps level (JFloat t) = t"
| "json_dumps level (JStr s) = json_quote s"
| "json_dumps level (JList xs) =
     (if xs = [] then ''[]''
      else ''['' @ line_at (Suc level)
        @ join_with ('','' @ line_at (Suc level)) (map (json_dumps (Suc level)) xs) @ line_at level @ '']'')"
| "json_dumps level (JObj kvs) =
     (if kvs = [] then ''{}''
      else ''{'' @ line_at (Suc level)
        @ join_with ('','' @ line_at (Suc level))
            (map (\<lambda>(k, v). json_quote k @ '': '' @ json_dumps (Suc level) v) kvs)
        @ line_at level @ ''}'')"

section \<open>Helpers\<close>

text \<open>A header or a query parameter: a dictionary with a key and a value.\<close>

record param =
  pm_key :: string
  pm_value :: string

definition param :: "string \<Rightarrow> string \<Rightarrow> param" where
  "param k v = \<lparr>pm_key = k, pm_value = v\<rparr>"

definition param_json :: "param \<Rightarrow> json" where
  "param_json p = JObj [(''key'', JStr (pm_key p)), (''value'', JStr (pm_value p))]"

definition script :: "string list \<Rightarrow> json" where
  "script ls = JObj [(''type'', JStr ''text/javascript''), (''exec'', JList (map JStr ls))]"

definition path_parts :: "string \<Rightarrow> string list" where
  "path_parts path = filter (\<lambda>p. p \<noteq> []) (split_path path)"

definition url :: "string \<Rightarrow> param list option \<Rightarrow> json" where
  "url path query =
     (let parts = path_parts path;
          given = (case query of None \<Rightarrow> [] | Some q \<Rightarrow> q)
      in JObj
        ([(''raw'', JStr (''{{baseUrl}}/'' @ join_with ''/'' parts
             @ (if given \<noteq> [] then ''?'' @ join_with ''&'' (map (\<lambda>q. pm_key q @ ''='' @ pm_value q) given) else []))),
          (''host'', JList [JStr ''{{baseUrl}}'']),
          (''path'', JList (map JStr parts))]
         @ (if given \<noteq> [] then [(''query'', JList (map param_json given))] else [])))"

definition bearer :: "string \<Rightarrow> param list" where
  "bearer var = [param ''Authorization'' (''Bearer {{'' @ var @ ''}}'')]"

definition json_body :: "json \<Rightarrow> json" where
  "json_body obj = JObj
     [(''mode'', JStr ''raw''), (''raw'', JStr (json_dumps 0 obj)),
      (''options'', JObj [(''raw'', JObj [(''language'', JStr ''json'')])])]"

definition request ::
  "string \<Rightarrow> string \<Rightarrow> string \<Rightarrow> param list option \<Rightarrow> json option \<Rightarrow> param list option
    \<Rightarrow> string list option \<Rightarrow> string \<Rightarrow> json" where
  "request name http_method url_path headers body query test_lines description =
     JObj
       ([(''name'', JStr name),
         (''request'', JObj
           ([(''method'', JStr http_method),
             (''header'', JList (map param_json (case headers of None \<Rightarrow> [] | Some hs \<Rightarrow> hs))),
             (''url'', url url_path query)]
            @ (case body of None \<Rightarrow> [] | Some b \<Rightarrow> [(''body'', b)])
            @ (if description \<noteq> [] then [(''description'', JStr description)] else []))),
         (''response'', JList [])]
        @ (case test_lines of
             None \<Rightarrow> []
           | Some ls \<Rightarrow> [(''event'', JList [JObj [(''listen'', JStr ''test''), (''script'', script ls)]])]))"

section \<open>Folders\<close>

definition folder_auth :: json where
  \<open>folder_auth = JObj
     [(''name'', JStr ''01 - Authentication''),
      (''description'', JStr ''POST /auth/login is the only public endpoint. Returns an HS256 JWT carrying sub (user id) and role. Bad creds and unknown users both return 401 with the same generic message (so the API does not leak which accounts exist).''),
      (''item'', JList
       [request ''Login - Manager'' ''POST'' ''/auth/login''
          (Some ([param ''Content-Type'' ''application/json''])) (Some (json_body (JObj
            [(''username'', JStr ''manager1''),
             (''password'', JStr ''Manager@123'')]))) None (Some
          [''pm.test('200 OK', function () { pm.response.to.have.status(200); });'',
           ''const body = pm.response.json();'',
           ''pm.test('Response carries an access_token', function () {'',
           ''  pm.expect(body.access_token).to.be.a('string').and.not.empty;'',
           ''  pm.expect(body.token_type).to.eql('bearer');'',
           ''});'',
           ''pm.collectionVariables.set('manager_token', body.access_token);'']) [],
        request ''Login - Employee 1'' ''POST'' ''/auth/login''
          (Some ([param ''Content-Type'' ''application/json''])) (Some (json_body (JObj
            [(''username'', JStr ''emp1''),
             (''password'', JStr ''Employee@123'')]))) None (Some
          [''pm.test('200 OK', function () { pm.response.to.have.status(200); });'',
           ''const body = pm.response.json();'',
           ''pm.expect(body.access_token).to.be.a('string').and.not.empty;'',
           ''pm.collectionVariables.set('emp1_token', body.access_token);'']) [],
        request ''Login - Employee 2'' ''POST'' ''/auth/login''
          (Some ([param ''Content-Type'' ''application/json''])) (Some (json_body (JObj
            [(''username'', JStr ''emp2''),
             (''password'', JStr ''Employee@123'')]))) None (Some
          [''pm.test('200 OK', function () { pm.response.to.have.status(200); });'',
           ''const body = pm.response.json();'',
           ''pm.expect(body.access_token).to.be.a('string').and.not.empty;'',
           ''pm.collectionVariables.set('emp2_token', body.access_token);'']) [],
        request ''Login - Wrong Password (401)'' ''POST'' ''/auth/login''
          (Some ([param ''Content-Type'' ''application/json''])) (Some (json_body (JObj
            [(''username'', JStr ''emp1''),
             (''password'', JStr ''wrong-password'')]))) None (Some
          [''pm.test('401 Unauthorized', function () { pm.response.to.have.status(401); });'',
           ''pm.test('Generic error detail', function () {'',
           ''  pm.expect(pm.response.json().detail).to.match(/invalid/i);'',
           ''});'']) [],
        request ''Login - Unknown User (401)'' ''POST'' ''/auth/login''
          (Some ([param ''Content-Type'' ''application/json''])) (Some (json_body (JObj
            [(''username'', JStr ''ghost''),
             (''password'', JStr ''irrelevant'')]))) None (Some
          [''pm.test('401 Unauthorized', function () { pm.response.to.have.status(401); });'']) [],
        request ''Login - Missing Field (422)'' ''POST'' ''/auth/login''
          (Some ([param ''Content-Type'' ''application/json''])) (Some (json_body (JObj
            [(''username'', JStr ''emp1'')]))) None (Some
          [''pm.test('422 Unprocessable Entity', function () { pm.response.to.have.status(422); });'']) []])]\<close>

definition folder_balance :: json where
  \<open>folder_balance = JObj
     [(''name'', JStr ''02 - Leave Balance''),
      (''description'', JStr ''GET /employees/me/balances returns the caller's own balances. GET /employees/{id}/balances enforces RBAC: an employee may read only their own; a manager may additionally read direct reports. Each seeded employee starts with CASUAL=12, SICK=10, PRIVILEGE=15.''),
      (''item'', JList
       [request ''My Balances - Employee 1 (200, 3 entries)'' ''GET'' ''/employees/me/balances''
          (Some (bearer ''emp1_token'')) None None (Some
          [''pm.test('200 OK', function () { pm.response.to.have.status(200); });'',
           ''const body = pm.response.json();'',
           ''pm.test('employee_id matches emp1', function () {'',
           ''  pm.expect(body.employee_id).to.eql(pm.collectionVariables.get('emp1_id'));'',
           ''});'',
           ''pm.test('Three balance records seeded with the canonical allocations', function () {'',
           ''  pm.expect(body.balances).to.have.lengthOf(3);'',
           ''  const byType = {};'',
           ''  body.balances.forEach(function (b) { byType[b.leave_type] = b; });'',
           ''  pm.expect(byType.CASUAL.total_allocated).to.eql(12);'',
           ''  pm.expect(byType.SICK.total_allocated).to.eql(10);'',
           ''  pm.expect(byType.PRIVILEGE.total_allocated).to.eql(15);'',
           ''  body.balances.forEach(function (b) {'',
           ''    pm.expect(b.remaining).to.eql(b.total_allocated - b.used);'',
           ''  });'',
           ''});'']) [],
        request ''My Balances - Manager (200, empty list)'' ''GET'' ''/employees/me/balances''
          (Some (bearer ''manager_token'')) None None (Some
          [''pm.test('200 OK', function () { pm.response.to.have.status(200); });'',
           ''pm.test('Manager has no balance records', function () {'',
           ''  pm.expect(pm.response.json().balances).to.have.lengthOf(0);'',
           ''});'']) [],
        request ''Specific Balances - Self (200)'' ''GET'' ''/employees/{{emp1_id}}/balances''
          (Some (bearer ''emp1_token'')) None None (Some
          [''pm.test('200 OK', function () { pm.response.to.have.status(200); });'']) [],
        request ''Specific Balances - Manager Reading Direct Report (200)'' ''GET'' ''/employees/{{emp1_id}}/balances''
          (Some (bearer ''manager_token'')) None None (Some
          [''pm.test('200 OK', function () { pm.response.to.have.status(200); });'',
           ''pm.test('Returns balances for the requested employee', function () {'',
           ''  pm.expect(pm.response.json().employee_id).to.eql(pm.collectionVariables.get('emp1_id'));'',
           ''});'']) [],
        request ''Specific Balances - Employee Reading Another Employee (403)'' ''GET'' ''/employees/{{emp2_id}}/balances''
          (Some (bearer ''emp1_token'')) None None (Some
          [''pm.test('403 Forbidden', function () { pm.response.to.have.status(403); });'']) [],
        request ''Specific Balances - Manager Reading Outside Team (403)'' ''GET'' ''/employees/{{fake_id}}/balances''
          (Some (bearer ''manager_token'')) None None (Some
          [''pm.test('403 Forbidden', function () { pm.response.to.have.status(403); });'']) [],
        request ''Specific Balances - No Auth Header (401)'' ''GET'' ''/employees/me/balances''
          None None None (Some
          [''pm.test('401 Unauthorized', function () { pm.response.to.have.status(401); });'']) []])]\<close>

text \<open>The applications that must be refused, by the validations, the schema or the gateway.\<close>

definition apply_refusals :: "json list" where
  \<open>apply_refusals =
       [request ''Apply - Date Range Inverted (400)'' ''POST'' ''/leaves''
          (Some ([param ''Content-Type'' ''application/json'', param ''Authorization'' ''Bearer {{emp1_token}}''])) (Some (json_body (JObj
            [(''leave_type'', JStr ''CASUAL''),
             (''start_date'', JStr ''{{range_a_end}}''),
             (''end_date'', JStr ''{{range_a_start}}''),
             (''number_of_days'', JInt 3),
             (''reason'', JStr ''Inverted range'')]))) None (Some
          [''pm.test('400 Bad Request (start > end)', function () { pm.response.to.have.status(400); });'',
           ''pm.expect(pm.response.json().detail).to.match(/start_date.*not.*after.*end_date/i);'']) [],
        request ''Apply - Past Start Date (400)'' ''POST'' ''/leaves''
          (Some ([param ''Content-Type'' ''application/json'', param ''Authorization'' ''Bearer {{emp1_token}}''])) (Some (json_body (JObj
            [(''leave_type'', JStr ''CASUAL''),
             (''start_date'', JStr ''{{past_start}}''),
             (''end_date'', JStr ''{{past_end}}''),
             (''number_of_days'', JInt 3),
             (''reason'', JStr ''Backdated'')]))) None (Some
          [''pm.test('400 Bad Request (past date)', function () { pm.response.to.have.status(400); });'',
           ''pm.expect(pm.response.json().detail).to.match(/past/i);'']) [],
        request ''Apply - Day Count Mismatch (400)'' ''POST'' ''/leaves''
          (Some ([param ''Content-Type'' ''application/json'', param ''Authorization'' ''Bearer {{emp1_token}}''])) (Some (json_body (JObj
            [(''leave_type'', JStr ''CASUAL''),
             (''start_date'', JStr ''{{range_a_start}}''),
             (''end_date'', JStr ''{{range_a_end}}''),
             (''number_of_days'', JInt 5),
             (''reason'', JStr ''Wrong day count'')]))) None (Some
          [''pm.test('400 Bad Request (day count mismatch)', function () { pm.response.to.have.status(400); });'',
           ''pm.expect(pm.response.json().detail).to.match(/number_of_days/i);'']) [],
        request ''Apply - Overlap (409)'' ''POST'' ''/leaves''
          (Some ([param ''Content-Type'' ''application/json'', param ''Authorization'' ''Bearer {{emp1_token}}''])) (Some (json_body (JObj
            [(''leave_type'', JStr ''SICK''),
             (''start_date'', JStr ''{{range_a_start}}''),
             (''end_date'', JStr ''{{range_a_end}}''),
             (''number_of_days'', JInt 3),
             (''reason'', JStr ''Overlapping with existing pending request'')]))) None (Some
          [''pm.test('409 Conflict (overlap)', function () { pm.response.to.have.status(409); });'',
           ''pm.expect(pm.response.json().detail).to.match(/already exists/i);'']) [],
        request ''Apply - Insufficient Balance (409)'' ''POST'' ''/leaves''
          (Some ([param ''Content-Type'' ''application/json'', param ''Authorization'' ''Bearer {{emp1_token}}''])) (Some (json_body (JObj
            [(''leave_type'', JStr ''SICK''),
             (''start_date'', JStr ''{{range_d_start}}''),
             (''end_date'', JStr ''{{range_d_end}}''),
             (''number_of_days'', JInt 11),
             (''reason'', JStr ''Long sickness (exceeds 10-day SICK allocation)'')]))) None (Some
          [''pm.test('409 Conflict (insufficient balance)', function () { pm.response.to.have.status(409); });'',
           ''pm.expect(pm.response.json().detail).to.match(/insufficient/i);'']) [],
        request ''Apply - Reporting Manager Mismatch (400)'' ''POST'' ''/leaves''
          (Some ([param ''Content-Type'' ''application/json'', param ''Authorization'' ''Bearer {{emp1_token}}''])) (Some (json_body (JObj
            [(''leave_type'', JStr ''CASUAL''),
             (''start_date'', JStr ''{{range_e_start}}''),
             (''end_date'', JStr ''{{range_e_end}}''),
             (''number_of_days'', JInt 1),
             (''reason'', JStr ''Trying to bypass real manager''),
             (''reporting_manager_id'', JStr ''{{fake_id}}'')]))) None (Some
          [''pm.test('400 Bad Request (manager mismatch)', function () { pm.response.to.have.status(400); });'',
           ''pm.expect(pm.response.json().detail).to.match(/reporting_manager_id/i);'']) [],
        request ''Apply - Negative Days (422)'' ''POST'' ''/leaves''
          (Some ([param ''Content-Type'' ''application/json'', param ''Authorization'' ''Bearer {{emp1_token}}''])) (Some (json_body (JObj
            [(''leave_type'', JStr ''CASUAL''),
             (''start_date'', JStr ''{{range_a_start}}''),
             (''end_date'', JStr ''{{range_a_end}}''),
             (''number_of_days'', JInt (-3)),
             (''reason'', JStr ''Negative days violates Pydantic Field(gt=0)'')]))) None (Some
          [''pm.test('422 Unprocessable Entity', function () { pm.response.to.have.status(422); });'']) [],
        request ''Apply - No Auth (401)'' ''POST'' ''/leaves''
          (Some ([param ''Content-Type'' ''application/json''])) (Some (json_body (JObj
            [(''leave_type'', JStr ''CASUAL''),
             (''start_date'', JStr ''{{range_a_start}}''),
             (''end_date'', JStr ''{{range_a_end}}''),
             (''number_of_days'', JInt 3),
             (''reason'', JStr ''No token'')]))) None (Some
          [''pm.test('401 Unauthorized', function () { pm.response.to.have.status(401); });'']) []]\<close>

definition folder_apply :: json where
  \<open>folder_apply = JObj
     [(''name'', JStr ''03 - Apply Leave''),
      (''description'', JStr ''POST /leaves runs the four business validations in order: (1) start_date <= end_date - 400, (2) start_date >= today - 400, (3) number_of_days == inclusive day count - 400, (4) no overlap with existing PENDING/APPROVED requests - 409. After they pass, the service calls Leave Balance over httpx and returns 409 if balance is insufficient. Pydantic returns 422 for structural problems (missing/wrong-typed fields, days <= 0).''),
      (''item'', JList
       (request ''Apply Casual 3d - Success (201)'' ''POST'' ''/leaves''
          (Some ([param ''Content-Type'' ''application/json'', param ''Authorization'' ''Bearer {{emp1_token}}''])) (Some (json_body (JObj
            [(''leave_type'', JStr ''CASUAL''),
             (''start_date'', JStr ''{{range_a_start}}''),
             (''end_date'', JStr ''{{range_a_end}}''),
             (''number_of_days'', JInt 3),
             (''reason'', JStr ''Family event'')]))) None (Some
          [''pm.test('201 Created', function () { pm.response.to.have.status(201); });'',
           ''const body = pm.response.json();'',
           ''pm.test('Status is PENDING and routed to manager1', function () {'',
           ''  pm.expect(body.status).to.eql('PENDING');'',
           ''  pm.expect(body.reporting_manager_id).to.eql(pm.collectionVariables.get('manager_id'));'',
           ''  pm.expect(body.employee_id).to.eql(pm.collectionVariables.get('emp1_id'));'',
           ''});'',
           ''pm.collectionVariables.set('pending_request_id_1', body.request_id);'']) [] #
        apply_refusals))]\<close>

definition folder_history :: json where
  \<open>folder_history = JObj
     [(''name'', JStr ''04 - History''),
      (''description'', JStr ''GET /leaves/history is the caller's own history with optional ?status filter (PENDING/APPROVED/REJECTED/CANCELLED/ALL) and page/page_size pagination. Invalid status values return 400.''),
      (''item'', JList
       [request ''My History - Default'' ''GET'' ''/leaves/history''
          (Some (bearer ''emp1_token'')) None None (Some
          [''pm.test('200 OK', function () { pm.response.to.have.status(200); });'',
           ''const body = pm.response.json();'',
           ''pm.test('Pagination envelope is well-formed', function () {'',
           ''  pm.expect(body).to.have.all.keys('items', 'page', 'page_size', 'total', 'total_pages');'',
           ''  pm.expect(body.page).to.eql(1);'',
           ''  pm.expect(body.page_size).to.eql(10);'',
           ''});'',
           ''pm.test('Includes the pending request created earlier', function () {'',
           ''  const ids = body.items.map(function (i) { return i.request_id; });'',
           ''  pm.expect(ids).to.include(pm.collectionVariables.get('pending_request_id_1'));'',
           ''});'']) [],
        request ''My History - status=PENDING'' ''GET'' ''/leaves/history''
          (Some (bearer ''emp1_token'')) None (Some ([param ''status'' ''PENDING''])) (Some
          [''pm.test('200 OK', function () { pm.response.to.have.status(200); });'',
           ''const body = pm.response.json();'',
           ''pm.test('All returned items are PENDING', function () {'',
           ''  body.items.forEach(function (i) { pm.expect(i.status).to.eql('PENDING'); });'',
           ''  pm.expect(body.items.length).to.be.at.least(1);'',
           ''});'']) [],
        request ''My History - status=APPROVED (initially empty)'' ''GET'' ''/leaves/history''
          (Some (bearer ''emp1_token'')) None (Some ([param ''status'' ''APPROVED''])) (Some
          [''pm.test('200 OK', function () { pm.response.to.have.status(200); });'',
           ''pm.test('No APPROVED items yet', function () {'',
           ''  pm.expect(pm.response.json().items).to.have.lengthOf(0);'',
           ''});'']) [],
        request ''My History - status=ALL'' ''GET'' ''/leaves/history''
          (Some (bearer ''emp1_token'')) None (Some ([param ''status'' ''ALL''])) (Some
          [''pm.test('200 OK', function () { pm.response.to.have.status(200); });'']) [],
        request ''My History - Invalid Status (400)'' ''GET'' ''/leaves/history''
          (Some (bearer ''emp1_token'')) None (Some ([param ''status'' ''BOGUS''])) (Some
          [''pm.test('400 Bad Request', function () { pm.response.to.have.status(400); });'']) [],
        request ''My History - Pagination (page_size=1)'' ''GET'' ''/leaves/history''
          (Some (bearer ''emp1_token'')) None (Some ([param ''page'' ''1'', param ''page_size'' ''1''])) (Some
          [''pm.test('200 OK', function () { pm.response.to.have.status(200); });'',
           ''const body = pm.response.json();'',
           ''pm.test('Page envelope reflects requested size', function () {'',
           ''  pm.expect(body.page_size).to.eql(1);'',
           ''  pm.expect(body.items.length).to.be.at.most(1);'',
           ''});'']) []])]\<close>

definition folder_manager_view :: json where
  \<open>folder_manager_view = JObj
     [(''name'', JStr ''05 - Manager: View''),
      (''description'', JStr ''GET /manager/requests is manager-only (require_manager dependency returns 403 for employees). Results are scoped to the calling manager's team and support optional status / employee_id / from_date / to_date filters.''),
      (''item'', JList
       [request ''List Team Requests - Employee (403)'' ''GET'' ''/manager/requests''
          (Some (bearer ''emp1_token'')) None None (Some
          [''pm.test('403 Forbidden (employees may not list manager requests)', function () {'',
           ''  pm.response.to.have.status(403);'',
           ''});'']) [],
        request ''List Team Requests - Manager (200)'' ''GET'' ''/manager/requests''
          (Some (bearer ''manager_token'')) None None (Some
          [''pm.test('200 OK', function () { pm.response.to.have.status(200); });'',
           ''const items = pm.response.json();'',
           ''pm.test('Pending request from emp1 is visible', function () {'',
           ''  const ids = items.map(function (i) { return i.request_id; });'',
           ''  pm.expect(ids).to.include(pm.collectionVariables.get('pending_request_id_1'));'',
           ''});'',
           ''pm.test('Each row carries employee_name from the org chart', function () {'',
           ''  items.forEach(function (i) { pm.expect(i.employee_name).to.be.a('string'); });'',
           ''});'']) [],
        request ''List Team Requests - status=PENDING'' ''GET'' ''/manager/requests''
          (Some (bearer ''manager_token'')) None (Some ([param ''status'' ''PENDING''])) (Some
          [''pm.test('200 OK', function () { pm.response.to.have.status(200); });'',
           ''pm.response.json().forEach(function (i) {'',
           ''  pm.expect(i.status).to.eql('PENDING');'',
           ''});'']) [],
        request ''List Team Requests - employee_id=emp1'' ''GET'' ''/manager/requests''
          (Some (bearer ''manager_token'')) None (Some ([param ''employee_id'' ''{{emp1_id}}''])) (Some
          [''pm.test('200 OK', function () { pm.response.to.have.status(200); });'',
           ''pm.response.json().forEach(function (i) {'',
           ''  pm.expect(i.employee_id).to.eql(pm.collectionVariables.get('emp1_id'));'',
           ''});'']) []])]\<close>

definition folder_manager_approve :: json where
  \<open>folder_manager_approve = JObj
     [(''name'', JStr ''06 - Manager: Approve''),
      (''description'', JStr ''Approving a PENDING request orchestrates two downstream calls: (1) deduct days from the employee's balance via the Leave Balance Service, then (2) flip the request to APPROVED on the Leave Request Service. Both calls are wrapped in pybreaker circuit breakers.''),
      (''item'', JList
       [request ''Approve Pending #1 (200, balance deducted)'' ''POST'' ''/manager/requests/{{pending_request_id_1}}/approve''
          (Some (bearer ''manager_token'')) None None (Some
          [''pm.test('200 OK', function () { pm.response.to.have.status(200); });'',
           ''const body = pm.response.json();'',
           ''pm.test('Status flipped to APPROVED', function () {'',
           ''  pm.expect(body.status).to.eql('APPROVED');'',
           ''  pm.expect(body.request_id).to.eql(pm.collectionVariables.get('pending_request_id_1'));'',
           ''});'']) [],
        request ''Approve Same Request Again (409)'' ''POST'' ''/manager/requests/{{pending_request_id_1}}/approve''
          (Some (bearer ''manager_token'')) None None (Some
          [''pm.test('409 Conflict (only PENDING requests can be approved)', function () {'',
           ''  pm.response.to.have.status(409);'',
           ''});'']) [],
        request ''Verify Balance Deducted (CASUAL used=3, remaining=9)'' ''GET'' ''/employees/me/balances''
          (Some (bearer ''emp1_token'')) None None (Some
          [''pm.test('200 OK', function () { pm.response.to.have.status(200); });'',
           ''const casual = pm.response.json().balances.find(function (b) {'',
           ''  return b.leave_type === 'CASUAL';'',
           ''});'',
           ''pm.test('CASUAL used=3, remaining=9', function () {'',
           ''  pm.expect(casual.used).to.eql(3);'',
           ''  pm.expect(casual.remaining).to.eql(9);'',
           ''});'']) [],
        request ''Approve Unknown Request ID (404)'' ''POST'' ''/manager/requests/{{fake_id}}/approve''
          (Some (bearer ''manager_token'')) None None (Some
          [''pm.test('404 Not Found', function () { pm.response.to.have.status(404); });'']) []])]\<close>

definition folder_manager_reject :: json where
  \<open>folder_manager_reject = JObj
     [(''name'', JStr ''07 - Manager: Reject''),
      (''description'', JStr ''Rejecting a PENDING request requires a non-empty rejection_reason (Pydantic min_length=1). Already-decided requests return 409. This folder first creates a fresh PENDING request to reject.''),
      (''item'', JList
       [request ''Apply 2nd Leave - Privilege 2d (201, captures id_2)'' ''POST'' ''/leaves''
          (Some ([param ''Content-Type'' ''application/json'', param ''Authorization'' ''Bearer {{emp1_token}}''])) (Some (json_body (JObj
            [(''leave_type'', JStr ''PRIVILEGE''),
             (''start_date'', JStr ''{{range_b_start}}''),
             (''end_date'', JStr ''{{range_b_end}}''),
             (''number_of_days'', JInt 2),
             (''reason'', JStr ''Trip planning'')]))) None (Some
          [''pm.test('201 Created', function () { pm.response.to.have.status(201); });'',
           ''pm.collectionVariables.set('pending_request_id_2', pm.response.json().request_id);'']) [],
        request ''Reject - Empty Reason (422)'' ''POST'' ''/manager/requests/{{pending_request_id_2}}/reject''
          (Some ([param ''Content-Type'' ''application/json'', param ''Authorization'' ''Bearer {{manager_token}}''])) (Some (json_body (JObj
            [(''rejection_reason'', JStr [])]))) None (Some
          [''pm.test('422 Unprocessable Entity (rejection_reason min_length=1)', function () {'',
           ''  pm.response.to.have.status(422);'',
           ''});'']) [],
        request ''Reject - Missing Reason Body (422)'' ''POST'' ''/manager/requests/{{pending_request_id_2}}/reject''
          (Some ([param ''Content-Type'' ''application/json'', param ''Authorization'' ''Bearer {{manager_token}}''])) (Some (json_body (JObj
            []))) None (Some
          [''pm.test('422 Unprocessable Entity', function () { pm.response.to.have.status(422); });'']) [],
        request ''Reject Pending #2 (200)'' ''POST'' ''/manager/requests/{{pending_request_id_2}}/reject''
          (Some ([param ''Content-Type'' ''application/json'', param ''Authorization'' ''Bearer {{manager_token}}''])) (Some (json_body (JObj
            [(''rejection_reason'', JStr ''Conflicts with team launch'')]))) None (Some
          [''pm.test('200 OK', function () { pm.response.to.have.status(200); });'',
           ''const body = pm.response.json();'',
           ''pm.test('Status flipped to REJECTED with reason recorded', function () {'',
           ''  pm.expect(body.status).to.eql('REJECTED');'',
           ''  pm.expect(body.rejection_reason).to.eql('Conflicts with team launch');'',
           ''});'']) [],
        request ''Reject Already Rejected (409)'' ''POST'' ''/manager/requests/{{pending_request_id_2}}/reject''
          (Some ([param ''Content-Type'' ''application/json'', param ''Authorization'' ''Bearer {{manager_token}}''])) (Some (json_body (JObj
            [(''rejection_reason'', JStr ''Trying again'')]))) None (Some
          [''pm.test('409 Conflict (only PENDING can be rejected)', function () {'',
           ''  pm.response.to.have.status(409);'',
           ''});'']) []])]\<close>

definition folder_cancel :: json where
  \<open>folder_cancel = JObj
     [(''name'', JStr ''08 - Cancel Leave''),
      (''description'', JStr ''PATCH /leaves/{id}/cancel lets the owner cancel their PENDING request. 404 for unknown ids, 403 for someone else's request, 409 if the request is no longer PENDING.''),
      (''item'', JList
       [request ''Apply 3rd Leave - Sick 1d (201, captures id_3)'' ''POST'' ''/leaves''
          (Some ([param ''Content-Type'' ''application/json'', param ''Authorization'' ''Bearer {{emp1_token}}''])) (Some (json_body (JObj
            [(''leave_type'', JStr ''SICK''),
             (''start_date'', JStr ''{{range_c_start}}''),
             (''end_date'', JStr ''{{range_c_end}}''),
             (''number_of_days'', JInt 1),
             (''reason'', JStr ''Doctor visit'')]))) None (Some
          [''pm.test('201 Created', function () { pm.response.to.have.status(201); });'',
           ''pm.collectionVariables.set('pending_request_id_3', pm.response.json().request_id);'']) [],
        request ''Cancel - Not Owner (403)'' ''PATCH'' ''/leaves/{{pending_request_id_3}}/cancel''
          (Some (bearer ''emp2_token'')) None None (Some
          [''pm.test('403 Forbidden (emp2 cannot cancel emp1 request)', function () {'',
           ''  pm.response.to.have.status(403);'',
           ''});'']) [],
        request ''Cancel - Unknown ID (404)'' ''PATCH'' ''/leaves/{{fake_id}}/cancel''
          (Some (bearer ''emp1_token'')) None None (Some
          [''pm.test('404 Not Found', function () { pm.response.to.have.status(404); });'']) [],
        request ''Cancel - No Auth (401)'' ''PATCH'' ''/leaves/{{pending_request_id_3}}/cancel''
          None None None (Some
          [''pm.test('401 Unauthorized', function () { pm.response.to.have.status(401); });'']) [],
        request ''Cancel Pending #3 (200)'' ''PATCH'' ''/leaves/{{pending_request_id_3}}/cancel''
          (Some (bearer ''emp1_token'')) None None (Some
          [''pm.test('200 OK', function () { pm.response.to.have.status(200); });'',
           ''pm.test('Status flipped to CANCELLED', function () {'',
           ''  pm.expect(pm.response.json().status).to.eql('CANCELLED');'',
           ''});'']) [],
        request ''Cancel Already Cancelled (409)'' ''PATCH'' ''/leaves/{{pending_request_id_3}}/cancel''
          (Some (bearer ''emp1_token'')) None None (Some
          [''pm.test('409 Conflict (only PENDING can be cancelled)', function () {'',
           ''  pm.response.to.have.status(409);'',
           ''});'']) []])]\<close>

definition folder_cross_cutting :: json where
  \<open>folder_cross_cutting = JObj
     [(''name'', JStr ''09 - Cross-Cutting''),
      (''description'', JStr ''Smoke checks for the platform-wide concerns: gateway health, the three flavours of 401 produced by the auth middleware, and the manual procedures for verifying the circuit breaker, OpenTelemetry tracing, and SYSTEM_ERROR publishing.''),
      (''item'', JList
       [request ''Gateway /health (200)'' ''GET'' ''/health''
          None None None (Some
          [''pm.test('200 OK', function () { pm.response.to.have.status(200); });'',
           ''pm.expect(pm.response.json().status).to.eql('healthy');'']) [],
        request ''Protected Route - No Auth Header (401)'' ''GET'' ''/leaves/history''
          None None None (Some
          [''pm.test('401 Unauthorized', function () { pm.response.to.have.status(401); });'',
           ''pm.test('WWW-Authenticate header advertises Bearer scheme', function () {'',
           ''  pm.expect(pm.response.headers.get('WWW-Authenticate')).to.match(/Bearer/i);'',
           ''});'']) [],
        request ''Protected Route - Malformed Authorization (401)'' ''GET'' ''/leaves/history''
          (Some ([param ''Authorization'' ''NotBearer abcdef''])) None None (Some
          [''pm.test('401 Unauthorized', function () { pm.response.to.have.status(401); });'']) [],
        request ''Protected Route - Invalid Token (401)'' ''GET'' ''/leaves/history''
          (Some ([param ''Authorization'' ''Bearer not.a.real.token''])) None None (Some
          [''pm.test('401 Unauthorized', function () { pm.response.to.have.status(401); });'']) [],
        request ''Circuit Breaker - 503 (manual)'' ''POST'' ''/leaves''
          (Some ([param ''Content-Type'' ''application/json'', param ''Authorization'' ''Bearer {{emp1_token}}''])) (Some (json_body (JObj
            [(''leave_type'', JStr ''CASUAL''),
             (''start_date'', JStr ''{{range_e_start}}''),
             (''end_date'', JStr ''{{range_e_end}}''),
             (''number_of_days'', JInt 1),
             (''reason'', JStr ''Circuit-breaker probe'')]))) None (Some
          [''pm.test('503 Service Unavailable when balance service is down', function () {'',
           ''  pm.expect([503, 504, 201]).to.include(pm.response.code);'',
           ''});'',
           ''if (pm.response.code === 503) {'',
           ''  pm.expect(pm.response.json().detail).to.match(/unavailable/i);'',
           ''}'']) (''MANUAL test. Stop the leave-balance-service container, then send this request 5+ times in quick succession. The first few requests fail with 503 from the apply_leave endpoint catching httpx.HTTPError; once the breaker trips (failure threshold = 3), subsequent requests short-circuit with the same 503 but log 'Balance lookup circuit open'.'' @ [CHR 0x0A, CHR 0x0A] @ ''Steps:'' @ [CHR 0x0A] @ ''  1) docker-compose stop leave-balance-service'' @ [CHR 0x0A] @ ''  2) Send this request several times until the breaker opens'' @ [CHR 0x0A] @ ''  3) docker-compose logs leave-request-service | grep 'circuit'' @ [CHR 0x27, CHR 0x0A] @ ''  4) docker-compose start leave-balance-service'' @ [CHR 0x0A]),
        request ''OpenTelemetry Tracing (manual)'' ''GET'' ''/leaves/history''
          (Some ([param ''Authorization'' ''Bearer {{emp1_token}}'', param ''traceparent'' ''00-0af7651916cd43dd8448eb211c80319c-b7ad6b7169203331-01''])) None None (Some
          [''pm.test('200 OK', function () { pm.response.to.have.status(200); });'']) (''MANUAL verification. The OpenTelemetry SDK in shared/tracing.py exports spans via the ConsoleSpanExporter to each service's stdout. After running this request:'' @ [CHR 0x0A, CHR 0x0A] @ ''  docker-compose logs api-gateway leave-request-service | grep -i span'' @ [CHR 0x0A, CHR 0x0A] @ ''You should see correlated spans (api-gateway -> leave-request-service) carrying the trace_id from the traceparent header above.''),
        request ''SYSTEM_ERROR Publishing (manual)'' ''GET'' ''/health''
          None None None (Some
          [''pm.test('Gateway is reachable', function () { pm.response.to.have.status(200); });'']) (''MANUAL verification. The global exception handler in shared/exception_handlers.py publishes a SYSTEM_ERROR event to RabbitMQ whenever an unhandled exception escapes a route. The Notification Service consumer logs:'' @ [CHR 0x0A, CHR 0x0A] @ ''  [NOTIFICATION] SYSTEM_ERROR: <service>/<route> -> <message>'' @ [CHR 0x0A, CHR 0x0A] @ ''To trigger one: temporarily raise an unexpected exception in any route, hit it via this collection, and observe:'' @ [CHR 0x0A, CHR 0x0A] @ ''  docker-compose logs notification-service | grep SYSTEM_ERROR'' @ [CHR 0x0A, CHR 0x0A] @ ''The event payload mirrors the published JSON in shared/rabbitmq_publisher.py.'')])]\<close>

definition PRE_REQUEST_LINES :: "string list" where
  \<open>PRE_REQUEST_LINES =
     [''// Compute date variables relative to today (UTC) so success/overlap/past-date'',
      ''// scenarios are stable no matter when the collection is run.'',
      ''const fmt = function (d) { return d.toISOString().slice(0, 10); };'',
      ''const add = function (n) {'',
      ''  const d = new Date();'',
      ''  d.setUTCDate(d.getUTCDate() + n);'',
      ''  return d;'',
      ''};'',
      ''pm.collectionVariables.set('today', fmt(new Date()));'',
      ''pm.collectionVariables.set('past_start', fmt(add(-5)));'',
      ''pm.collectionVariables.set('past_end',   fmt(add(-3)));'',
      ''// Range A: 3 days CASUAL for emp1 (success + overlap tests).'',
      ''pm.collectionVariables.set('range_a_start', fmt(add(14)));'',
      ''pm.collectionVariables.set('range_a_end',   fmt(add(16)));'',
      ''// Range B: 2 days PRIVILEGE for emp1 (reject test).'',
      ''pm.collectionVariables.set('range_b_start', fmt(add(21)));'',
      ''pm.collectionVariables.set('range_b_end',   fmt(add(22)));'',
      ''// Range C: 1 day SICK for emp1 (cancel test).'',
      ''pm.collectionVariables.set('range_c_start', fmt(add(28)));'',
      ''pm.collectionVariables.set('range_c_end',   fmt(add(28)));'',
      ''// Range D: 11 days SICK (insufficient-balance test, since SICK total = 10).'',
      ''pm.collectionVariables.set('range_d_start', fmt(add(35)));'',
      ''pm.collectionVariables.set('range_d_end',   fmt(add(45)));'',
      ''// Range E: 1 day used for the manager-id mismatch and circuit-breaker tests.'',
      ''pm.collectionVariables.set('range_e_start', fmt(add(50)));'',
      ''pm.collectionVariables.set('range_e_end',   fmt(add(50)));'']\<close>

definition COLLECTION_VARIABLES :: "json list" where
  \<open>COLLECTION_VARIABLES =
     [JObj [(''key'', JStr ''baseUrl''), (''value'', JStr ''http://localhost:8080''), (''type'', JStr ''string'')],
      JObj [(''key'', JStr ''manager_id''), (''value'', JStr ''00000000-0000-0000-0000-000000000001''), (''type'', JStr ''string'')],
      JObj [(''key'', JStr ''emp1_id''), (''value'', JStr ''00000000-0000-0000-0000-000000000002''), (''type'', JStr ''string'')],
      JObj [(''key'', JStr ''emp2_id''), (''value'', JStr ''00000000-0000-0000-0000-000000000003''), (''type'', JStr ''string'')],
      JObj [(''key'', JStr ''fake_id''), (''value'', JStr ''ffffffff-ffff-ffff-ffff-ffffffffffff''), (''type'', JStr ''string'')],
      JObj [(''key'', JStr ''manager_token''), (''value'', JStr []), (''type'', JStr ''string'')],
      JObj [(''key'', JStr ''emp1_token''), (''value'', JStr []), (''type'', JStr ''string'')],
      JObj [(''key'', JStr ''emp2_token''), (''value'', JStr []), (''type'', JStr ''string'')],
      JObj [(''key'', JStr ''pending_request_id_1''), (''value'', JStr []), (''type'', JStr ''string'')],
      JObj [(''key'', JStr ''pending_request_id_2''), (''value'', JStr []), (''type'', JStr ''string'')],
      JObj [(''key'', JStr ''pending_request_id_3''), (''value'', JStr []), (''type'', JStr ''string'')],
      JObj [(''key'', JStr ''today''), (''value'', JStr []), (''type'', JStr ''string'')],
      JObj [(''key'', JStr ''past_start''), (''value'', JStr []), (''type'', JStr ''string'')],
      JObj [(''key'', JStr ''past_end''), (''value'', JStr []), (''type'', JStr ''string'')],
      JObj [(''key'', JStr ''range_a_start''), (''value'', JStr []), (''type'', JStr ''string'')],
      JObj [(''key'', JStr ''range_a_end''), (''value'', JStr []), (''type'', JStr ''string'')],
      JObj [(''key'', JStr ''range_b_start''), (''value'', JStr []), (''type'', JStr ''string'')],
      JObj [(''key'', JStr ''range_b_end''), (''value'', JStr []), (''type'', JStr ''string'')],
      JObj [(''key'', JStr ''range_c_start''), (''value'', JStr []), (''type'', JStr ''string'')],
      JObj [(''key'', JStr ''range_c_end''), (''value'', JStr []), (''type'', JStr ''string'')],
      JObj [(''key'', JStr ''range_d_start''), (''value'', JStr []), (''type'', JStr ''string'')],
      JObj [(''key'', JStr ''range_d_end''), (''value'', JStr []), (''type'', JStr ''string'')],
      JObj [(''key'', JStr ''range_e_start''), (''value'', JStr []), (''type'', JStr ''string'')],
      JObj [(''key'', JStr ''range_e_end''), (''value'', JStr []), (''type'', JStr ''string'')]]\<close>

definition collection :: json where
  \<open>collection = JObj
     [(''info'', JObj
        [(''_postman_id'', JStr ''elms-collection-2026''),
         (''name'', JStr ''ELMS - Employee Leave Management System''),
         (''description'', JStr (''End-to-end test collection for the ELMS backend (6 services). Run as a Collection so requests flow in order: Auth populates tokens, Apply Leave populates request IDs, then Approve/Reject/Cancel exercise the lifecycle. All requests target the API Gateway at {{baseUrl}}.'' @ [CHR 0x0A, CHR 0x0A] @ ''Prerequisites: docker-compose up --build, all 8 containers healthy.'' @ [CHR 0x0A, CHR 0x0A] @ ''Seed identities (see shared/seed_config.py):'' @ [CHR 0x0A] @ ''- manager1 / Manager@123  (id 00000000-0000-0000-0000-000000000001)'' @ [CHR 0x0A] @ ''- emp1     / Employee@123 (id 00000000-0000-0000-0000-000000000002, reports to manager1)'' @ [CHR 0x0A] @ ''- emp2     / Employee@123 (id 00000000-0000-0000-0000-000000000003, reports to manager1)'')),
         (''schema'', JStr ''https://schema.getpostman.com/json/collection/v2.1.0/collection.json'')]),
      (''event'', JList [JObj [(''listen'', JStr ''prerequest''), (''script'', script PRE_REQUEST_LINES)]]),
      (''variable'', JList COLLECTION_VARIABLES),
      (''item'', JList [folder_auth, folder_balance, folder_apply, folder_history, folder_manager_view, folder_manager_approve, folder_manager_reject, folder_cancel, folder_cross_cutting])]\<close>

definition collection_text :: string where
  "collection_text = json_dumps 0 collection"

section \<open>The requests of the collection\<close>

definition sub :: "json \<Rightarrow> string \<Rightarrow> json" where
  "sub j k = (case j of JObj kvs \<Rightarrow> field kvs k | _ \<Rightarrow> JNull)"

definition elements :: "json \<Rightarrow> json list" where
  "elements j = (case j of JList xs \<Rightarrow> xs | _ \<Rightarrow> [])"

definition item_method :: "json \<Rightarrow> string" where
  "item_method it = json_str (sub (sub it ''request'') ''method'')"

definition item_parts :: "json \<Rightarrow> string list" where
  "item_parts it = map json_str (elements (sub (sub (sub it ''request'') ''url'') ''path''))"

definition collection_items :: "json list" where
  "collection_items = concat (map (\<lambda>f. elements (sub f ''item'')) (elements (sub collection ''item'')))"

text \<open>The path a request goes to when the variables in double braces have values.\<close>

definition fill :: "(string \<Rightarrow> string) \<Rightarrow> string \<Rightarrow> string" where
  "fill \<sigma> x = (if take 2 x = ''{{'' then \<sigma> x else x)"

definition item_path :: "(string \<Rightarrow> string) \<Rightarrow> json \<Rightarrow> string" where
  "item_path \<sigma> it = slashed (map (fill \<sigma>) (item_parts it))"

lemma sub_simps: "sub (JObj kvs) k = field kvs k" "elements (JList xs) = xs" "elements JNull = []"
  by (simp_all add: sub_def elements_def)

lemma item_request:
  "item_method (request n m p h b q t d) = m" "item_parts (request n m p h b q t d) = path_parts p"
  by (simp_all add: item_method_def item_parts_def request_def url_def sub_simps field_def dict_get_def
      Let_def comp_def)

definition calls :: "json \<Rightarrow> (string \<times> string list) list" where
  "calls f = map (\<lambda>it. (item_method it, item_parts it)) (elements (sub f ''item''))"

lemma calls_folder: "calls (JObj [(''name'', n), (''description'', d), (''item'', JList its)]) =
    map (\<lambda>it. (item_method it, item_parts it)) its"
  by (simp add: calls_def sub_simps field_def dict_get_def)

lemma path_parts_simps:
  "path_parts ''/auth/login'' = [''auth'', ''login'']"
  "path_parts ''/health'' = [''health'']"
  "path_parts ''/employees/me/balances'' = [''employees'', ''me'', ''balances'']"
  "path_parts ''/employees/{{emp1_id}}/balances'' = [''employees'', ''{{emp1_id}}'', ''balances'']"
  "path_parts ''/employees/{{emp2_id}}/balances'' = [''employees'', ''{{emp2_id}}'', ''balances'']"
  "path_parts ''/employees/{{fake_id}}/balances'' = [''employees'', ''{{fake_id}}'', ''balances'']"
  "path_parts ''/leaves'' = [''leaves'']"
  "path_parts ''/leaves/history'' = [''leaves'', ''history'']"
  "path_parts ''/leaves/{{fake_id}}/cancel'' = [''leaves'', ''{{fake_id}}'', ''cancel'']"
  "path_parts ''/leaves/{{pending_request_id_3}}/cancel'' = [''leaves'', ''{{pending_request_id_3}}'', ''cancel'']"
  "path_parts ''/manager/requests'' = [''manager'', ''requests'']"
  "path_parts ''/manager/requests/{{fake_id}}/approve'' = [''manager'', ''requests'', ''{{fake_id}}'', ''approve'']"
  "path_parts ''/manager/requests/{{pending_request_id_1}}/approve'' =
     [''manager'', ''requests'', ''{{pending_request_id_1}}'', ''approve'']"
  "path_parts ''/manager/requests/{{pending_request_id_2}}/reject'' =
     [''manager'', ''requests'', ''{{pending_request_id_2}}'', ''reject'']"
  by (simp_all add: path_parts_def)

lemma calls_auth:
  "calls folder_auth =
     [(''POST'', [''auth'', ''login'']),
      (''POST'', [''auth'', ''login'']),
      (''POST'', [''auth'', ''login'']),
      (''POST'', [''auth'', ''login'']),
      (''POST'', [''auth'', ''login'']),
      (''POST'', [''auth'', ''login''])]"
    unfolding folder_auth_def calls_folder by (simp only: list.map item_request path_parts_simps)

lemma calls_balance:
  "calls folder_balance =
     [(''GET'', [''employees'', ''me'', ''balances'']),
      (''GET'', [''employees'', ''me'', ''balances'']),
      (''GET'', [''employees'', ''{{emp1_id}}'', ''balances'']),
      (''GET'', [''employees'', ''{{emp1_id}}'', ''balances'']),
      (''GET'', [''employees'', ''{{emp2_id}}'', ''balances'']),
      (''GET'', [''employees'', ''{{fake_id}}'', ''balances'']),
      (''GET'', [''employees'', ''me'', ''balances''])]"
    unfolding folder_balance_def calls_folder by (simp only: list.map item_request path_parts_simps)

lemma calls_apply:
  "calls folder_apply =
     [(''POST'', [''leaves'']),
      (''POST'', [''leaves'']),
      (''POST'', [''leaves'']),
      (''POST'', [''leaves'']),
      (''POST'', [''leaves'']),
      (''POST'', [''leaves'']),
      (''POST'', [''leaves'']),
      (''POST'', [''leaves'']),
      (''POST'', [''leaves''])]"
    unfolding folder_apply_def apply_refusals_def calls_folder by (simp only: list.map item_request path_parts_simps)

lemma calls_history:
  "calls folder_history =
     [(''GET'', [''leaves'', ''history'']),
      (''GET'', [''leaves'', ''history'']),
      (''GET'', [''leaves'', ''history'']),
      (''GET'', [''leaves'', ''history'']),
      (''GET'', [''leaves'', ''history'']),
      (''GET'', [''leaves'', ''history''])]"
    unfolding folder_history_def calls_folder by (simp only: list.map item_request path_parts_simps)

lemma calls_manager_view:
  "calls folder_manager_view =
     [(''GET'', [''manager'', ''requests'']),
      (''GET'', [''manager'', ''requests'']),
      (''GET'', [''manager'', ''requests'']),
      (''GET'', [''manager'', ''requests''])]"
    unfolding folder_manager_view_def calls_folder by (simp only: list.map item_request path_parts_simps)

lemma calls_manager_approve:
  "calls folder_manager_approve =
     [(''POST'', [''manager'', ''requests'', ''{{pending_request_id_1}}'', ''approve'']),
      (''POST'', [''manager'', ''requests'', ''{{pending_request_id_1}}'', ''approve'']),
      (''GET'', [''employees'', ''me'', ''balances'']),
      (''POST'', [''manager'', ''requests'', ''{{fake_id}}'', ''approve''])]"
    unfolding folder_manager_approve_def calls_folder by (simp only: list.map item_request path_parts_simps)

lemma calls_manager_reject:
  "calls folder_manager_reject =
     [(''POST'', [''leaves'']),
      (''POST'', [''manager'', ''requests'', ''{{pending_request_id_2}}'', ''reject'']),
      (''POST'', [''manager'', ''requests'', ''{{pending_request_id_2}}'', ''reject'']),
      (''POST'', [''manager'', ''requests'', ''{{pending_request_id_2}}'', ''reject'']),
      (''POST'', [''manager'', ''requests'', ''{{pending_request_id_2}}'', ''reject''])]"
    unfolding folder_manager_reject_def calls_folder by (simp only: list.map item_request path_parts_simps)

lemma calls_cancel:
  "calls folder_cancel =
     [(''POST'', [''leaves'']),
      (''PATCH'', [''leaves'', ''{{pending_request_id_3}}'', ''cancel'']),
      (''PATCH'', [''leaves'', ''{{fake_id}}'', ''cancel'']),
      (''PATCH'', [''leaves'', ''{{pending_request_id_3}}'', ''cancel'']),
      (''PATCH'', [''leaves'', ''{{pending_request_id_3}}'', ''cancel'']),
      (''PATCH'', [''leaves'', ''{{pending_request_id_3}}'', ''cancel''])]"
    unfolding folder_cancel_def calls_folder by (simp only: list.map item_request path_parts_simps)

lemma calls_cross_cutting:
  "calls folder_cross_cutting =
     [(''GET'', [''health'']),
      (''GET'', [''leaves'', ''history'']),
      (''GET'', [''leaves'', ''history'']),
      (''GET'', [''leaves'', ''history'']),
      (''POST'', [''leaves'']),
      (''GET'', [''leaves'', ''history'']),
      (''GET'', [''health''])]"
    unfolding folder_cross_cutting_def calls_folder by (simp only: list.map item_request path_parts_simps)

lemmas folder_calls = calls_auth calls_balance calls_apply calls_history calls_manager_view
  calls_manager_approve calls_manager_reject calls_cancel calls_cross_cutting

lemma collection_calls:
  "map (\<lambda>it. (item_method it, item_parts it)) collection_items =
     calls folder_auth @ calls folder_balance @ calls folder_apply @ calls folder_history
     @ calls folder_manager_view @ calls folder_manager_approve @ calls folder_manager_reject
     @ calls folder_cancel @ calls folder_cross_cutting"
  unfolding collection_items_def collection_def
  by (simp add: sub_simps field_def dict_get_def calls_def)

text \<open>A call that goes to one of the gateway's routes, or to its health route.\<close>

definition addressed :: "(string \<Rightarrow> string) \<Rightarrow> string \<times> string list \<Rightarrow> bool" where
  "addressed \<sigma> call \<longleftrightarrow> call = (''GET'', [''health''])
     \<or> (\<exists>r \<in> set ROUTES. fst r = fst call \<and> list_all2 segment_matches (fst (snd r)) (map (fill \<sigma>) (snd call)))"

lemma template_slashed:
  assumes "list_all slash_free ts" and "list_all (\<lambda>x. CHR ''/'' \<notin> set x) segs"
  shows "template_matches ts (slashed segs) \<longleftrightarrow> list_all2 segment_matches ts segs"
proof -
  have "split_path (join_with ''/'' ([] # segs)) = [] # segs"
    using assms(2) by (intro split_join_path) (auto simp: list_all_iff)
  then show ?thesis by (simp add: template_matches_def join_slashed)
qed

definition plain_call :: "(string \<Rightarrow> string) \<Rightarrow> string \<times> string list \<Rightarrow> bool" where
  "plain_call \<sigma> call \<longleftrightarrow> addressed \<sigma> call \<and> list_all (\<lambda>x. CHR ''/'' \<notin> set x) (map (fill \<sigma>) (snd call))"

lemma plain_call_simps:
  assumes "\<forall>x. path_segment (\<sigma> x)"
  shows "plain_call \<sigma> (''GET'', [''health''])" "plain_call \<sigma> (''POST'', [''auth'', ''login''])"
    "plain_call \<sigma> (''GET'', [''employees'', ''me'', ''balances''])"
    "x \<noteq> [] \<Longrightarrow> CHR ''/'' \<notin> set x \<Longrightarrow> plain_call \<sigma> (''GET'', [''employees'', x, ''balances''])"
    "plain_call \<sigma> (''POST'', [''leaves''])" "plain_call \<sigma> (''GET'', [''leaves'', ''history''])"
    "x \<noteq> [] \<Longrightarrow> CHR ''/'' \<notin> set x \<Longrightarrow> plain_call \<sigma> (''PATCH'', [''leaves'', x, ''cancel''])"
    "plain_call \<sigma> (''GET'', [''manager'', ''requests''])"
    "x \<noteq> [] \<Longrightarrow> CHR ''/'' \<notin> set x \<Longrightarrow> plain_call \<sigma> (''POST'', [''manager'', ''requests'', x, ''approve''])"
    "x \<noteq> [] \<Longrightarrow> CHR ''/'' \<notin> set x \<Longrightarrow> plain_call \<sigma> (''POST'', [''manager'', ''requests'', x, ''reject''])"
  using assms by (auto simp: plain_call_def addressed_def ROUTES_def fill_def path_segment_def)

lemma collection_plain:
  assumes "\<forall>x. path_segment (\<sigma> x)"
  shows "list_all (plain_call \<sigma>) (map (\<lambda>it. (item_method it, item_parts it)) collection_items)"
  unfolding collection_calls by (simp add: folder_calls plain_call_simps [OF assms])

lemma plain_call_route:
  assumes "plain_call \<sigma> (m, parts)" and "p = slashed (map (fill \<sigma>) parts)"
  shows "m = ''GET'' \<and> p = ''/health'' \<or> (\<exists>s. public_route m p s)"
proof (cases "(m, parts) = (''GET'', [''health''])")
  case True
  with assms(2) show ?thesis by (simp add: fill_def)
next
  case False
  with assms(1) obtain r where r: "r \<in> set ROUTES" "fst r = m"
    "list_all2 segment_matches (fst (snd r)) (map (fill \<sigma>) parts)"
    by (auto simp: plain_call_def addressed_def)
  with assms have "template_matches (fst (snd r)) p"
    by (simp add: plain_call_def template_slashed slash_free_routes)
  with r have "route_of m p = Some (snd (snd r))" unfolding route_of_ex by blast
  then show ?thesis unfolding route_of_iff by blast
qed

text \<open>One request of the collection for each route, in the order of the routes.\<close>

definition covering :: "(string \<times> string list) list" where
  "covering =
     [(''POST'', [''auth'', ''login'']),
      (''GET'', [''employees'', ''me'', ''balances'']),
      (''GET'', [''employees'', ''{{emp1_id}}'', ''balances'']),
      (''POST'', [''leaves'']),
      (''GET'', [''leaves'', ''history'']),
      (''PATCH'', [''leaves'', ''{{fake_id}}'', ''cancel'']),
      (''GET'', [''manager'', ''requests'']),
      (''POST'', [''manager'', ''requests'', ''{{fake_id}}'', ''approve'']),
      (''POST'', [''manager'', ''requests'', ''{{pending_request_id_2}}'', ''reject''])]"

lemma covering_called: "set covering \<subseteq> set (map (\<lambda>it. (item_method it, item_parts it)) collection_items)"
proof -
  have "set covering \<subseteq> set (calls folder_auth @ calls folder_balance @ calls folder_apply @ calls folder_history
      @ calls folder_manager_view @ calls folder_manager_approve @ calls folder_manager_reject
      @ calls folder_cancel @ calls folder_cross_cutting)"
    by (simp add: covering_def folder_calls)
  then show ?thesis unfolding collection_calls .
qed

lemma covering_routes:
  assumes "\<forall>x. path_segment (\<sigma> x)"
  shows "list_all2 (\<lambda>r call. fst call = fst r \<and> list_all2 segment_matches (fst (snd r)) (map (fill \<sigma>) (snd call)))
    ROUTES covering"
  using assms by (simp add: covering_def ROUTES_def fill_def path_segment_def)

lemma list_all2_in_set1: "list_all2 P xs ys \<Longrightarrow> x \<in> set xs \<Longrightarrow> \<exists>y \<in> set ys. P x y"
  by (induction rule: list_all2_induct) auto

lemma routes_called:
  assumes "\<forall>x. path_segment (\<sigma> x)" and "r \<in> set ROUTES"
  shows "\<exists>call \<in> set (map (\<lambda>it. (item_method it, item_parts it)) collection_items).
    fst call = fst r \<and> plain_call \<sigma> call \<and> list_all2 segment_matches (fst (snd r)) (map (fill \<sigma>) (snd call))"
proof -
  from list_all2_in_set1 [OF covering_routes [OF assms(1)] assms(2)] obtain call where call: "call \<in> set covering" "fst call = fst r"
    "list_all2 segment_matches (fst (snd r)) (map (fill \<sigma>) (snd call))"
    by blast
  with covering_called have "call \<in> set (map (\<lambda>it. (item_method it, item_parts it)) collection_items)" by blast
  with call collection_plain [OF assms(1)] show ?thesis unfolding list_all_iff by blast
qed

text \<open>
  C40: the test collection speaks the gateway's interface. Whatever values its variables get, every
  request of the nine folders goes to one of the nine public routes or to the health route, and every
  public route is called by some request; the ids it starts with are those of the seeded users.
\<close>

theorem collection_speaks_interface:
  assumes "\<forall>x. path_segment (\<sigma> x)"
  shows "list_all (\<lambda>it. item_method it = ''GET'' \<and> item_path \<sigma> it = ''/health''
        \<or> (\<exists>s. public_route (item_method it) (item_path \<sigma> it) s)) collection_items
    \<and> list_all (\<lambda>(m, ts, s). list_ex (\<lambda>it. item_method it = m \<and> template_matches ts (item_path \<sigma> it)) collection_items) ROUTES
    \<and> list_all (\<lambda>(k, i). JObj [(''key'', JStr k), (''value'', JStr i), (''type'', JStr ''string'')] \<in> set COLLECTION_VARIABLES)
        [(''manager_id'', MANAGER1_ID), (''emp1_id'', EMP1_ID), (''emp2_id'', EMP2_ID)]"
proof (intro conjI)
  show "list_all (\<lambda>it. item_method it = ''GET'' \<and> item_path \<sigma> it = ''/health''
      \<or> (\<exists>s. public_route (item_method it) (item_path \<sigma> it) s)) collection_items"
    using collection_plain [OF assms] plain_call_route unfolding list_all_iff item_path_def by fastforce
  show "list_all (\<lambda>(m, ts, s). list_ex (\<lambda>it. item_method it = m \<and> template_matches ts (item_path \<sigma> it)) collection_items) ROUTES"
    unfolding list_all_iff
  proof
    fix r assume r: "r \<in> set ROUTES"
    from routes_called [OF assms r] obtain it where it: "it \<in> set collection_items" "item_method it = fst r"
      "plain_call \<sigma> (item_method it, item_parts it)"
      "list_all2 segment_matches (fst (snd r)) (map (fill \<sigma>) (item_parts it))" by auto
    then have "template_matches (fst (snd r)) (item_path \<sigma> it)"
      using slash_free_routes [OF r] by (simp add: item_path_def plain_call_def template_slashed)
    with it show "case r of (m, ts, s) \<Rightarrow> list_ex (\<lambda>it. item_method it = m \<and> template_matches ts (item_path \<sigma> it)) collection_items"
      by (auto simp: list_ex_iff split: prod.split)
  qed
  show "list_all (\<lambda>(k, i). JObj [(''key'', JStr k), (''value'', JStr i), (''type'', JStr ''string'')] \<in> set COLLECTION_VARIABLES)
      [(''manager_id'', MANAGER1_ID), (''emp1_id'', EMP1_ID), (''emp2_id'', EMP2_ID)]"
    by (simp add: COLLECTION_VARIABLES_def MANAGER1_ID_def EMP1_ID_def EMP2_ID_def)
qed

theorem collection_speaks_interface_witness:
  "list_all (\<lambda>it. item_method it = ''GET'' \<and> item_path (\<lambda>x. ''id'') it = ''/health''
     \<or> (\<exists>s. public_route (item_method it) (item_path (\<lambda>x. ''id'') it) s)) collection_items"
  using collection_speaks_interface [of "\<lambda>x. ''id''"] by (simp add: path_segment_def)

end
