(* ===== verification/Spec2Isabelle.thy ===== *)
theory Spec2Isabelle
  imports Traffic_Demo Tracing Postman_Collection
begin

text \<open>
  The employee leave management system: a formal model of its services and what they guarantee.

  \<^bold>\<open>The program.\<close> Six services behind one gateway. A client logs in at the Auth Service
  (\<open>auth_service/\<close>) and gets a token. The gateway (\<open>api_gateway/\<close>) admits requests with a valid token,
  finds the service that owns the route (Consul, or a static address) and forwards the request with
  the verified identity in two headers. The Leave Balance Service (\<open>leave_balance_service/\<close>) keeps the
  days of each employee and leave type; the Leave Request Service (\<open>leave_request_service/\<close>) keeps the
  requests and their states; the Manager Service (\<open>manager_service/\<close>) has no state and decides requests
  by calling both, through circuit breakers. Handlers hand events to a publisher; the Notification
  Service (\<open>notification_service/\<close>) consumes them into an append-only log. \<open>shared/\<close> holds what all use.

  \<^bold>\<open>Conventions.\<close> Python dictionaries are insertion-ordered association lists (\<^verbatim>\<open>dict_get\<close>, \<^verbatim>\<open>dict_put\<close>);
  a store is a record of dictionaries, passed and returned. Integers are \<^typ>\<open>int\<close>, texts lists of
  characters, dates and times records with Python's calendar. An exception is a value of
  \<^typ>\<open>exn\<close>, a body that may raise returns \<^typ>\<open>'a result\<close>, and a route returns the response that the
  framework makes of it (\<^verbatim>\<open>respond\<close>). Clocks, fresh ids and what the network does are arguments.
  Every definition computes; there is no fuel: every loop of the services runs over a list, and the
  one endless loop, the consumer's, is a step function over a list of broker events.

  \<^bold>\<open>Theories, in order.\<close>
  \<^item> \<open>ELMS_Prelude\<close>, \<open>Py_Text\<close>, \<open>Py_Date\<close>, \<open>Py_Json\<close>: dictionaries and their lemma collections, results,
    the rule for step systems; \<open>strip\<close>, \<open>partition\<close>, \<open>int(text)\<close>; the day count; \<open>str\<close>, \<open>repr\<close>, truth and
    \<open>get\<close> of decoded JSON values.
  \<^item> \<open>Enums\<close>, \<open>Seed_Config\<close>, \<open>Auth_Context\<close>, \<open>Config\<close>: \<open>shared/enums.py\<close>, \<open>seed_config.py\<close>,
    \<open>auth_context.py\<close> (\<open>get_caller\<close>, \<open>require_manager\<close>), \<open>config.py\<close> (when the settings load, with what values).
  \<^item> \<open>Http\<close>: responses, \<open>shared/exception_handlers.py\<close>, \<open>rabbitmq_publisher.py\<close>, and an outbound call,
    which is delivered, lost on the way, or carried out with its reply lost.
  \<^item> \<open>Circuit_Breaker\<close>: \<open>shared/circuit_breakers.py\<close> over any breaker object, with a sample one that behaves
    as the library documents; an open breaker stays open under this wrapper.
  \<^item> \<open>Leave_Balance\<close>: models, store, seed, schemas and routes of the balance service; the store
    invariant; the deduction route refines an abstract ledger; no sequence of deductions overdraws.
  \<^item> \<open>Leave_Request_Store\<close>, \<open>Leave_Request_Service\<close>, \<open>Leave_Lifecycle\<close>: store, validators, schemas and
    routes of the request service (apply in its two halves around the balance lookup, history, cancel,
    internal list, status update); the validations are exactly the specification over calendar days;
    one-at-a-time handlers never double-book; the list is the conjunction of its filters; pages partition.
  \<^item> \<open>Manager_Service\<close>, \<open>Manager_Decisions\<close>: clients and routes of the manager service; approving is all
    or nothing when calls are answered, has three outcomes under any failure; rejecting; team scope; guard.
  \<^item> \<open>Leave_System\<close>, \<open>Leave_Runs\<close>: the services together, every handler cut at its awaits into parts that
    interleave (\<open>sys_exec\<close>; the first part of a manager's handler has the role check), with invariants by the rule for step systems: approved days are covered by
    deducted days, which are within the allocation; a request moves once; events tell the truth; the
    parts compose to the handlers. Runs: a double booking and a leaked deduction are reachable.
  \<^item> \<open>Notification_Service\<close>, \<open>Audit_Pipeline\<close>: the log store, the sentence of each event, the consumer as a
    machine over the broker; the audit trail is complete and append-only, the queue drains; events are
    typed; end to end (\<^verbatim>\<open>run_pipe\<close>: publications by independent tasks, in any order, between the consumer's
    steps) the log agrees with the request store. Nothing fixes the order of entries, and an entry whose
    acknowledgement is lost is logged again.
  \<^item> \<open>Service_Discovery\<close>: \<open>shared/consul_client.py\<close>, \<open>service_client.py\<close>, \<open>api_gateway/consul_resolver.py\<close>;
    round robin is fair, the resolvers agree, what is registered resolves back.
  \<^item> \<open>Auth_Service\<close>: user store, seed, \<open>shared/jwt_utils.py\<close>, login, which is exact.
  \<^item> \<open>Api_Gateway\<close>, \<open>Gateway_Properties\<close>: middleware, routes, forwarding; the public surface, which paths
    the gate exempts and what it asks of the others, the identity the services see, what clients can override, and what each upstream outcome becomes.
  \<^item> \<open>Service_Logging\<close>, \<open>Service_Startup\<close>, \<open>Tracing\<close>: \<open>shared/logging_config.py\<close>; the lifespans in the six
    \<open>main.py\<close>; \<open>shared/tracing.py\<close> and what the lifespans make of it.
  \<^item> \<open>Postman_Collection\<close>: \<open>build_collection.py\<close>, request by request; the collection speaks the
    gateway's interface.
  \<^item> \<open>Json_Schemas\<close>, \<open>Wire_Handlers\<close>: the bodies between the services as decoded JSON: what each schema
    (\<open>*/schemas.py\<close>) writes and reads, the clients (\<open>manager_service/clients.py\<close>, \<open>balance_client.py\<close>) and the
    manager's handlers with their \<open>get\<close>s and subscripts; schemas round-trip between services, and the handlers
    over JSON agree with those over typed values, so that no key, type or validation error is possible there.
  \<^item> \<open>Platform\<close>, \<open>Platform_Properties\<close>, \<open>Platform_Refinement\<close>: the applications behind the gateway with
    their route tables (\<^verbatim>\<open>auth_app\<close>, \<^verbatim>\<open>balance_app\<close>, \<^verbatim>\<open>request_app\<close>, \<^verbatim>\<open>manager_app\<close>), a handler per route, and one
    client request through the gateway to a service and back (\<^verbatim>\<open>platform_step\<close>). A step refines the
    interleaved system; hence any sequence of requests from the seeded start is safe (\<^verbatim>\<open>platform_runs_safe\<close>).
  \<^item> \<open>Platform_Identity\<close>, \<open>Platform_Session\<close>: a token holder without identity headers of its own is served as the
    user of the token and stays within that user's authority; a client that sends these headers is served as
    whomever they name. From the credentials to the service: what login answers and what its token is good for.
  \<^item> \<open>Platform_Ledger\<close>: while the calls among the services are answered, deducted and approved days are equal.
  \<^item> \<open>Leave_Progress\<close>: every request that comes in is answered exactly once or in progress; no handler in progress
    is stuck, given that each call ends somehow (the HTTP clients have timeouts), and each resumes at most twice.
  \<^item> \<open>Traffic\<close>, \<open>Traffic_Authority\<close>: any number of client requests at the gateway, in transit and in progress at
    once (\<^verbatim>\<open>traffic_exec\<close>). One at a time it is the platform; every run is a run of the interleaved system, so its
    invariants hold; and every stored request and decision goes back to a client request with a verified
    token of the employee or manager concerned.
  \<^item> \<open>Platform_Runs\<close>, \<open>Platform_Demo\<close>, \<open>Traffic_Demo\<close>: sample libraries, a deployment over the static addresses,
    and the concrete runs that show the hypotheses can hold.

  \<^bold>\<open>Parameters.\<close> Code that is not in the repository is an argument with documented laws as hypotheses:
  the breaker object, bcrypt (\<^verbatim>\<open>bcrypt_ok\<close>, on passwords of at most 72 ASCII characters), the token library
  (\<^verbatim>\<open>jwt_ok\<close>), the framework's header lookup (\<^verbatim>\<open>header_ok\<close>: case-insensitive, first value), the HTTP client
  and Consul (\<^verbatim>\<open>clients_ok\<close>: they raise their own exceptions), the validation library's reading and writing of
  texts, numbers, dates and times (\<^verbatim>\<open>wire_lib_ok\<close>: it reads back what it writes), which service listens at
  an address (\<^verbatim>\<open>listening_ok\<close>: the one that resolves to it), and the tracing library (\<^verbatim>\<open>otel_ok\<close>). Each has
  an instance that satisfies them. The record \<^verbatim>\<open>framework\<close>
  holds what the web framework does without any law: the body as JSON, the texts of JSON and of validation errors,
  the answers to requests no route takes.

  \<^bold>\<open>Three models of time.\<close> On the platform (\<^verbatim>\<open>platform_step\<close>) a client request is served before the next is
  made, from the text of its headers and body to the text of the answer. In \<open>Leave_System\<close> the handlers of many
  requests interleave at their awaits, over typed values. In \<open>Traffic\<close> many client requests are under way, each at
  the gateway, in transit, or in progress as a task of \<open>Leave_System\<close>. The three are connected: a served request is
  the traffic of that request alone (\<^verbatim>\<open>one_at_a_time\<close>), the traffic is a run of the interleaved system, and the
  handlers over JSON are those over typed values (\<^verbatim>\<open>wire_handlers_agree\<close>). So the invariants of the interleaved
  system hold in all three; that no two leaves of an employee overlap, and that deducted and approved days
  are equal, hold one at a time and fail under interleaving (\<^verbatim>\<open>double_booking_reachable\<close>, \<^verbatim>\<open>deduction_can_leak\<close>).

  \<^bold>\<open>Bounds.\<close> Texts are ASCII where case, white space or \<open>repr\<close> matter; years are 1 to 9999; a path has no
  \<open>?\<close> or \<open>#\<close> after decoding; time at the token library is in whole seconds, as the claim is encoded.

  \<^bold>\<open>Not modelled.\<close> Durations in log lines and the texts of diagnostic log lines; waiting times and
  the prefetch of the consumer; the validation texts of 422 responses; the framework's own answers at paths without
  a route; the WWW-Authenticate header of the token helper's exception, which the gateway replaces by
  its own; module constants of timeouts; the package \<open>__init__\<close> files, which are empty; configuration of containers and of the log stack.
\<close>

end
